(* ===== verification/Stargate_Prelude.thy ===== *)
theory Stargate_Prelude
  imports Main "HOL-Library.Word" "HOL-Library.AList" "HOL-Library.Multiset"
begin

text \<open>
  Shared vocabulary of the Stargate development: fixed-width integers of the Rust code,
  hash maps and hash sets as association lists and lists (their order is the iteration order,
  which Rust leaves unspecified), the early return of the \<open>?\<close> operator, reachable states of a
  step relation, and the generic facts the component theories use through the collections
  \<open>stargate_simps\<close> and \<open>stargate_intros\<close>.
\<close>

named_theorems stargate_simps \<open>rewrite rules that unfold one layer of the model\<close>
named_theorems stargate_intros \<open>preservation facts, one per operation\<close>

section \<open>Machine integers\<close>

type_synonym u8 = "8 word"
type_synonym u32 = "32 word"
type_synonym u64 = "64 word"
type_synonym bytes = "8 word list"

abbreviation i32_min :: int where "i32_min \<equiv> - 2147483648"
abbreviation i32_max :: int where "i32_max \<equiv> 2147483647"

definition in_i32 :: "int \<Rightarrow> bool" where
  "in_i32 x \<longleftrightarrow> i32_min \<le> x \<and> x \<le> i32_max"

text \<open>\<open>i32::saturating_add\<close> and \<open>i32::saturating_sub\<close>.\<close>

definition sat_i32 :: "int \<Rightarrow> int" where
  "sat_i32 x = max i32_min (min i32_max x)"

definition saturating_add :: "int \<Rightarrow> int \<Rightarrow> int" where
  "saturating_add a b = sat_i32 (a + b)"

definition saturating_sub :: "int \<Rightarrow> int \<Rightarrow> int" where
  "saturating_sub a b = sat_i32 (a - b)"

text \<open>The \<open>/\<close> of a signed type rounds towards zero.\<close>

definition trunc_div :: "int \<Rightarrow> int \<Rightarrow> int" where
  "trunc_div x y = (if (x < 0) = (y < 0) then \<bar>x\<bar> div \<bar>y\<bar> else - (\<bar>x\<bar> div \<bar>y\<bar>))"

lemma in_i32_sat [simp, intro]: "in_i32 (sat_i32 x)"
  by (simp add: in_i32_def sat_i32_def)

lemma sat_i32_id [simp]: "in_i32 x \<Longrightarrow> sat_i32 x = x"
  by (simp add: in_i32_def sat_i32_def)

lemma in_i32_saturating [simp, intro]:
  "in_i32 (saturating_add a b)" "in_i32 (saturating_sub a b)"
  by (simp_all add: saturating_add_def saturating_sub_def)

lemma in_i32_0 [simp, intro]: "in_i32 0"
  by (simp add: in_i32_def)

section \<open>Early returns\<close>

text \<open>A fallible computation returns \<open>Inl\<close> of an error or \<open>Inr\<close> of its value; \<open>try_bind\<close> is the
  \<open>?\<close> operator.\<close>

fun try_bind :: "'e + 'a \<Rightarrow> ('a \<Rightarrow> 'e + 'b) \<Rightarrow> 'e + 'b" where
  "try_bind (Inl e) f = Inl e"
| "try_bind (Inr a) f = f a"

definition ensure :: "bool \<Rightarrow> 'e \<Rightarrow> 'e + unit" where
  "ensure b e = (if b then Inr () else Inl e)"

definition ok_or :: "'a option \<Rightarrow> 'e \<Rightarrow> 'e + 'a" where
  "ok_or x e = (case x of None \<Rightarrow> Inl e | Some a \<Rightarrow> Inr a)"

lemma try_bind_Inr_iff: "try_bind x f = Inr b \<longleftrightarrow> (\<exists>a. x = Inr a \<and> f a = Inr b)"
  by (cases x) auto

lemma try_bind_Inl_iff:
  "try_bind x f = Inl e \<longleftrightarrow> x = Inl e \<or> (\<exists>a. x = Inr a \<and> f a = Inl e)"
  by (cases x) auto

lemma ensure_Inr_iff [simp]: "ensure b e = Inr u \<longleftrightarrow> b"
  by (simp add: ensure_def)

lemma ensure_True [simp]: "ensure True e = Inr ()"
  by (simp add: ensure_def)

lemma ensure_False [simp]: "ensure False e = Inl e"
  by (simp add: ensure_def)

lemma ok_or_Inr_iff [simp]: "ok_or x e = Inr a \<longleftrightarrow> x = Some a"
  by (simp add: ok_or_def split: option.splits)

lemmas try_iffs = try_bind_Inr_iff try_bind_Inl_iff

section \<open>Hash maps as association lists\<close>

lemma map_of_update [simp]: "map_of (AList.update k v al) = (map_of al)(k \<mapsto> v)"
  by (rule update_conv')

lemma dom_alist: "dom (map_of al) = fst ` set al"
  by (rule dom_map_of_conv_image_fst)

lemma distinct_keys_update [simp, intro]:
  "distinct (map fst al) \<Longrightarrow> distinct (map fst (AList.update k v al))"
  by (rule distinct_update)

lemma distinct_keys_delete [simp, intro]:
  "distinct (map fst al) \<Longrightarrow> distinct (map fst (AList.delete k al))"
  by (rule distinct_delete)

lemma set_alist_update: "set (AList.update k v al) \<subseteq> insert (k, v) (set al)"
  by (induction al) auto

lemma set_values_distinct:
  "distinct (map fst al) \<Longrightarrow> v \<in> snd ` set al \<longleftrightarrow> (\<exists>k. map_of al k = Some v)"
  by force

lemma find_Some_in: "find P xs = Some x \<Longrightarrow> P x \<and> x \<in> set xs"
  by (metis find_Some_iff nth_mem)

text \<open>A counting loop over a duplicate-free list adds one per element that satisfies the test.\<close>

lemma fold_count_up:
  fixes c :: "'w::len word"
  assumes "distinct xs"
  shows "fold (\<lambda>x c. if P x then c + 1 else c) xs c = c + of_nat (card {x \<in> set xs. P x})"
  using assms
proof (induction xs arbitrary: c)
  case Nil
  then show ?case by simp
next
  case (Cons x xs)
  have "{y \<in> set (x # xs). P y} = (if P x then insert x {y \<in> set xs. P y} else {y \<in> set xs. P y})"
    by auto
  with Cons show ?case by (simp add: add.assoc)
qed

lemma fold_count_down:
  fixes c :: "'w::len word"
  assumes "distinct xs"
  shows "fold (\<lambda>x c. if P x then c - 1 else c) xs c = c - of_nat (card {x \<in> set xs. P x})"
  using assms
proof (induction xs arbitrary: c)
  case Nil
  then show ?case by simp
next
  case (Cons x xs)
  have "{y \<in> set (x # xs). P y} = (if P x then insert x {y \<in> set xs. P y} else {y \<in> set xs. P y})"
    by auto
  with Cons show ?case by (simp add: diff_diff_eq)
qed

section \<open>Reachable states\<close>

text \<open>The states a component can be in: those of \<open>init\<close>, closed under \<open>step\<close>.\<close>

inductive reach :: "('s \<Rightarrow> bool) \<Rightarrow> ('s \<Rightarrow> 's \<Rightarrow> bool) \<Rightarrow> 's \<Rightarrow> bool"
  for init :: "'s \<Rightarrow> bool" and step :: "'s \<Rightarrow> 's \<Rightarrow> bool" where
  reach_init: "init s \<Longrightarrow> reach init step s"
| reach_step: "reach init step s \<Longrightarrow> step s t \<Longrightarrow> reach init step t"

locale inductive_invariant =
  fixes init :: "'s \<Rightarrow> bool" and step :: "'s \<Rightarrow> 's \<Rightarrow> bool" and inv :: "'s \<Rightarrow> bool"
  assumes inv_init: "init s \<Longrightarrow> inv s"
    and inv_step: "inv s \<Longrightarrow> step s t \<Longrightarrow> inv t"
begin

lemma reach_inv: "reach init step s \<Longrightarrow> inv s"
  by (induction rule: reach.induct) (auto intro: inv_init inv_step)

lemma steps_inv: "inv s \<Longrightarrow> step\<^sup>*\<^sup>* s t \<Longrightarrow> inv t"
  by (rotate_tac, induction rule: rtranclp_induct) (auto intro: inv_step)

end

end
