(* ===== verification/Peers_State.thy ===== *)
theory Peers_State
  imports Stargate_Prelude
begin

text \<open>
  The state storage behind the peer set manager (\<open>network-libp2p/peerset/src/peersstate.rs\<close>):
  known nodes with their connection state and reputation, slot counters, and priority groups.
  A \<open>HashMap\<close> is an association list and a \<open>HashSet\<close> a list, both in iteration order; peer ids
  are a type parameter. The counters are \<open>u32\<close> and wrap.
\<close>

section \<open>Data\<close>

datatype connection_state = In | Out | NotConnected

fun is_connected :: "connection_state \<Rightarrow> bool" where
  "is_connected In = True"
| "is_connected Out = True"
| "is_connected NotConnected = False"

record node =
  conn :: connection_state
  reputation :: int

definition node_default :: node where
  "node_default = \<lparr>conn = NotConnected, reputation = 0\<rparr>"

record 'p peers_state =
  nodes :: "('p \<times> node) list"
  num_in :: u32
  num_out :: u32
  max_in :: u32
  max_out :: u32
  priority_nodes :: "(string \<times> 'p list) list"
  priority_only :: bool

text \<open>The handles that \<open>PeersState::peer\<close> returns; the borrowed state is passed separately.\<close>

datatype 'p peer = ConnectedPeer 'p | NotConnectedPeer 'p | UnknownPeer 'p

section \<open>Operations\<close>

definition peers_state_new :: "u32 \<Rightarrow> u32 \<Rightarrow> bool \<Rightarrow> 'p peers_state" where
  "peers_state_new in_peers out_peers prio =
     \<lparr>nodes = [], num_in = 0, num_out = 0, max_in = in_peers, max_out = out_peers,
      priority_nodes = [], priority_only = prio\<rparr>"

definition peer :: "'p peers_state \<Rightarrow> 'p \<Rightarrow> 'p peer" where
  "peer s p =
     (case map_of (nodes s) p of
        None \<Rightarrow> UnknownPeer p
      | Some n \<Rightarrow> if is_connected (conn n) then ConnectedPeer p else NotConnectedPeer p)"

definition peers :: "'p peers_state \<Rightarrow> 'p list" where
  "peers s = map fst (nodes s)"

definition connected_peers :: "'p peers_state \<Rightarrow> 'p list" where
  "connected_peers s = map fst (filter (\<lambda>(_, n). is_connected (conn n)) (nodes s))"

text \<open>The test both priority searches apply to an id: known and not connected.\<close>

definition known_not_connected :: "'p peers_state \<Rightarrow> 'p \<Rightarrow> bool" where
  "known_not_connected s p =
     (case map_of (nodes s) p of None \<Rightarrow> False | Some n \<Rightarrow> \<not> is_connected (conn n))"

definition priority_not_connected_peer :: "'p peers_state \<Rightarrow> 'p option" where
  "priority_not_connected_peer s =
     find (known_not_connected s) (concat (map snd (priority_nodes s)))"

definition priority_not_connected_peer_from_group :: "'p peers_state \<Rightarrow> string \<Rightarrow> 'p option" where
  "priority_not_connected_peer_from_group s group_id =
     (case map_of (priority_nodes s) group_id of
        None \<Rightarrow> None
      | Some grp \<Rightarrow> find (known_not_connected s) grp)"

fun better_node :: "('p \<times> node) \<Rightarrow> ('p \<times> node) option \<Rightarrow> ('p \<times> node) option" where
  "better_node to_try None = Some to_try"
| "better_node to_try (Some cur) =
     (if reputation (snd cur) \<ge> reputation (snd to_try) then Some cur else Some to_try)"

text \<open>The iteration is over the entries of the map: \<open>clearjunk\<close> is the identity on the
  duplicate-free lists the operations build.\<close>

definition highest_not_connected_peer :: "'p peers_state \<Rightarrow> 'p option" where
  "highest_not_connected_peer s =
     map_option fst
       (fold better_node
          (filter (\<lambda>(_, n). \<not> is_connected (conn n)) (AList.clearjunk (nodes s))) None)"

definition is_priority :: "'p peers_state \<Rightarrow> 'p \<Rightarrow> bool" where
  "is_priority s p = list_ex (\<lambda>(_, grp). p \<in> set grp) (priority_nodes s)"

text \<open>Disconnecting a node that is not connected trips a \<open>debug_assert\<close>; a release build
  leaves the counters alone, which is what is modelled.\<close>

definition disconnect :: "'p \<Rightarrow> 'p peers_state \<Rightarrow> 'p peers_state" where
  "disconnect p s =
     (case map_of (nodes s) p of
        None \<Rightarrow> s
      | Some n \<Rightarrow>
          (let s' = (if is_priority s p then s
                     else (case conn n of
                             In \<Rightarrow> s\<lparr>num_in := num_in s - 1\<rparr>
                           | Out \<Rightarrow> s\<lparr>num_out := num_out s - 1\<rparr>
                           | NotConnected \<Rightarrow> s))
           in s'\<lparr>nodes := AList.update p (n\<lparr>conn := NotConnected\<rparr>) (nodes s)\<rparr>))"

definition try_outgoing :: "'p \<Rightarrow> 'p peers_state \<Rightarrow> bool \<times> 'p peers_state" where
  "try_outgoing p s =
     (if \<not> is_priority s p \<and> priority_only s then (False, s)
      else if num_out s \<ge> max_out s \<and> \<not> is_priority s p then (False, s)
      else (case map_of (nodes s) p of
              None \<Rightarrow> (False, s)
            | Some n \<Rightarrow>
                (True, s\<lparr>nodes := AList.update p (n\<lparr>conn := Out\<rparr>) (nodes s),
                         num_out := (if is_priority s p then num_out s else num_out s + 1)\<rparr>)))"

definition try_accept_incoming :: "'p \<Rightarrow> 'p peers_state \<Rightarrow> bool \<times> 'p peers_state" where
  "try_accept_incoming p s =
     (if \<not> is_priority s p \<and> priority_only s then (False, s)
      else if num_in s \<ge> max_in s \<and> \<not> is_priority s p then (False, s)
      else (case map_of (nodes s) p of
              None \<Rightarrow> (False, s)
            | Some n \<Rightarrow>
                (True, s\<lparr>nodes := AList.update p (n\<lparr>conn := In\<rparr>) (nodes s),
                         num_in := (if is_priority s p then num_in s else num_in s + 1)\<rparr>)))"

text \<open>\<open>HashMap::entry(p).or_default()\<close>.\<close>

definition or_default :: "'p \<Rightarrow> ('p \<times> node) list \<Rightarrow> ('p \<times> node) list" where
  "or_default p ns = (case map_of ns p of None \<Rightarrow> AList.update p node_default ns | Some _ \<Rightarrow> ns)"

text \<open>The two loop bodies of \<open>set_priority_group\<close>: a node that stops being a priority node takes
  a slot, a node that becomes one gives its slot back.\<close>

definition leave_group_body :: "'p list \<Rightarrow> 'p \<Rightarrow> 'p peers_state \<Rightarrow> 'p peers_state" where
  "leave_group_body others p s =
     (if p \<in> set others then s
      else (case map_of (nodes s) p of
              None \<Rightarrow> s
            | Some n \<Rightarrow> (case conn n of
                 In \<Rightarrow> s\<lparr>num_in := num_in s + 1\<rparr>
               | Out \<Rightarrow> s\<lparr>num_out := num_out s + 1\<rparr>
               | NotConnected \<Rightarrow> s)))"

definition join_group_body :: "'p list \<Rightarrow> 'p \<Rightarrow> 'p peers_state \<Rightarrow> 'p peers_state" where
  "join_group_body others p s =
     (if p \<in> set others then s
      else (let ns = or_default p (nodes s); s' = s\<lparr>nodes := ns\<rparr> in
            case map_of ns p of
              None \<Rightarrow> s'
            | Some n \<Rightarrow> (case conn n of
                 In \<Rightarrow> s'\<lparr>num_in := num_in s' - 1\<rparr>
               | Out \<Rightarrow> s'\<lparr>num_out := num_out s' - 1\<rparr>
               | NotConnected \<Rightarrow> s')))"

definition set_priority_group :: "string \<Rightarrow> 'p list \<Rightarrow> 'p peers_state \<Rightarrow> 'p peers_state" where
  "set_priority_group group_id ps s =
     (let others = concat (map snd (filter (\<lambda>(g, _). g \<noteq> group_id) (priority_nodes s)));
          existing = (case map_of (priority_nodes s) group_id of None \<Rightarrow> [] | Some g \<Rightarrow> g);
          s1 = s\<lparr>priority_nodes := AList.delete group_id (priority_nodes s)\<rparr>;
          s2 = fold (leave_group_body others) existing s1;
          s3 = fold (join_group_body others) ps s2
      in s3\<lparr>priority_nodes := AList.update group_id ps (priority_nodes s3)\<rparr>)"

definition get_priority_group :: "'p peers_state \<Rightarrow> string \<Rightarrow> 'p list option" where
  "get_priority_group s group_id = map_of (priority_nodes s) group_id"

text \<open>\<open>HashSet::insert\<close> and \<open>HashSet::remove\<close> on the duplicate-free list of a group.\<close>

definition set_insert :: "'p \<Rightarrow> 'p list \<Rightarrow> 'p list" where
  "set_insert p ps = (if p \<in> set ps then ps else ps @ [p])"

definition add_to_priority_group :: "string \<Rightarrow> 'p \<Rightarrow> 'p peers_state \<Rightarrow> 'p peers_state" where
  "add_to_priority_group group_id p s =
     (let ps = (case map_of (priority_nodes s) group_id of None \<Rightarrow> [] | Some g \<Rightarrow> g)
      in set_priority_group group_id (set_insert p ps) s)"

definition remove_from_priority_group :: "string \<Rightarrow> 'p \<Rightarrow> 'p peers_state \<Rightarrow> 'p peers_state" where
  "remove_from_priority_group group_id p s =
     (let ps = (case map_of (priority_nodes s) group_id of None \<Rightarrow> [] | Some g \<Rightarrow> g)
      in set_priority_group group_id (removeAll p ps) s)"

definition set_priority_only :: "bool \<Rightarrow> 'p peers_state \<Rightarrow> 'p peers_state" where
  "set_priority_only b s = s\<lparr>priority_only := b\<rparr>"

definition peer_reputation :: "'p peers_state \<Rightarrow> 'p \<Rightarrow> int" where
  "peer_reputation s p = (case map_of (nodes s) p of None \<Rightarrow> 0 | Some n \<Rightarrow> reputation n)"

definition set_reputation :: "'p \<Rightarrow> int \<Rightarrow> 'p peers_state \<Rightarrow> 'p peers_state" where
  "set_reputation p v s =
     (let n = (case map_of (nodes s) p of None \<Rightarrow> node_default | Some n \<Rightarrow> n)
      in s\<lparr>nodes := AList.update p (n\<lparr>reputation := v\<rparr>) (nodes s)\<rparr>)"

definition add_reputation :: "'p \<Rightarrow> int \<Rightarrow> 'p peers_state \<Rightarrow> 'p peers_state" where
  "add_reputation p modifier s =
     (let n = (case map_of (nodes s) p of None \<Rightarrow> node_default | Some n \<Rightarrow> n)
      in s\<lparr>nodes := AList.update p
             (n\<lparr>reputation := saturating_add (reputation n) modifier\<rparr>) (nodes s)\<rparr>)"

fun into_connected :: "'p peer \<Rightarrow> 'p option" where
  "into_connected (ConnectedPeer p) = Some p"
| "into_connected (NotConnectedPeer _) = None"
| "into_connected (UnknownPeer _) = None"

text \<open>\<open>NotConnectedPeer::try_outgoing\<close> and \<open>try_accept_incoming\<close>: \<open>Inr\<close> is the connected handle
  (\<open>Ok\<close>), \<open>Inl\<close> the unchanged one (\<open>Err\<close>).\<close>

definition peer_try_outgoing :: "'p \<Rightarrow> 'p peers_state \<Rightarrow> ('p + 'p) \<times> 'p peers_state" where
  "peer_try_outgoing p s =
     (case try_outgoing p s of (ok, s') \<Rightarrow> (if ok then (Inr p, s') else (Inl p, s')))"

definition peer_try_accept_incoming :: "'p \<Rightarrow> 'p peers_state \<Rightarrow> ('p + 'p) \<times> 'p peers_state" where
  "peer_try_accept_incoming p s =
     (case try_accept_incoming p s of (ok, s') \<Rightarrow> (if ok then (Inr p, s') else (Inl p, s')))"

definition discover :: "'p \<Rightarrow> 'p peers_state \<Rightarrow> 'p peers_state" where
  "discover p s = s\<lparr>nodes := AList.update p \<lparr>conn = NotConnected, reputation = 0\<rparr> (nodes s)\<rparr>"

section \<open>Well-formedness and slot accounting\<close>

definition conn_set :: "connection_state \<Rightarrow> 'p peers_state \<Rightarrow> 'p set" where
  "conn_set c s = {p. \<exists>n. map_of (nodes s) p = Some n \<and> conn n = c}"

definition known :: "'p peers_state \<Rightarrow> 'p set" where
  "known s = dom (map_of (nodes s))"

definition connected :: "'p peers_state \<Rightarrow> 'p set" where
  "connected s = conn_set In s \<union> conn_set Out s"

definition priority_set :: "'p peers_state \<Rightarrow> 'p set" where
  "priority_set s = {p. is_priority s p}"

text \<open>The counters hold the number of non-priority nodes of each kind (modulo \<open>2 ^ 32\<close>).\<close>

definition slots_ok :: "'p peers_state \<Rightarrow> bool" where
  "slots_ok s \<longleftrightarrow> num_in s = of_nat (card (conn_set In s - priority_set s)) \<and>
                 num_out s = of_nat (card (conn_set Out s - priority_set s))"

definition ps_wf :: "'p peers_state \<Rightarrow> bool" where
  "ps_wf s \<longleftrightarrow> distinct (map fst (nodes s)) \<and> distinct (map fst (priority_nodes s)) \<and>
     (\<forall>g \<in> set (priority_nodes s). distinct (snd g)) \<and> priority_set s \<subseteq> known s \<and>
     (\<forall>n \<in> set (nodes s). in_i32 (reputation (snd n)))"

definition ps_inv :: "'p peers_state \<Rightarrow> bool" where
  "ps_inv s \<longleftrightarrow> ps_wf s \<and> slots_ok s"

subsection \<open>Frame facts\<close>

lemma is_priority_frame [simp]:
  "is_priority (s\<lparr>nodes := x\<rparr>) = is_priority s"
  "is_priority (s\<lparr>num_in := a\<rparr>) = is_priority s"
  "is_priority (s\<lparr>num_out := a\<rparr>) = is_priority s"
  "is_priority (s\<lparr>priority_only := b\<rparr>) = is_priority s"
  by (auto simp: is_priority_def fun_eq_iff)

lemma priority_set_frame [simp]:
  "priority_set (s\<lparr>nodes := x\<rparr>) = priority_set s"
  "priority_set (s\<lparr>num_in := a\<rparr>) = priority_set s"
  "priority_set (s\<lparr>num_out := a\<rparr>) = priority_set s"
  "priority_set (s\<lparr>priority_only := b\<rparr>) = priority_set s"
  by (simp_all add: priority_set_def)

lemma conn_set_frame [simp]:
  "conn_set c (s\<lparr>num_in := a\<rparr>) = conn_set c s"
  "conn_set c (s\<lparr>num_out := a\<rparr>) = conn_set c s"
  "conn_set c (s\<lparr>priority_nodes := g\<rparr>) = conn_set c s"
  "conn_set c (s\<lparr>priority_only := b\<rparr>) = conn_set c s"
  by (simp_all add: conn_set_def)

lemma known_frame [simp]:
  "known (s\<lparr>num_in := a\<rparr>) = known s"
  "known (s\<lparr>num_out := a\<rparr>) = known s"
  "known (s\<lparr>priority_nodes := g\<rparr>) = known s"
  "known (s\<lparr>priority_only := b\<rparr>) = known s"
  "known (s\<lparr>nodes := nodes t\<rparr>) = known t"
  "known (s\<lparr>nodes := AList.update p n ns\<rparr>) = insert p (known (s\<lparr>nodes := ns\<rparr>))"
  by (auto simp: known_def)

lemma conn_set_update [simp]:
  "conn_set c (s\<lparr>nodes := nodes t\<rparr>) = conn_set c t"
  "conn_set c (s\<lparr>nodes := AList.update p n ns\<rparr>) =
     (if conn n = c then insert p (conn_set c (s\<lparr>nodes := ns\<rparr>))
      else conn_set c (s\<lparr>nodes := ns\<rparr>) - {p})"
  by (auto simp: conn_set_def)

lemma conn_set_subset_known: "conn_set c s \<subseteq> known s"
  by (auto simp: conn_set_def known_def)

lemma finite_known [simp]: "finite (known s)"
  by (simp add: known_def finite_dom_map_of)

lemma finite_conn_set [simp]: "finite (conn_set c s)"
  by (rule finite_subset [OF conn_set_subset_known]) simp

lemma conn_set_disjoint: "c \<noteq> d \<Longrightarrow> conn_set c s \<inter> conn_set d s = {}"
  by (auto simp: conn_set_def)

lemma priority_set_concat: "priority_set s = set (concat (map snd (priority_nodes s)))"
  by (auto simp: priority_set_def is_priority_def list_ex_iff)

lemma is_connected_iff: "is_connected c \<longleftrightarrow> c = In \<or> c = Out"
  by (cases c) auto

lemma not_connected_state: "\<not> is_connected c \<longleftrightarrow> c = NotConnected"
  by (cases c) auto

lemma known_not_connected_iff: "known_not_connected s p \<longleftrightarrow> p \<in> conn_set NotConnected s"
  by (auto simp: known_not_connected_def conn_set_def is_connected_iff split: option.splits)
     (metis connection_state.exhaust)

lemma connected_iff:
  "p \<in> connected s \<longleftrightarrow> (\<exists>n. map_of (nodes s) p = Some n \<and> is_connected (conn n))"
  by (auto simp: connected_def conn_set_def is_connected_iff)

lemma known_split: "known s = connected s \<union> conn_set NotConnected s"
  by (auto simp: known_def connected_def conn_set_def) (metis connection_state.exhaust)

lemma connected_subset_known: "connected s \<subseteq> known s"
  by (auto simp: known_split)

lemma finite_connected [simp]: "finite (connected s)"
  by (rule finite_subset [OF connected_subset_known]) simp

lemma not_connected_disjoint: "connected s \<inter> conn_set NotConnected s = {}"
  by (auto simp: connected_def conn_set_def)

lemma peer_simps:
  "peer s p = ConnectedPeer q \<longleftrightarrow> q = p \<and> p \<in> connected s"
  "peer s p = NotConnectedPeer q \<longleftrightarrow> q = p \<and> p \<in> conn_set NotConnected s"
  "peer s p = UnknownPeer q \<longleftrightarrow> q = p \<and> p \<notin> known s"
  by (auto simp: peer_def connected_def conn_set_def known_def is_connected_iff split: option.splits)
     (metis connection_state.exhaust)+

lemma peer_eq:
  "peer s p = (if p \<in> connected s then ConnectedPeer p
               else if p \<in> known s then NotConnectedPeer p else UnknownPeer p)"
  by (auto simp: peer_simps known_split)

lemma set_connected_peers:
  assumes "distinct (map fst (nodes s))"
  shows "set (connected_peers s) = connected s"
  using assms by (force simp: connected_peers_def connected_iff)

lemma word_card_insert:
  "finite A \<Longrightarrow> p \<notin> A \<Longrightarrow> (of_nat (card (insert p A)) :: 'w::len word) = of_nat (card A) + 1"
  by simp

lemma word_card_remove:
  assumes "finite A" "p \<in> A"
  shows "(of_nat (card (A - {p})) :: 'w::len word) = of_nat (card A) - 1"
proof -
  have "card A = Suc (card (A - {p}))"
    using assms by (metis card.remove)
  then show ?thesis by simp
qed

subsection \<open>Every operation keeps the invariant\<close>

lemma ps_inv_new [stargate_intros]: "ps_inv (peers_state_new i out prio)"
  by (simp add: ps_inv_def ps_wf_def slots_ok_def peers_state_new_def priority_set_def
        is_priority_def conn_set_def known_def)

lemma ps_wf_update:
  assumes "ps_wf s" "in_i32 (reputation n)"
    and "nodes t = AList.update p n (nodes s)" "priority_nodes t = priority_nodes s"
  shows "ps_wf t"
proof -
  have "priority_set t = priority_set s" "known t = insert p (known s)"
    using assms(3,4) by (auto simp: priority_set_def is_priority_def known_def)
  with assms show ?thesis by (auto simp: ps_wf_def dest: set_alist_update [THEN subsetD])
qed

lemma ps_wf_counters [simp]:
  "ps_wf (s\<lparr>num_in := a\<rparr>) = ps_wf s" "ps_wf (s\<lparr>num_out := a\<rparr>) = ps_wf s"
  "ps_wf (s\<lparr>priority_only := b\<rparr>) = ps_wf s"
  by (simp_all add: ps_wf_def)

lemma ps_wf_reputation:
  "ps_wf s \<Longrightarrow> map_of (nodes s) p = Some n \<Longrightarrow> in_i32 (reputation n)"
  by (force simp: ps_wf_def dest: map_of_SomeD)

lemma disconnect_inv [stargate_intros]:
  assumes "ps_inv s"
  shows "ps_inv (disconnect p s)"
proof (cases "map_of (nodes s) p")
  case None
  with assms show ?thesis by (simp add: disconnect_def)
next
  case (Some n)
  then have mem: "p \<in> conn_set (conn n) s" by (simp add: conn_set_def)
  have wf: "ps_wf (disconnect p s)"
    using assms Some ps_wf_reputation [OF _ Some]
    by (auto simp: disconnect_def ps_inv_def Let_def split: connection_state.split
          intro: ps_wf_update [of s "n\<lparr>conn := NotConnected\<rparr>" _ p])
  have "slots_ok (disconnect p s)"
  proof (cases "is_priority s p")
    case True
    then have "A - {p} - priority_set s = A - priority_set s" for A
      by (auto simp: priority_set_def)
    with assms Some True show ?thesis
      by (simp add: disconnect_def ps_inv_def slots_ok_def)
  next
    case False
    then have np: "p \<notin> priority_set s" by (simp add: priority_set_def)
    have eq: "A - {p} - priority_set s = A - priority_set s - {p}" for A by auto
    have other: "p \<notin> conn_set c s - priority_set s" if "c \<noteq> conn n" for c
      using that Some by (auto simp: conn_set_def)
    show ?thesis
      using assms Some False mem np other [of In] other [of Out]
      by (cases "conn n")
         (simp_all add: disconnect_def ps_inv_def slots_ok_def eq word_card_remove
           del: card_Diff_insert)
  qed
  with wf show ?thesis by (simp add: ps_inv_def)
qed

lemma try_outgoing_frame:
  "fst (try_outgoing p s) = False \<Longrightarrow> snd (try_outgoing p s) = s"
  by (auto simp: try_outgoing_def split: option.splits)

lemma try_outgoing_True:
  assumes "fst (try_outgoing p s)"
  obtains n where "map_of (nodes s) p = Some n"
    and "snd (try_outgoing p s) =
           s\<lparr>nodes := AList.update p (n\<lparr>conn := Out\<rparr>) (nodes s),
             num_out := (if is_priority s p then num_out s else num_out s + 1)\<rparr>"
    and "\<not> is_priority s p \<Longrightarrow> \<not> priority_only s \<and> num_out s < max_out s"
  using assms by (auto simp: try_outgoing_def split: if_splits option.splits)

lemma try_accept_incoming_frame:
  "fst (try_accept_incoming p s) = False \<Longrightarrow> snd (try_accept_incoming p s) = s"
  by (auto simp: try_accept_incoming_def split: option.splits)

lemma try_accept_incoming_True:
  assumes "fst (try_accept_incoming p s)"
  obtains n where "map_of (nodes s) p = Some n"
    and "snd (try_accept_incoming p s) =
           s\<lparr>nodes := AList.update p (n\<lparr>conn := In\<rparr>) (nodes s),
             num_in := (if is_priority s p then num_in s else num_in s + 1)\<rparr>"
    and "\<not> is_priority s p \<Longrightarrow> \<not> priority_only s \<and> num_in s < max_in s"
  using assms by (auto simp: try_accept_incoming_def split: if_splits option.splits)

lemma insert_diff_word_card:
  assumes "finite A" "p \<notin> A"
  shows "(of_nat (card (insert p A - P)) :: 'w::len word) =
           (if p \<in> P then of_nat (card (A - P)) else of_nat (card (A - P)) + 1)"
  using assms by (simp add: insert_Diff_if)

lemma try_outgoing_inv [stargate_intros]:
  assumes "ps_inv s" "p \<in> conn_set NotConnected s"
  shows "ps_inv (snd (try_outgoing p s))"
proof (cases "fst (try_outgoing p s)")
  case False
  with assms show ?thesis by (simp add: try_outgoing_frame)
next
  case True
  then obtain n where n: "map_of (nodes s) p = Some n"
    and eq: "snd (try_outgoing p s) =
               s\<lparr>nodes := AList.update p (n\<lparr>conn := Out\<rparr>) (nodes s),
                 num_out := (if is_priority s p then num_out s else num_out s + 1)\<rparr>"
    by (rule try_outgoing_True)
  have "p \<notin> conn_set In s" "p \<notin> conn_set Out s"
    using assms(2) by (auto simp: conn_set_def)
  moreover have "ps_wf (snd (try_outgoing p s))"
    using assms(1) ps_wf_reputation [OF _ n] unfolding eq ps_inv_def
    by (auto intro: ps_wf_update [of s "n\<lparr>conn := Out\<rparr>" _ p])
  ultimately show ?thesis
    using assms(1) unfolding eq ps_inv_def slots_ok_def
    by (simp add: insert_diff_word_card priority_set_def)
qed

lemma try_accept_incoming_inv [stargate_intros]:
  assumes "ps_inv s" "p \<in> conn_set NotConnected s"
  shows "ps_inv (snd (try_accept_incoming p s))"
proof (cases "fst (try_accept_incoming p s)")
  case False
  with assms show ?thesis by (simp add: try_accept_incoming_frame)
next
  case True
  then obtain n where n: "map_of (nodes s) p = Some n"
    and eq: "snd (try_accept_incoming p s) =
               s\<lparr>nodes := AList.update p (n\<lparr>conn := In\<rparr>) (nodes s),
                 num_in := (if is_priority s p then num_in s else num_in s + 1)\<rparr>"
    by (rule try_accept_incoming_True)
  have "p \<notin> conn_set In s" "p \<notin> conn_set Out s"
    using assms(2) by (auto simp: conn_set_def)
  moreover have "ps_wf (snd (try_accept_incoming p s))"
    using assms(1) ps_wf_reputation [OF _ n] unfolding eq ps_inv_def
    by (auto intro: ps_wf_update [of s "n\<lparr>conn := In\<rparr>" _ p])
  ultimately show ?thesis
    using assms(1) unfolding eq ps_inv_def slots_ok_def
    by (simp add: insert_diff_word_card priority_set_def)
qed

lemma same_conn_inv:
  assumes "ps_inv s" "conn n = conn m" "map_of (nodes s) p = Some m" "in_i32 (reputation n)"
  shows "ps_inv (s\<lparr>nodes := AList.update p n (nodes s)\<rparr>)"
proof -
  have "conn_set c (s\<lparr>nodes := AList.update p n (nodes s)\<rparr>) = conn_set c s" for c
    using assms(2,3) by (auto simp: conn_set_def)
  with assms show ?thesis
    by (auto simp: ps_inv_def slots_ok_def simp del: conn_set_update
          intro: ps_wf_update [of s n _ p])
qed

lemma new_node_inv:
  assumes "ps_inv s" "map_of (nodes s) p = None" "conn n = NotConnected" "in_i32 (reputation n)"
  shows "ps_inv (s\<lparr>nodes := AList.update p n (nodes s)\<rparr>)"
proof -
  have "p \<notin> conn_set c s" for c
    using assms(2) by (simp add: conn_set_def)
  with assms show ?thesis
    by (auto simp: ps_inv_def slots_ok_def intro: ps_wf_update [of s n _ p])
qed

lemma set_reputation_inv [stargate_intros]:
  assumes "ps_inv s" "in_i32 v"
  shows "ps_inv (set_reputation p v s)"
  using assms same_conn_inv [of s "_\<lparr>reputation := v\<rparr>"] new_node_inv [of s p "node_default\<lparr>reputation := v\<rparr>"]
  by (auto simp: set_reputation_def node_default_def split: option.splits)

lemma add_reputation_inv [stargate_intros]:
  assumes "ps_inv s"
  shows "ps_inv (add_reputation p m s)"
proof (cases "map_of (nodes s) p")
  case None
  then show ?thesis
    using assms new_node_inv [of s p "node_default\<lparr>reputation := saturating_add (reputation node_default) m\<rparr>"]
    by (simp add: add_reputation_def node_default_def)
next
  case (Some n)
  then show ?thesis
    using assms same_conn_inv [of s "n\<lparr>reputation := saturating_add (reputation n) m\<rparr>" n p]
    by (simp add: add_reputation_def)
qed

lemma discover_inv [stargate_intros]:
  "ps_inv s \<Longrightarrow> p \<notin> known s \<Longrightarrow> ps_inv (discover p s)"
  using new_node_inv [of s p "\<lparr>conn = NotConnected, reputation = 0\<rparr>"]
  by (auto simp: discover_def known_def)

lemma set_priority_only_inv [stargate_intros]:
  "ps_inv s \<Longrightarrow> ps_inv (set_priority_only b s)"
  by (simp add: set_priority_only_def ps_inv_def slots_ok_def)

subsection \<open>Priority groups\<close>

lemma word_card_Cons_Int:
  "x \<notin> set xs \<Longrightarrow> (of_nat (card (set (x # xs) \<inter> A)) :: u32) =
     (if x \<in> A then 1 else 0) + of_nat (card (set xs \<inter> A))"
  by simp

lemma fold_leave_group:
  assumes "distinct ids"
  shows "fold (leave_group_body others) ids s =
    s\<lparr>num_in := num_in s + of_nat (card (set ids \<inter> (conn_set In s - set others))),
      num_out := num_out s + of_nat (card (set ids \<inter> (conn_set Out s - set others)))\<rparr>"
  using assms
proof (induction ids arbitrary: s)
  case Nil
  then show ?case by simp
next
  case (Cons x xs)
  have step: "leave_group_body others x s =
    s\<lparr>num_in := num_in s + (if x \<in> conn_set In s - set others then 1 else 0),
      num_out := num_out s + (if x \<in> conn_set Out s - set others then 1 else 0)\<rparr>"
    by (auto simp: leave_group_body_def conn_set_def split: option.splits connection_state.splits)
  show ?case
    using Cons by (simp add: step word_card_Cons_Int add.assoc del: list.set(2))
qed

lemma map_of_or_default:
  "map_of (or_default p ns) = (if map_of ns p = None then (map_of ns)(p \<mapsto> node_default) else map_of ns)"
  by (auto simp: or_default_def split: option.splits)

lemma join_group_body_simps:
  "priority_nodes (join_group_body others p s) = priority_nodes s"
  "priority_only (join_group_body others p s) = priority_only s"
  "max_in (join_group_body others p s) = max_in s"
  "max_out (join_group_body others p s) = max_out s"
  "nodes (join_group_body others p s) = (if p \<in> set others then nodes s else or_default p (nodes s))"
  "num_in (join_group_body others p s) =
     num_in s - (if p \<in> conn_set In s - set others then 1 else 0)"
  "num_out (join_group_body others p s) =
     num_out s - (if p \<in> conn_set Out s - set others then 1 else 0)"
  by (auto simp: join_group_body_def Let_def conn_set_def map_of_or_default node_default_def
        split: option.splits connection_state.splits)

lemma conn_set_or_default:
  "nodes t = or_default p (nodes s) \<Longrightarrow> c \<noteq> NotConnected \<Longrightarrow> conn_set c t = conn_set c s"
  by (auto simp: conn_set_def map_of_or_default node_default_def)

lemma conn_set_join:
  assumes "c \<noteq> NotConnected"
  shows "conn_set c (join_group_body others p s) = conn_set c s"
proof (cases "p \<in> set others")
  case True
  then show ?thesis by (simp add: conn_set_def join_group_body_simps)
next
  case False
  with assms show ?thesis
    using conn_set_or_default [of "join_group_body others p s" p s c]
    by (simp add: join_group_body_simps)
qed

lemma fold_join_group:
  assumes "distinct ids"
  shows "priority_nodes (fold (join_group_body others) ids s) = priority_nodes s"
    "priority_only (fold (join_group_body others) ids s) = priority_only s"
    "max_in (fold (join_group_body others) ids s) = max_in s"
    "max_out (fold (join_group_body others) ids s) = max_out s"
    "c \<noteq> NotConnected \<Longrightarrow> conn_set c (fold (join_group_body others) ids s) = conn_set c s"
    "num_in (fold (join_group_body others) ids s) =
       num_in s - of_nat (card (set ids \<inter> (conn_set In s - set others)))"
    "num_out (fold (join_group_body others) ids s) =
       num_out s - of_nat (card (set ids \<inter> (conn_set Out s - set others)))"
  using assms
proof (induction ids arbitrary: s)
  case (Cons x xs)
  {
    case 1 with Cons.IH(1) show ?case by (simp add: join_group_body_simps)
  next
    case 2 with Cons.IH(2) show ?case by (simp add: join_group_body_simps)
  next
    case 3 with Cons.IH(3) show ?case by (simp add: join_group_body_simps)
  next
    case 4 with Cons.IH(4) show ?case by (simp add: join_group_body_simps)
  next
    case 5 with Cons.IH(5) show ?case by (simp add: conn_set_join)
  next
    case 6 with Cons.IH(6) show ?case
      by (simp add: word_card_Cons_Int conn_set_join join_group_body_simps diff_diff_eq del: list.set(2))
  next
    case 7 with Cons.IH(7) show ?case
      by (simp add: word_card_Cons_Int conn_set_join join_group_body_simps diff_diff_eq del: list.set(2))
  }
qed simp_all

lemma is_priority_map_of:
  "distinct (map fst (priority_nodes s)) \<Longrightarrow>
     is_priority s p \<longleftrightarrow> (\<exists>g ps. map_of (priority_nodes s) g = Some ps \<and> p \<in> set ps)"
  by (force simp: is_priority_def list_ex_iff)

definition group_members :: "'p peers_state \<Rightarrow> string \<Rightarrow> 'p list" where
  "group_members s g = (case map_of (priority_nodes s) g of None \<Rightarrow> [] | Some ps \<Rightarrow> ps)"

definition other_members :: "'p peers_state \<Rightarrow> string \<Rightarrow> 'p list" where
  "other_members s g = concat (map snd (filter (\<lambda>(h, _). h \<noteq> g) (priority_nodes s)))"

lemma set_group_members:
  "p \<in> set (group_members s g) \<longleftrightarrow> (\<exists>ps. map_of (priority_nodes s) g = Some ps \<and> p \<in> set ps)"
  by (cases "map_of (priority_nodes s) g") (auto simp: group_members_def)

lemma set_other_members:
  assumes "distinct (map fst (priority_nodes s))"
  shows "p \<in> set (other_members s g) \<longleftrightarrow>
           (\<exists>h ps. h \<noteq> g \<and> map_of (priority_nodes s) h = Some ps \<and> p \<in> set ps)"
  using assms by (force simp: other_members_def)

lemma priority_set_split:
  assumes "distinct (map fst (priority_nodes s))"
  shows "priority_set s = set (other_members s g) \<union> set (group_members s g)"
  using assms
  by (simp add: set_eq_iff priority_set_def is_priority_map_of set_other_members set_group_members
        del: map_of_eq_Some_iff) metis

lemma distinct_group_members: "ps_wf s \<Longrightarrow> distinct (group_members s g)"
  by (force simp: ps_wf_def group_members_def split: option.splits dest: map_of_SomeD)

lemma fold_join_known:
  "known (fold (join_group_body others) ids s) = known s \<union> (set ids - set others)"
proof (induction ids arbitrary: s)
  case (Cons x xs)
  have "known (join_group_body others x s) = known s \<union> ({x} - set others)"
    by (auto simp: known_def join_group_body_simps map_of_or_default split: if_splits)
  with Cons show ?case by auto
qed simp

definition nodes_wf :: "('p \<times> node) list \<Rightarrow> bool" where
  "nodes_wf ns \<longleftrightarrow> distinct (map fst ns) \<and> (\<forall>n \<in> set ns. in_i32 (reputation (snd n)))"

lemma fold_join_nodes_wf:
  "nodes_wf (nodes s) \<Longrightarrow> nodes_wf (nodes (fold (join_group_body others) ids s))"
proof (induction ids arbitrary: s)
  case (Cons x xs)
  have "nodes_wf (or_default x (nodes s))"
    using Cons.prems
    by (auto simp: nodes_wf_def or_default_def node_default_def split: option.splits
          dest: set_alist_update [THEN subsetD])
  with Cons show ?case by (simp add: join_group_body_simps)
qed simp

text \<open>What \<open>set_priority_group\<close> computes, field by field.\<close>

lemma set_priority_group_fields:
  fixes g :: string and s :: "'p peers_state"
  assumes "ps_wf s" "distinct ps"
  defines "s' \<equiv> set_priority_group g ps s"
    and "os \<equiv> set (other_members s g)" and "ex \<equiv> set (group_members s g)"
  shows "priority_nodes s' = AList.update g ps (AList.delete g (priority_nodes s))"
    and "c \<noteq> NotConnected \<Longrightarrow> conn_set c s' = conn_set c s"
    and "known s' = known s \<union> (set ps - os)"
    and "nodes_wf (nodes s')"
    and "num_in s' = num_in s + of_nat (card (ex \<inter> (conn_set In s - os)))
                       - of_nat (card (set ps \<inter> (conn_set In s - os)))"
    and "num_out s' = num_out s + of_nat (card (ex \<inter> (conn_set Out s - os)))
                       - of_nat (card (set ps \<inter> (conn_set Out s - os)))"
    and "max_in s' = max_in s" "max_out s' = max_out s" "priority_only s' = priority_only s"
proof -
  have wf: "nodes_wf (nodes s)" using assms(1) by (auto simp: ps_wf_def nodes_wf_def)
  have eq: "s' =
    (let s3 = fold (join_group_body (other_members s g)) ps
                (fold (leave_group_body (other_members s g)) (group_members s g)
                   (s\<lparr>priority_nodes := AList.delete g (priority_nodes s)\<rparr>))
     in s3\<lparr>priority_nodes := AList.update g ps (priority_nodes s3)\<rparr>)"
    by (simp add: s'_def set_priority_group_def other_members_def group_members_def Let_def)
  note folds = fold_leave_group [OF distinct_group_members [OF assms(1)]]
    fold_join_group [OF assms(2)] fold_join_known
  show "priority_nodes s' = AList.update g ps (AList.delete g (priority_nodes s))"
    "c \<noteq> NotConnected \<Longrightarrow> conn_set c s' = conn_set c s"
    "known s' = known s \<union> (set ps - os)"
    "num_in s' = num_in s + of_nat (card (ex \<inter> (conn_set In s - os)))
                       - of_nat (card (set ps \<inter> (conn_set In s - os)))"
    "num_out s' = num_out s + of_nat (card (ex \<inter> (conn_set Out s - os)))
                       - of_nat (card (set ps \<inter> (conn_set Out s - os)))"
    "max_in s' = max_in s" "max_out s' = max_out s" "priority_only s' = priority_only s"
    by (simp_all add: eq Let_def folds os_def ex_def)
  show "nodes_wf (nodes s')"
    unfolding eq Let_def using wf by (auto simp: folds(1) intro: fold_join_nodes_wf)
qed

lemma word_card_regroup:
  assumes "finite I"
  shows "(of_nat (card (I - (os \<union> ex))) :: u32) + of_nat (card (ex \<inter> (I - os)))
           - of_nat (card (ps \<inter> (I - os))) = of_nat (card (I - (os \<union> ps)))"
proof -
  have split: "card (I - os) = card (I - (os \<union> A)) + card (A \<inter> (I - os))" for A
  proof -
    have "I - os = (I - (os \<union> A)) \<union> (A \<inter> (I - os))" by auto
    moreover have "card ((I - (os \<union> A)) \<union> (A \<inter> (I - os))) = card (I - (os \<union> A)) + card (A \<inter> (I - os))"
      using assms by (intro card_Un_disjoint) auto
    ultimately show ?thesis by simp
  qed
  have "(of_nat (card (I - os)) :: u32) = of_nat (card (I - (os \<union> A))) + of_nat (card (A \<inter> (I - os)))" for A
    by (subst split [of A]) simp
  from this [of ex] this [of ps] show ?thesis by (simp add: algebra_simps)
qed

lemma priority_set_update:
  assumes "distinct (map fst (priority_nodes s))"
    and "priority_nodes t = AList.update g ps (AList.delete g (priority_nodes s))"
  shows "priority_set t = set (other_members s g) \<union> set ps"
proof -
  have keys: "distinct (map fst (priority_nodes t))" using assms by simp
  have "map_of (priority_nodes t) h = (if h = g then Some ps else map_of (priority_nodes s) h)" for h
    by (simp add: assms(2) delete_conv')
  then have "is_priority t p \<longleftrightarrow> p \<in> set (other_members s g) \<or> p \<in> set ps" for p
    unfolding is_priority_map_of [OF keys] set_other_members [OF assms(1)]
    by (metis option.inject)
  then show ?thesis by (auto simp: priority_set_def)
qed

lemma set_priority_group_inv [stargate_intros]:
  assumes inv: "ps_inv s" and ps: "distinct ps"
  shows "ps_inv (set_priority_group g ps s)"
proof -
  let ?s' = "set_priority_group g ps s"
  have wf: "ps_wf s" and keys: "distinct (map fst (priority_nodes s))"
    using inv by (auto simp: ps_inv_def ps_wf_def)
  note fields = set_priority_group_fields [OF wf ps, where g = g]
  have prio: "priority_set ?s' = set (other_members s g) \<union> set ps"
    by (rule priority_set_update [OF keys fields(1)])
  have others: "set (other_members s g) \<subseteq> known s"
    using wf priority_set_split [OF keys, of g] by (auto simp: ps_wf_def)
  have "distinct (snd e)" if "e \<in> set (priority_nodes ?s')" for e
    using subsetD [OF set_alist_update that [unfolded fields(1)]] wf ps
    by (auto simp: ps_wf_def AList.delete_eq)
  moreover have "distinct (map fst (priority_nodes ?s'))"
    using keys by (simp add: fields(1))
  ultimately have "ps_wf ?s'"
    using fields(4) others unfolding ps_wf_def nodes_wf_def prio fields(3) by blast
  moreover have "slots_ok ?s'"
    using inv unfolding ps_inv_def slots_ok_def prio fields(5,6) priority_set_split [OF keys, of g]
    by (simp add: fields(2) word_card_regroup)
  ultimately show ?thesis by (simp add: ps_inv_def)
qed

lemma add_to_priority_group_inv [stargate_intros]:
  assumes "ps_inv s"
  shows "ps_inv (add_to_priority_group g p s)"
proof -
  have "distinct (set_insert p (group_members s g))"
    using assms distinct_group_members [of s g] by (auto simp: set_insert_def ps_inv_def)
  then show ?thesis
    using set_priority_group_inv [OF assms]
    by (simp add: add_to_priority_group_def group_members_def)
qed

lemma remove_from_priority_group_inv [stargate_intros]:
  assumes "ps_inv s"
  shows "ps_inv (remove_from_priority_group g p s)"
proof -
  have "distinct (removeAll p (group_members s g))"
    using assms distinct_group_members [of s g] by (simp add: ps_inv_def distinct_removeAll)
  then show ?thesis
    using set_priority_group_inv [OF assms]
    by (simp add: remove_from_priority_group_def group_members_def)
qed

section \<open>Searching for a peer to connect to\<close>

lemma better_node_fold:
  assumes "fold better_node es b = Some e"
  shows "(e \<in> set es \<or> b = Some e) \<and>
    (\<forall>x \<in> set es. reputation (snd x) \<le> reputation (snd e)) \<and>
    (\<forall>x. b = Some x \<longrightarrow> reputation (snd x) \<le> reputation (snd e))"
  using assms
proof (induction es arbitrary: b)
  case (Cons x es)
  from Cons.prems have "fold better_node es (better_node x b) = Some e" by simp
  note ih = Cons.IH [OF this]
  show ?case
  proof (cases b)
    case None
    with ih show ?thesis by auto
  next
    case (Some c)
    show ?thesis
    proof (cases "reputation (snd c) \<ge> reputation (snd x)")
      case True
      with ih Some show ?thesis by fastforce
    next
      case False
      then have "better_node x b = Some x" using Some by simp
      with ih have "e \<in> set es \<or> x = e" "\<forall>y \<in> set es. reputation (snd y) \<le> reputation (snd e)"
        "reputation (snd x) \<le> reputation (snd e)" by auto
      with False Some show ?thesis by auto
    qed
  qed
qed simp

lemma better_node_fold_None: "fold better_node es b = None \<longleftrightarrow> es = [] \<and> b = None"
proof (induction es arbitrary: b)
  case (Cons x es)
  then show ?case by (cases b) auto
qed simp

lemma clearjunk_entry: "(p, n) \<in> set (AList.clearjunk al) \<longleftrightarrow> map_of al p = Some n"
  by (metis distinct_clearjunk map_of_clearjunk map_of_eq_Some_iff)

lemma not_connected_entry:
  "p \<in> conn_set NotConnected s \<longleftrightarrow>
     (\<exists>n. (p, n) \<in> set (AList.clearjunk (nodes s)) \<and> \<not> is_connected (conn n))"
  by (simp add: clearjunk_entry conn_set_def not_connected_state)

lemma peer_reputation_entry:
  "(p, n) \<in> set (AList.clearjunk (nodes s)) \<Longrightarrow> peer_reputation s p = reputation n"
  by (simp add: clearjunk_entry peer_reputation_def)

lemma highest_not_connected_peer_Some:
  assumes "highest_not_connected_peer s = Some p"
  shows "p \<in> conn_set NotConnected s"
    and "q \<in> conn_set NotConnected s \<Longrightarrow> peer_reputation s q \<le> peer_reputation s p"
proof -
  let ?es = "filter (\<lambda>(_, n). \<not> is_connected (conn n)) (AList.clearjunk (nodes s))"
  obtain n where n: "fold better_node ?es None = Some (p, n)"
    using assms by (auto simp: highest_not_connected_peer_def)
  note best = better_node_fold [OF n]
  then show "p \<in> conn_set NotConnected s"
    by (auto simp: not_connected_entry)
  show "peer_reputation s q \<le> peer_reputation s p" if q: "q \<in> conn_set NotConnected s"
  proof -
    from q obtain m where m: "(q, m) \<in> set (AList.clearjunk (nodes s))" "\<not> is_connected (conn m)"
      by (auto simp: not_connected_entry)
    with best have "reputation m \<le> reputation n" by fastforce
    moreover have "(p, n) \<in> set (AList.clearjunk (nodes s))" using best by auto
    ultimately show ?thesis using m(1) by (simp add: peer_reputation_entry)
  qed
qed

lemma highest_not_connected_peer_None:
  "highest_not_connected_peer s = None \<longleftrightarrow> conn_set NotConnected s = {}"
proof -
  have "highest_not_connected_peer s = None \<longleftrightarrow>
      (\<forall>x \<in> set (AList.clearjunk (nodes s)). is_connected (conn (snd x)))"
    by (auto simp: highest_not_connected_peer_def better_node_fold_None filter_empty_conv)
  also have "\<dots> \<longleftrightarrow> conn_set NotConnected s = {}"
    unfolding set_eq_iff not_connected_entry by force
  finally show ?thesis .
qed

lemma priority_not_connected_peer_Some:
  assumes "priority_not_connected_peer s = Some p"
  shows "p \<in> conn_set NotConnected s" "p \<in> priority_set s"
  using find_Some_in [OF assms [unfolded priority_not_connected_peer_def]]
  by (simp_all only: priority_set_concat known_not_connected_iff)

lemma priority_not_connected_peer_None:
  "priority_not_connected_peer s = None \<longleftrightarrow> priority_set s \<inter> conn_set NotConnected s = {}"
  unfolding priority_not_connected_peer_def priority_set_concat
  by (auto simp: find_None_iff known_not_connected_iff)

lemma from_group_Some:
  assumes "priority_not_connected_peer_from_group s g = Some p"
  shows "p \<in> conn_set NotConnected s" "p \<in> set (group_members s g)"
  using assms unfolding priority_not_connected_peer_from_group_def group_members_def
  by (cases "map_of (priority_nodes s) g"; force dest: find_Some_in simp: known_not_connected_iff)+

lemma from_group_None:
  "priority_not_connected_peer_from_group s g = None \<longleftrightarrow>
     set (group_members s g) \<inter> conn_set NotConnected s = {}"
  unfolding priority_not_connected_peer_from_group_def group_members_def
  by (cases "map_of (priority_nodes s) g") (auto simp: find_None_iff known_not_connected_iff)

lemma group_members_priority: "set (group_members s g) \<subseteq> priority_set s"
  by (cases "map_of (priority_nodes s) g")
     (auto simp: group_members_def priority_set_concat dest!: map_of_SomeD)

lemma try_outgoing_result:
  "fst (try_outgoing p s) \<longleftrightarrow> p \<in> known s \<and>
     (is_priority s p \<or> \<not> priority_only s \<and> num_out s < max_out s)"
  by (auto simp: try_outgoing_def known_def not_le split: option.splits)

lemma try_accept_incoming_result:
  "fst (try_accept_incoming p s) \<longleftrightarrow> p \<in> known s \<and>
     (is_priority s p \<or> \<not> priority_only s \<and> num_in s < max_in s)"
  by (auto simp: try_accept_incoming_def known_def not_le split: option.splits)

lemma peer_reputation_update:
  "peer_reputation (s\<lparr>nodes := AList.update p n (nodes s)\<rparr>) = (peer_reputation s)(p := reputation n)"
  "peer_reputation (s\<lparr>num_in := i\<rparr>) = peer_reputation s"
  "peer_reputation (s\<lparr>num_out := i\<rparr>) = peer_reputation s"
  by (simp_all add: peer_reputation_def fun_eq_iff)

lemma peer_reputation_same:
  "map_of (nodes s) p = Some n \<Longrightarrow> (peer_reputation s)(p := reputation n) = peer_reputation s"
  by (simp add: peer_reputation_def fun_eq_iff)

lemma try_outgoing_connected:
  assumes "fst (try_outgoing p s)"
  shows "connected (snd (try_outgoing p s)) = insert p (connected s)"
    "conn_set NotConnected (snd (try_outgoing p s)) = conn_set NotConnected s - {p}"
    "priority_nodes (snd (try_outgoing p s)) = priority_nodes s"
    "priority_only (snd (try_outgoing p s)) = priority_only s"
    "max_out (snd (try_outgoing p s)) = max_out s"
    "peer_reputation (snd (try_outgoing p s)) = peer_reputation s"
proof -
  obtain n where n: "map_of (nodes s) p = Some n"
    and eq: "snd (try_outgoing p s) = s\<lparr>nodes := AList.update p (n\<lparr>conn := Out\<rparr>) (nodes s),
             num_out := (if is_priority s p then num_out s else num_out s + 1)\<rparr>"
    using assms by (rule try_outgoing_True)
  show "connected (snd (try_outgoing p s)) = insert p (connected s)"
    "conn_set NotConnected (snd (try_outgoing p s)) = conn_set NotConnected s - {p}"
    "priority_nodes (snd (try_outgoing p s)) = priority_nodes s"
    "priority_only (snd (try_outgoing p s)) = priority_only s"
    "max_out (snd (try_outgoing p s)) = max_out s"
    unfolding eq by (auto simp: connected_def)
  show "peer_reputation (snd (try_outgoing p s)) = peer_reputation s"
    unfolding eq using n by (simp add: peer_reputation_update peer_reputation_same)
qed

lemma try_accept_incoming_connected:
  assumes "fst (try_accept_incoming p s)"
  shows "connected (snd (try_accept_incoming p s)) = insert p (connected s)"
proof -
  obtain n where "snd (try_accept_incoming p s) = s\<lparr>nodes := AList.update p (n\<lparr>conn := In\<rparr>) (nodes s),
             num_in := (if is_priority s p then num_in s else num_in s + 1)\<rparr>"
    using assms by (rule try_accept_incoming_True)
  then show ?thesis by (auto simp: connected_def)
qed

lemma discover_views:
  "known (discover p d) = insert p (known d)" "priority_set (discover p d) = priority_set d"
  "num_in (discover p d) = num_in d" "max_in (discover p d) = max_in d"
  "peer_reputation (discover p d) p = 0"
  by (auto simp: discover_def known_def peer_reputation_def)

lemma peer_reputation_unknown: "p \<notin> known d \<Longrightarrow> peer_reputation d p = 0"
  by (auto simp: peer_reputation_def known_def split: option.split)

end
