(* ===== verification/Peerset_Manager.thy ===== *)
theory Peerset_Manager
  imports Peers_State
begin

text \<open>
  The peer set manager (\<open>network-libp2p/peerset/src/lib.rs\<close>): the handlers of the actions and
  network events, slot allocation, the decay of reputations, and the message stream. An
  \<open>Instant\<close> is a number of nanoseconds; every reading of the clock is an argument \<open>now\<close> of the
  handler that makes it. The \<open>expect\<close> and \<open>unreachable!\<close> of the code are values of \<open>psm_panic\<close>.
\<close>

section \<open>Data\<close>

definition BANNED_THRESHOLD :: int where
  "BANNED_THRESHOLD = 82 * trunc_div i32_min 100"

definition DISCONNECT_REPUTATION_CHANGE :: int where
  "DISCONNECT_REPUTATION_CHANGE = - 10"

definition RESERVED_NODES :: string where
  "RESERVED_NODES = ''reserved''"

record reputation_change =
  rc_value :: int
  rc_reason :: string

definition reputation_change_new :: "int \<Rightarrow> string \<Rightarrow> reputation_change" where
  "reputation_change_new v r = \<lparr>rc_value = v, rc_reason = r\<rparr>"

definition new_fatal :: "string \<Rightarrow> reputation_change" where
  "new_fatal r = \<lparr>rc_value = i32_min, rc_reason = r\<rparr>"

datatype 'p action =
    AddReservedPeer 'p
  | RemoveReservedPeer 'p
  | SetReservedOnly bool
  | ReportPeer 'p reputation_change
  | SetPriorityGroup string "'p list"
  | AddToPriorityGroup string 'p
  | RemoveFromPriorityGroup string 'p

type_synonym incoming_index = u64

datatype 'p message =
    Connect 'p
  | Drop 'p
  | Accept incoming_index
  | Reject incoming_index

record 'p peerset_config =
  in_peers :: u32
  out_peers :: u32
  bootnodes :: "'p list"
  cfg_reserved_only :: bool
  reserved_nodes :: "'p list"

record 'p peerset =
  data :: "'p peers_state"
  reserved_only :: bool
  rx :: "'p action list"
  message_queue :: "'p message list"
  created :: nat
  latest_time_update :: nat

datatype psm_panic = UnreachableUnknownPeer | ExpectConnectedPeer

definition push_back :: "'p message \<Rightarrow> 'p peerset \<Rightarrow> 'p peerset" where
  "push_back m s = s\<lparr>message_queue := message_queue s @ [m]\<rparr>"

lemma push_back_simps [simp]:
  "data (push_back m s) = data s" "reserved_only (push_back m s) = reserved_only s"
  "rx (push_back m s) = rx s" "message_queue (push_back m s) = message_queue s @ [m]"
  "created (push_back m s) = created s"
  "latest_time_update (push_back m s) = latest_time_update s"
  by (simp_all add: push_back_def)

section \<open>Reputation decay\<close>

definition reput_tick :: "int \<Rightarrow> int" where
  "reput_tick reput =
     (let diff = trunc_div reput 50;
          diff = (if diff = 0 \<and> reput < 0 then - 1
                  else if diff = 0 \<and> reput > 0 then 1 else diff)
      in saturating_sub reput diff)"

text \<open>The body of the inner loop of \<open>update_time\<close>.\<close>

definition tick_peer :: "'p \<Rightarrow> 'p peers_state \<Rightarrow> psm_panic + 'p peers_state" where
  "tick_peer p d =
     (case peer d p of
        ConnectedPeer p \<Rightarrow> Inr (set_reputation p (reput_tick (peer_reputation d p)) d)
      | NotConnectedPeer p \<Rightarrow> Inr (set_reputation p (reput_tick (peer_reputation d p)) d)
      | UnknownPeer _ \<Rightarrow> Inl UnreachableUnknownPeer)"

fun tick_peers :: "'p list \<Rightarrow> 'p peers_state \<Rightarrow> psm_panic + 'p peers_state" where
  "tick_peers [] d = Inr d"
| "tick_peers (p # ps) d = try_bind (tick_peer p d) (tick_peers ps)"

fun tick_seconds :: "nat \<Rightarrow> 'p peers_state \<Rightarrow> psm_panic + 'p peers_state" where
  "tick_seconds 0 d = Inr d"
| "tick_seconds (Suc k) d = try_bind (tick_peers (peers d) d) (tick_seconds k)"

text \<open>\<open>Duration::as_secs\<close>.\<close>

definition as_secs :: "nat \<Rightarrow> nat" where
  "as_secs d = d div 1000000000"

definition update_time :: "nat \<Rightarrow> 'p peerset \<Rightarrow> psm_panic + 'p peerset" where
  "update_time now s =
     (let elapsed_latest = latest_time_update s - created s;
          elapsed_now = now - created s;
          secs_diff = as_secs elapsed_now - as_secs elapsed_latest
      in try_bind (tick_seconds secs_diff (data s))
           (\<lambda>d. Inr (s\<lparr>data := d, latest_time_update := now\<rparr>)))"

section \<open>Slot allocation\<close>

definition next_priority :: "'p peerset \<Rightarrow> 'p option" where
  "next_priority s =
     (if reserved_only s then priority_not_connected_peer_from_group (data s) RESERVED_NODES
      else priority_not_connected_peer (data s))"

lemma next_priority_not_connected:
  "next_priority s = Some p \<Longrightarrow> p \<in> conn_set NotConnected (data s)"
  by (auto simp: next_priority_def split: if_splits
        dest: from_group_Some priority_not_connected_peer_Some)

lemma peer_try_outgoing_simps:
  "fst (peer_try_outgoing p d) = (if fst (try_outgoing p d) then Inr p else Inl p)"
  "snd (peer_try_outgoing p d) = snd (try_outgoing p d)"
  by (simp_all add: peer_try_outgoing_def split: prod.splits)

lemma peer_try_outgoing_Inr:
  "peer_try_outgoing p d = (Inr c, d') \<longleftrightarrow> c = p \<and> fst (try_outgoing p d) \<and> d' = snd (try_outgoing p d)"
  by (auto simp: peer_try_outgoing_def split: prod.splits if_splits)

lemma outgoing_decreases:
  assumes "p \<in> conn_set NotConnected d" "peer_try_outgoing p d = (Inr c, d')"
  shows "card (conn_set NotConnected d') < card (conn_set NotConnected d)"
  using assms card_Diff1_less [OF finite_conn_set]
  by (simp only: peer_try_outgoing_Inr try_outgoing_connected)

text \<open>The \<open>while let\<close> loop over the priority nodes, then the \<open>loop\<close> over the best known node.\<close>

function alloc_priority :: "'p peerset \<Rightarrow> 'p peerset" where
  "alloc_priority s =
     (case next_priority s of
        None \<Rightarrow> s
      | Some p \<Rightarrow>
          (case peer_try_outgoing p (data s) of
             (Inr c, d) \<Rightarrow> alloc_priority (push_back (Connect c) (s\<lparr>data := d\<rparr>))
           | (Inl _, d) \<Rightarrow> s\<lparr>data := d\<rparr>))"
  by pat_completeness auto
termination
  by (relation "measure (\<lambda>s. card (conn_set NotConnected (data s)))")
     (auto simp: push_back_def intro: outgoing_decreases [OF _ sym] next_priority_not_connected)

function alloc_best :: "'p peerset \<Rightarrow> 'p peerset" where
  "alloc_best s =
     (if reserved_only s then s
      else (case highest_not_connected_peer (data s) of
        None \<Rightarrow> s
      | Some p \<Rightarrow>
          if peer_reputation (data s) p < BANNED_THRESHOLD then s
          else (case peer_try_outgoing p (data s) of
             (Inr c, d) \<Rightarrow> alloc_best (push_back (Connect c) (s\<lparr>data := d\<rparr>))
           | (Inl _, d) \<Rightarrow> s\<lparr>data := d\<rparr>)))"
  by pat_completeness auto
termination
  by (relation "measure (\<lambda>s. card (conn_set NotConnected (data s)))")
     (auto simp: push_back_def intro: outgoing_decreases [OF _ sym] highest_not_connected_peer_Some)

declare alloc_priority.simps [simp del] alloc_best.simps [simp del]

definition alloc_slots :: "nat \<Rightarrow> 'p peerset \<Rightarrow> psm_panic + 'p peerset" where
  "alloc_slots now s =
     try_bind (update_time now s) (\<lambda>s. Inr (alloc_best (alloc_priority s)))"

section \<open>Handlers of the actions\<close>

definition unwrap_group :: "'p list option \<Rightarrow> 'p list" where
  "unwrap_group g = (case g of None \<Rightarrow> [] | Some ps \<Rightarrow> ps)"

definition on_add_reserved_peer :: "nat \<Rightarrow> 'p \<Rightarrow> 'p peerset \<Rightarrow> psm_panic + 'p peerset" where
  "on_add_reserved_peer now p s =
     (let reserved = set_insert p (unwrap_group (get_priority_group (data s) RESERVED_NODES))
      in alloc_slots now (s\<lparr>data := set_priority_group RESERVED_NODES reserved (data s)\<rparr>))"

definition on_remove_reserved_peer :: "'p \<Rightarrow> 'p peerset \<Rightarrow> 'p peerset" where
  "on_remove_reserved_peer p s =
     (let reserved = removeAll p (unwrap_group (get_priority_group (data s) RESERVED_NODES));
          d = set_priority_group RESERVED_NODES reserved (data s)
      in case peer d p of
           ConnectedPeer q \<Rightarrow>
             if reserved_only s then push_back (Drop p) (s\<lparr>data := disconnect q d\<rparr>)
             else s\<lparr>data := d\<rparr>
         | NotConnectedPeer _ \<Rightarrow> s\<lparr>data := d\<rparr>
         | UnknownPeer _ \<Rightarrow> s\<lparr>data := d\<rparr>)"

text \<open>The loop of \<open>on_set_reserved_only\<close> over the connected peers.\<close>

fun drop_unreserved :: "'p list \<Rightarrow> 'p list \<Rightarrow> 'p peerset \<Rightarrow> psm_panic + 'p peerset" where
  "drop_unreserved reserved [] s = Inr s"
| "drop_unreserved reserved (p # ps) s =
     (case into_connected (peer (data s) p) of
        None \<Rightarrow> Inl ExpectConnectedPeer
      | Some q \<Rightarrow>
          drop_unreserved reserved ps
            (if p \<notin> set reserved then push_back (Drop p) (s\<lparr>data := disconnect q (data s)\<rparr>) else s))"

definition on_set_reserved_only :: "nat \<Rightarrow> bool \<Rightarrow> 'p peerset \<Rightarrow> psm_panic + 'p peerset" where
  "on_set_reserved_only now b s =
     (let s = s\<lparr>reserved_only := b, data := set_priority_only b (data s)\<rparr>
      in if reserved_only s
         then drop_unreserved (unwrap_group (get_priority_group (data s) RESERVED_NODES))
                (connected_peers (data s)) s
         else alloc_slots now s)"

definition on_set_priority_group ::
  "nat \<Rightarrow> string \<Rightarrow> 'p list \<Rightarrow> 'p peerset \<Rightarrow> psm_panic + 'p peerset" where
  "on_set_priority_group now g ps s =
     alloc_slots now (s\<lparr>data := set_priority_group g ps (data s)\<rparr>)"

definition on_add_to_priority_group ::
  "nat \<Rightarrow> string \<Rightarrow> 'p \<Rightarrow> 'p peerset \<Rightarrow> psm_panic + 'p peerset" where
  "on_add_to_priority_group now g p s =
     alloc_slots now (s\<lparr>data := add_to_priority_group g p (data s)\<rparr>)"

definition on_remove_from_priority_group ::
  "nat \<Rightarrow> string \<Rightarrow> 'p \<Rightarrow> 'p peerset \<Rightarrow> psm_panic + 'p peerset" where
  "on_remove_from_priority_group now g p s =
     alloc_slots now (s\<lparr>data := remove_from_priority_group g p (data s)\<rparr>)"

text \<open>What \<open>on_report_peer\<close>, \<open>incoming\<close> and \<open>dropped\<close> do once the reputations are up to date.\<close>

definition report_adjust :: "'p \<Rightarrow> reputation_change \<Rightarrow> 'p peerset \<Rightarrow> 'p peerset" where
  "report_adjust p change s =
     (case peer (data s) p of
        ConnectedPeer q \<Rightarrow>
          (let d = add_reputation q (rc_value change) (data s)
           in if peer_reputation d q < BANNED_THRESHOLD
              then push_back (Drop p) (s\<lparr>data := disconnect q d\<rparr>)
              else s\<lparr>data := d\<rparr>)
      | NotConnectedPeer q \<Rightarrow> s\<lparr>data := add_reputation q (rc_value change) (data s)\<rparr>
      | UnknownPeer q \<Rightarrow>
          s\<lparr>data := add_reputation q (rc_value change) (discover q (data s))\<rparr>)"

definition on_report_peer ::
  "nat \<Rightarrow> 'p \<Rightarrow> reputation_change \<Rightarrow> 'p peerset \<Rightarrow> psm_panic + 'p peerset" where
  "on_report_peer now p change s =
     try_bind (update_time now s) (\<lambda>s. Inr (report_adjust p change s))"

section \<open>Events from the network\<close>

definition answer_incoming :: "incoming_index \<Rightarrow> 'p \<Rightarrow> 'p peers_state \<Rightarrow> 'p peerset \<Rightarrow> 'p peerset" where
  "answer_incoming index q d s =
     (if peer_reputation d q < BANNED_THRESHOLD
      then push_back (Reject index) (s\<lparr>data := d\<rparr>)
      else (case peer_try_accept_incoming q d of
              (Inr _, d') \<Rightarrow> push_back (Accept index) (s\<lparr>data := d'\<rparr>)
            | (Inl _, d') \<Rightarrow> push_back (Reject index) (s\<lparr>data := d'\<rparr>)))"

definition incoming_adjust :: "'p \<Rightarrow> incoming_index \<Rightarrow> 'p peerset \<Rightarrow> 'p peerset" where
  "incoming_adjust p index s =
     (case peer (data s) p of
        ConnectedPeer _ \<Rightarrow> s
      | NotConnectedPeer q \<Rightarrow> answer_incoming index q (data s) s
      | UnknownPeer q \<Rightarrow> answer_incoming index q (discover q (data s)) s)"

definition incoming :: "nat \<Rightarrow> 'p \<Rightarrow> incoming_index \<Rightarrow> 'p peerset \<Rightarrow> psm_panic + 'p peerset" where
  "incoming now p index s =
     try_bind (update_time now s) (\<lambda>s. Inr (incoming_adjust p index s))"

definition dropped_adjust :: "'p \<Rightarrow> 'p peerset \<Rightarrow> 'p peerset" where
  "dropped_adjust p s =
     (case peer (data s) p of
        ConnectedPeer q \<Rightarrow>
          s\<lparr>data := disconnect q (add_reputation q DISCONNECT_REPUTATION_CHANGE (data s))\<rparr>
      | NotConnectedPeer _ \<Rightarrow> s
      | UnknownPeer _ \<Rightarrow> s)"

text \<open>\<open>dropped\<close> reads the clock twice: before lowering the reputation and in \<open>alloc_slots\<close>.\<close>

definition dropped :: "nat \<Rightarrow> nat \<Rightarrow> 'p \<Rightarrow> 'p peerset \<Rightarrow> psm_panic + 'p peerset" where
  "dropped now now' p s =
     try_bind (update_time now s) (\<lambda>s. alloc_slots now' (dropped_adjust p s))"

text \<open>The loop of \<open>discovered\<close> and of \<open>from_config\<close> over ids: whether any was unknown, and the
  new state.\<close>

fun discover_all :: "'p list \<Rightarrow> 'p peers_state \<Rightarrow> bool \<times> 'p peers_state" where
  "discover_all [] d = (False, d)"
| "discover_all (p # ps) d =
     (case peer d p of
        UnknownPeer q \<Rightarrow> (True, snd (discover_all ps (discover q d)))
      | _ \<Rightarrow> discover_all ps d)"

definition discovered :: "nat \<Rightarrow> 'p list \<Rightarrow> 'p peerset \<Rightarrow> psm_panic + 'p peerset" where
  "discovered now ps s =
     (case discover_all ps (data s) of
        (any, d) \<Rightarrow> if any then alloc_slots now (s\<lparr>data := d\<rparr>) else Inr (s\<lparr>data := d\<rparr>))"

text \<open>\<open>created\<close>, \<open>latest_time_update\<close> and the \<open>update_time\<close> of \<open>alloc_slots\<close> read the clock in
  this order.\<close>

definition from_config ::
  "nat \<Rightarrow> nat \<Rightarrow> nat \<Rightarrow> 'p peerset_config \<Rightarrow> psm_panic + 'p peerset" where
  "from_config now now' now'' config =
     (let d = peers_state_new (in_peers config) (out_peers config) (cfg_reserved_only config);
          d = set_priority_group RESERVED_NODES (remdups (reserved_nodes config)) d;
          d = snd (discover_all (bootnodes config) d)
      in alloc_slots now''
           \<lparr>data = d, reserved_only = cfg_reserved_only config, rx = [], message_queue = [],
            created = now, latest_time_update = now'\<rparr>)"

section \<open>The action channel and the message stream\<close>

definition send_action :: "'p action \<Rightarrow> 'p peerset \<Rightarrow> 'p peerset" where
  "send_action a s = s\<lparr>rx := rx s @ [a]\<rparr>"

definition report_peer :: "'p \<Rightarrow> reputation_change \<Rightarrow> 'p peerset \<Rightarrow> 'p peerset" where
  "report_peer p c s = send_action (ReportPeer p c) s"

text \<open>The JSON object of \<open>debug_info\<close> as a record of its fields: per node whether it is connected
  and its reputation, the mode, and the length of the queue.\<close>

definition debug_node :: "'p peers_state \<Rightarrow> 'p \<Rightarrow> psm_panic + ('p \<times> bool \<times> int)" where
  "debug_node d p =
     (case peer d p of
        ConnectedPeer q \<Rightarrow> Inr (p, True, peer_reputation d q)
      | NotConnectedPeer q \<Rightarrow> Inr (p, False, peer_reputation d q)
      | UnknownPeer _ \<Rightarrow> Inl UnreachableUnknownPeer)"

fun debug_nodes :: "'p peers_state \<Rightarrow> 'p list \<Rightarrow> psm_panic + ('p \<times> bool \<times> int) list" where
  "debug_nodes d [] = Inr []"
| "debug_nodes d (p # ps) =
     try_bind (debug_node d p) (\<lambda>e. try_bind (debug_nodes d ps) (\<lambda>es. Inr (e # es)))"

definition debug_info ::
  "nat \<Rightarrow> 'p peerset \<Rightarrow> psm_panic + ((('p \<times> bool \<times> int) list \<times> bool \<times> nat) \<times> 'p peerset)" where
  "debug_info now s =
     try_bind (update_time now s) (\<lambda>s.
       try_bind (debug_nodes (data s) (peers (data s))) (\<lambda>ns.
         Inr ((ns, reserved_only s, length (message_queue s)), s)))"

fun on_action :: "nat \<Rightarrow> 'p action \<Rightarrow> 'p peerset \<Rightarrow> psm_panic + 'p peerset" where
  "on_action now (AddReservedPeer p) s = on_add_reserved_peer now p s"
| "on_action now (RemoveReservedPeer p) s = Inr (on_remove_reserved_peer p s)"
| "on_action now (SetReservedOnly b) s = on_set_reserved_only now b s"
| "on_action now (ReportPeer p c) s = on_report_peer now p c s"
| "on_action now (SetPriorityGroup g ps) s = on_set_priority_group now g ps s"
| "on_action now (AddToPriorityGroup g p) s = on_add_to_priority_group now g p s"
| "on_action now (RemoveFromPriorityGroup g p) s = on_remove_from_priority_group now g p s"

subsection \<open>Decay of all reputations\<close>

definition tick_node :: "nat \<Rightarrow> node \<Rightarrow> node" where
  "tick_node k n = n\<lparr>reputation := (reput_tick ^^ k) (reputation n)\<rparr>"

definition decay :: "nat \<Rightarrow> 'p peers_state \<Rightarrow> 'p peers_state" where
  "decay k d = d\<lparr>nodes := map (\<lambda>(p, n). (p, tick_node k n)) (nodes d)\<rparr>"

lemma alist_update_split:
  "p \<notin> fst ` set pre \<Longrightarrow> AList.update p v (pre @ (p, n) # post) = pre @ (p, v) # post"
  by (induction pre) auto

lemma tick_peers_split:
  assumes "nodes d = pre @ xs" "distinct (map fst (pre @ xs))"
  shows "tick_peers (map fst xs) d = Inr (d\<lparr>nodes := pre @ map (\<lambda>(p, n). (p, tick_node 1 n)) xs\<rparr>)"
  using assms
proof (induction xs arbitrary: pre d)
  case (Cons e xs)
  obtain p n where e: "e = (p, n)" by (cases e)
  have fresh: "p \<notin> fst ` set pre" using Cons.prems e by auto
  have lookup: "map_of (nodes d) p = Some n"
    using Cons.prems e fresh by (simp add: map_add_Some_iff map_of_eq_None_iff)
  let ?d = "d\<lparr>nodes := pre @ (p, tick_node 1 n) # xs\<rparr>"
  have "set_reputation p (reput_tick (peer_reputation d p)) d = ?d"
    using lookup fresh Cons.prems(1) e
    by (simp add: set_reputation_def peer_reputation_def tick_node_def alist_update_split)
  then have "tick_peer p d = Inr ?d"
    using lookup by (simp add: tick_peer_def peer_def)
  then show ?case
    using Cons.IH [of ?d "pre @ [(p, tick_node 1 n)]"] Cons.prems e by simp
qed simp

lemma tick_peers_decay:
  "distinct (map fst (nodes d)) \<Longrightarrow> tick_peers (peers d) d = Inr (decay 1 d)"
  using tick_peers_split [of d "[]" "nodes d"] by (simp add: peers_def decay_def)

lemma tick_node_comp: "tick_node j (tick_node k n) = tick_node (k + j) n"
  by (simp add: tick_node_def funpow_add add.commute [of k])

lemma decay_decay: "decay j (decay k d) = decay (k + j) d"
  by (simp add: decay_def tick_node_comp comp_def split_def)

lemma decay_0 [simp]: "decay 0 d = d"
  by (simp add: decay_def tick_node_def)

lemma decay_fields [simp]:
  "num_in (decay k d) = num_in d" "num_out (decay k d) = num_out d"
  "max_in (decay k d) = max_in d" "max_out (decay k d) = max_out d"
  "priority_nodes (decay k d) = priority_nodes d" "priority_only (decay k d) = priority_only d"
  "map fst (nodes (decay k d)) = map fst (nodes d)"
  by (auto simp: decay_def)

lemma map_of_decay [simp]:
  "map_of (nodes (decay k d)) p = map_option (tick_node k) (map_of (nodes d) p)"
  by (simp add: decay_def map_of_map)

lemma decay_views [simp]:
  "conn_set c (decay k d) = conn_set c d" "known (decay k d) = known d"
  "connected (decay k d) = connected d" "priority_set (decay k d) = priority_set d"
  "is_priority (decay k d) = is_priority d" "group_members (decay k d) g = group_members d g"
proof -
  show c: "conn_set c (decay k d) = conn_set c d" for c
    by (auto simp: conn_set_def tick_node_def)
  show "connected (decay k d) = connected d" by (simp add: connected_def c)
  show "known (decay k d) = known d" by (auto simp: known_def dom_def)
  show "is_priority (decay k d) = is_priority d" by (simp add: is_priority_def fun_eq_iff)
  then show "priority_set (decay k d) = priority_set d" by (simp add: priority_set_def)
  show "group_members (decay k d) g = group_members d g" by (simp add: group_members_def)
qed

lemma tick_seconds_decay:
  "distinct (map fst (nodes d)) \<Longrightarrow> tick_seconds k d = Inr (decay k d)"
proof (induction k arbitrary: d)
  case (Suc k)
  then show ?case by (simp add: tick_peers_decay decay_decay)
qed simp

lemma in_i32_reput_tick: "in_i32 (reput_tick r)"
  by (simp add: reput_tick_def Let_def)

lemma decay_inv [stargate_intros]:
  assumes "ps_inv d"
  shows "ps_inv (decay k d)"
proof -
  have "in_i32 ((reput_tick ^^ k) r)" if "in_i32 r" for r
    using that by (cases k) (auto simp: in_i32_reput_tick)
  then have "\<forall>n \<in> set (nodes (decay k d)). in_i32 (reputation (snd n))"
    using assms by (auto simp: ps_inv_def ps_wf_def decay_def tick_node_def)
  then have "ps_wf (decay k d)"
    using assms by (simp add: ps_inv_def ps_wf_def)
  with assms show ?thesis by (simp add: ps_inv_def slots_ok_def)
qed

lemma ps_inv_distinct: "ps_inv d \<Longrightarrow> distinct (map fst (nodes d))"
  by (simp add: ps_inv_def ps_wf_def)

definition secs_diff :: "nat \<Rightarrow> 'p peerset \<Rightarrow> nat" where
  "secs_diff now s = as_secs (now - created s) - as_secs (latest_time_update s - created s)"

lemma update_time_eq:
  assumes "ps_inv (data s)"
  shows "update_time now s = Inr (s\<lparr>data := decay (secs_diff now s) (data s), latest_time_update := now\<rparr>)"
  unfolding update_time_def secs_diff_def Let_def
  by (subst tick_seconds_decay [OF ps_inv_distinct [OF assms]]) (simp only: try_bind.simps)

lemma reput_tick_0 [simp]: "reput_tick 0 = 0"
  by (simp add: reput_tick_def trunc_div_def saturating_sub_def)

lemma reput_ticks_0 [simp]: "(reput_tick ^^ k) 0 = 0"
  by (induction k) simp_all

lemma peer_reputation_decay:
  "peer_reputation (decay k d) p = (reput_tick ^^ k) (peer_reputation d p)"
  by (cases "map_of (nodes d) p") (simp_all add: peer_reputation_def tick_node_def)

section \<open>The dialling loops\<close>

text \<open>What a dialling loop leaves alone, and what it does: the peers it dials were known and not
  connected, each is dialled once, and each is announced by one \<open>Connect\<close>.\<close>

definition dial_frame :: "'p peerset \<Rightarrow> 'p peerset \<Rightarrow> bool" where
  "dial_frame s t \<longleftrightarrow> reserved_only t = reserved_only s \<and> rx t = rx s \<and> created t = created s \<and>
     latest_time_update t = latest_time_update s \<and>
     priority_nodes (data t) = priority_nodes (data s) \<and>
     priority_only (data t) = priority_only (data s) \<and> max_out (data t) = max_out (data s) \<and>
     peer_reputation (data t) = peer_reputation (data s)"

definition dials :: "'p list \<Rightarrow> 'p peerset \<Rightarrow> 'p peerset \<Rightarrow> bool" where
  "dials ps s t \<longleftrightarrow> distinct ps \<and> set ps \<subseteq> conn_set NotConnected (data s) \<and>
     conn_set NotConnected (data t) = conn_set NotConnected (data s) - set ps \<and>
     connected (data t) = connected (data s) \<union> set ps \<and>
     message_queue t = message_queue s @ map Connect ps \<and> ps_inv (data t) \<and> dial_frame s t"

lemma dials_Nil [intro]: "ps_inv (data s) \<Longrightarrow> dials [] s s"
  by (simp add: dials_def dial_frame_def)

lemma dials_append: "dials ps s t \<Longrightarrow> dials qs t u \<Longrightarrow> dials (ps @ qs) s u"
  by (auto simp: dials_def dial_frame_def)

lemma dials_Cons:
  assumes "ps_inv (data s)" "p \<in> conn_set NotConnected (data s)"
    and "peer_try_outgoing p (data s) = (Inr c, d)"
    and "dials ps (push_back (Connect c) (s\<lparr>data := d\<rparr>)) t"
  shows "dials (p # ps) s t"
proof -
  have c: "c = p" "fst (try_outgoing p (data s))" "d = snd (try_outgoing p (data s))"
    using assms(3) by (simp_all add: peer_try_outgoing_Inr)
  have "dials [p] s (push_back (Connect c) (s\<lparr>data := d\<rparr>))"
    using assms(2) try_outgoing_inv [OF assms(1,2)] try_outgoing_connected [OF c(2)]
    by (simp add: dials_def dial_frame_def push_back_def c)
  from dials_append [OF this assms(4)] show ?thesis by simp
qed

text \<open>The two loops of \<open>alloc_slots\<close> share their shape: pick a peer that is not connected, take an
  outgoing slot for it, and stop when there is none to pick or no slot.\<close>

locale dial_loop =
  fixes pick :: "'p peerset \<Rightarrow> 'p option"
    and loop :: "'p peerset \<Rightarrow> 'p peerset"
  assumes loop_unfold: "loop s =
      (case pick s of
         None \<Rightarrow> s
       | Some p \<Rightarrow> (case peer_try_outgoing p (data s) of
             (Inr c, d) \<Rightarrow> loop (push_back (Connect c) (s\<lparr>data := d\<rparr>))
           | (Inl _, d) \<Rightarrow> s\<lparr>data := d\<rparr>))"
    and pick_not_connected: "pick s = Some p \<Longrightarrow> p \<in> conn_set NotConnected (data s)"
begin

lemma loop_cases:
  obtains (empty) "loop s = s" "pick s = None"
  | (full) p where "loop s = s" "pick s = Some p" "\<not> fst (try_outgoing p (data s))"
  | (dial) p d where "pick s = Some p" "p \<in> conn_set NotConnected (data s)"
      "peer_try_outgoing p (data s) = (Inr p, d)" "d = snd (try_outgoing p (data s))"
      "loop s = loop (push_back (Connect p) (s\<lparr>data := d\<rparr>))"
      "card (conn_set NotConnected d) < card (conn_set NotConnected (data s))"
proof (cases "pick s")
  case None
  then show thesis using empty loop_unfold [of s] by simp
next
  case (Some p)
  note nc = pick_not_connected [OF Some]
  show thesis
  proof (cases "fst (try_outgoing p (data s))")
    case True
    then have eq: "peer_try_outgoing p (data s) = (Inr p, snd (try_outgoing p (data s)))"
      by (simp add: peer_try_outgoing_Inr)
    show thesis
      by (rule dial [OF Some nc eq refl]) (use Some eq loop_unfold [of s] outgoing_decreases [OF nc eq] in simp_all)
  next
    case False
    then have eq: "peer_try_outgoing p (data s) = (Inl p, data s)"
      using try_outgoing_frame [of p "data s"] by (simp add: prod_eq_iff peer_try_outgoing_simps)
    then have "loop s = s" using Some loop_unfold [of s] by simp
    then show thesis using full Some False by blast
  qed
qed

text \<open>Every run of the loop is a sequence of dials of picked peers, and ends because nothing is
  left to pick or the last pick has no slot.\<close>

lemma loop_dials:
  assumes "ps_inv (data s)"
    and "\<And>t p. dial_frame s t \<Longrightarrow> pick t = Some p \<Longrightarrow> p \<in> A"
  shows "\<exists>ps. dials ps s (loop s) \<and> set ps \<subseteq> A"
  using assms
proof (induction "card (conn_set NotConnected (data s))" arbitrary: s rule: less_induct)
  case less
  show ?case
  proof (cases s rule: loop_cases)
    case empty
    then show ?thesis using less.prems(1) by (auto intro!: exI [of _ "[]"])
  next
    case (full p)
    then show ?thesis using less.prems(1) by (auto intro!: exI [of _ "[]"])
  next
    case (dial p d)
    let ?t = "push_back (Connect p) (s\<lparr>data := d\<rparr>)"
    have ok: "fst (try_outgoing p (data s))" using dial(3) by (simp add: peer_try_outgoing_Inr)
    have frame: "dial_frame s ?t"
      using try_outgoing_connected [OF ok] by (simp add: dial_frame_def push_back_def dial(4))
    then have pick: "q \<in> A" if "dial_frame ?t u" "pick u = Some q" for u q
      using less.prems(2) [of u q] that by (simp add: dial_frame_def)
    have inv: "ps_inv (data ?t)"
      using try_outgoing_inv [OF less.prems(1) dial(2)] by (simp add: push_back_def dial(4))
    have "\<exists>ps. dials ps ?t (loop ?t) \<and> set ps \<subseteq> A"
      by (rule less.hyps [OF _ inv pick]) (use dial(6) in \<open>simp_all add: push_back_def\<close>)
    then obtain ps where ps: "dials ps ?t (loop ?t)" "set ps \<subseteq> A" by blast
    have "p \<in> A" using less.prems(2) [of s p] dial(1) by (simp add: dial_frame_def)
    moreover have "dials (p # ps) s (loop s)"
      using dials_Cons [OF less.prems(1) dial(2,3) ps(1)] dial(5) by simp
    ultimately show ?thesis using ps(2) by (auto intro!: exI [of _ "p # ps"])
  qed
qed

lemma loop_exit:
  "pick (loop s) = None \<or> (\<exists>p. pick (loop s) = Some p \<and> \<not> fst (try_outgoing p (data (loop s))))"
proof (induction "card (conn_set NotConnected (data s))" arbitrary: s rule: less_induct)
  case less
  show ?case
  proof (cases s rule: loop_cases)
    case (dial p d)
    then show ?thesis
      using less.hyps [of "push_back (Connect p) (s\<lparr>data := d\<rparr>)"] by (simp add: push_back_def)
  qed auto
qed

lemma loop_rx: "rx (loop s) = rx s"
proof (induction "card (conn_set NotConnected (data s))" arbitrary: s rule: less_induct)
  case less
  show ?case
  proof (cases s rule: loop_cases)
    case (dial p d)
    then show ?thesis
      using less.hyps [of "push_back (Connect p) (s\<lparr>data := d\<rparr>)"] by (simp add: push_back_def)
  qed auto
qed

end

interpretation prio_loop: dial_loop next_priority alloc_priority
  by unfold_locales (rule alloc_priority.simps, rule next_priority_not_connected)

text \<open>The candidate of the second loop, after its two \<open>break\<close>s.\<close>

definition next_best :: "'p peerset \<Rightarrow> 'p option" where
  "next_best s =
     (if reserved_only s then None
      else (case highest_not_connected_peer (data s) of
              None \<Rightarrow> None
            | Some p \<Rightarrow> if peer_reputation (data s) p < BANNED_THRESHOLD then None else Some p))"

interpretation best_loop: dial_loop next_best alloc_best
proof unfold_locales
  show "alloc_best s = (case next_best s of
      None \<Rightarrow> s
    | Some p \<Rightarrow> (case peer_try_outgoing p (data s) of
          (Inr c, d) \<Rightarrow> alloc_best (push_back (Connect c) (s\<lparr>data := d\<rparr>))
        | (Inl _, d) \<Rightarrow> s\<lparr>data := d\<rparr>))" for s :: "'a peerset"
    by (subst alloc_best.simps) (simp add: next_best_def split: option.split)
  show "p \<in> conn_set NotConnected (data s)" if "next_best s = Some p" for s and p :: 'a
    using that by (auto simp: next_best_def highest_not_connected_peer_Some split: if_splits option.splits)
qed

subsection \<open>What slot allocation achieves\<close>

lemma group_members_frame: "dial_frame s t \<Longrightarrow> group_members (data t) g = group_members (data s) g"
  by (simp add: dial_frame_def group_members_def)

lemma priority_set_frame_dial: "dial_frame s t \<Longrightarrow> priority_set (data t) = priority_set (data s)"
  by (simp add: dial_frame_def priority_set_def is_priority_def)

text \<open>The peers that the mode wants connected before any other.\<close>

definition wanted :: "'p peerset \<Rightarrow> 'p set" where
  "wanted s = (if reserved_only s then set (group_members (data s) RESERVED_NODES)
               else priority_set (data s))"

lemma wanted_frame: "dial_frame s t \<Longrightarrow> wanted t = wanted s"
  by (simp add: wanted_def group_members_frame priority_set_frame_dial) (simp add: dial_frame_def)

lemma wanted_priority: "wanted s \<subseteq> priority_set (data s)"
  by (simp add: wanted_def group_members_priority)

lemma next_priority_wanted: "next_priority s = Some p \<Longrightarrow> p \<in> wanted s"
  by (auto simp: next_priority_def wanted_def split: if_splits
        dest: from_group_Some priority_not_connected_peer_Some)

lemma next_priority_None: "next_priority s = None \<longleftrightarrow> wanted s \<inter> conn_set NotConnected (data s) = {}"
  by (simp add: next_priority_def wanted_def from_group_None priority_not_connected_peer_None)

text \<open>A priority peer never lacks a slot, so the first loop never takes its \<open>Err\<close> branch.\<close>

lemma alloc_priority_complete: "wanted (alloc_priority s) \<inter> conn_set NotConnected (data (alloc_priority s)) = {}"
proof -
  let ?t = "alloc_priority s"
  have "fst (try_outgoing p (data ?t))" if "next_priority ?t = Some p" for p
    using next_priority_wanted [OF that] next_priority_not_connected [OF that] wanted_priority [of ?t]
      conn_set_subset_known [of NotConnected "data ?t"]
    by (auto simp: try_outgoing_result priority_set_def)
  then have "next_priority ?t = None" using prio_loop.loop_exit [of s] by blast
  then show ?thesis by (simp add: next_priority_None)
qed

lemma next_best_reputation:
  "next_best s = Some p \<Longrightarrow> \<not> reserved_only s \<and> peer_reputation (data s) p \<ge> BANNED_THRESHOLD"
  by (auto simp: next_best_def not_less split: if_splits option.splits)

lemma alloc_best_exit:
  assumes "\<not> reserved_only (alloc_best s)" "\<not> priority_only (data (alloc_best s))"
    and "q \<in> conn_set NotConnected (data (alloc_best s))"
  shows "peer_reputation (data (alloc_best s)) q < BANNED_THRESHOLD \<or>
         num_out (data (alloc_best s)) \<ge> max_out (data (alloc_best s))"
proof -
  let ?t = "alloc_best s"
  obtain p where p: "highest_not_connected_peer (data ?t) = Some p"
    using assms(3) highest_not_connected_peer_None [of "data ?t"] by blast
  note best = highest_not_connected_peer_Some [OF p]
  have le: "peer_reputation (data ?t) q \<le> peer_reputation (data ?t) p"
    by (rule best(2) [OF assms(3)])
  show ?thesis
  proof (cases "next_best ?t")
    case None
    with p assms(1) have "peer_reputation (data ?t) p < BANNED_THRESHOLD"
      by (simp add: next_best_def split: if_splits)
    with le show ?thesis by simp
  next
    case (Some r)
    with p have "r = p" by (simp add: next_best_def split: if_splits)
    with best_loop.loop_exit [of s] Some have "\<not> fst (try_outgoing p (data ?t))" by simp
    moreover have "p \<in> known (data ?t)"
      using best(1) conn_set_subset_known [of NotConnected "data ?t"] by blast
    ultimately show ?thesis using assms(2) by (auto simp: try_outgoing_result)
  qed
qed

text \<open>The whole of \<open>alloc_slots\<close>: a run of dials of wanted peers, then one of peers that are not
  banned, the second only outside the reserved-only mode.\<close>

lemma alloc_loops_dials:
  assumes "ps_inv (data s)"
  shows "\<exists>ps qs. dials (ps @ qs) s (alloc_best (alloc_priority s)) \<and> set ps \<subseteq> wanted s \<and>
           set qs \<subseteq> {p. \<not> reserved_only s \<and> peer_reputation (data s) p \<ge> BANNED_THRESHOLD}"
proof -
  have "p \<in> wanted s" if "dial_frame s t" "next_priority t = Some p" for t p
    using next_priority_wanted [OF that(2)] wanted_frame [OF that(1)] by simp
  then obtain ps where ps: "dials ps s (alloc_priority s)" "set ps \<subseteq> wanted s"
    using prio_loop.loop_dials [OF assms, of "wanted s"] by blast
  let ?t = "alloc_priority s"
  have frame: "dial_frame s ?t" and inv: "ps_inv (data ?t)" using ps(1) by (simp_all add: dials_def)
  let ?B = "{p. \<not> reserved_only s \<and> peer_reputation (data s) p \<ge> BANNED_THRESHOLD}"
  have "p \<in> ?B" if "dial_frame ?t u" "next_best u = Some p" for u p
    using next_best_reputation [OF that(2)] that(1) frame by (simp add: dial_frame_def)
  then obtain qs where "dials qs ?t (alloc_best ?t)" "set qs \<subseteq> ?B"
    using best_loop.loop_dials [OF inv, of ?B] by blast
  then show ?thesis using ps dials_append by blast
qed

definition touched :: "nat \<Rightarrow> 'p peerset \<Rightarrow> 'p peerset" where
  "touched now s = s\<lparr>data := decay (secs_diff now s) (data s), latest_time_update := now\<rparr>"

lemma touched_simps [simp]:
  "data (touched now s) = decay (secs_diff now s) (data s)" "reserved_only (touched now s) = reserved_only s"
  "rx (touched now s) = rx s" "message_queue (touched now s) = message_queue s"
  "created (touched now s) = created s" "latest_time_update (touched now s) = now"
  by (simp_all add: touched_def)

lemma update_time_touched: "ps_inv (data s) \<Longrightarrow> update_time now s = Inr (touched now s)"
  by (simp only: update_time_eq touched_def)

lemma alloc_slots_eq:
  "ps_inv (data s) \<Longrightarrow> alloc_slots now s = Inr (alloc_best (alloc_priority (touched now s)))"
  by (simp add: alloc_slots_def update_time_touched)

lemma ps_inv_touched [simp]: "ps_inv (data s) \<Longrightarrow> ps_inv (data (touched now s))"
  by (simp add: decay_inv)

lemma alloc_slots_dials:
  assumes "ps_inv (data s)"
  obtains t ps where "alloc_slots now s = Inr t" "dials ps (touched now s) t"
    "set ps \<subseteq> wanted s \<union> {p. \<not> reserved_only s \<and>
        peer_reputation (data (touched now s)) p \<ge> BANNED_THRESHOLD}"
proof -
  have w: "wanted (touched now s) = wanted s" by (simp add: wanted_def)
  obtain ps qs where "dials (ps @ qs) (touched now s) (alloc_best (alloc_priority (touched now s)))"
    "set ps \<subseteq> wanted s"
    "set qs \<subseteq> {p. \<not> reserved_only s \<and> peer_reputation (data (touched now s)) p \<ge> BANNED_THRESHOLD}"
    using alloc_loops_dials [OF ps_inv_touched [OF assms, of now]] unfolding w touched_simps by blast
  with alloc_slots_eq [OF assms, of now] show thesis
    by (intro that [of _ "ps @ qs"]) auto
qed

section \<open>The message stream\<close>

lemma update_time_rx: "update_time now s = Inr t \<Longrightarrow> rx t = rx s"
  by (auto simp: update_time_def Let_def try_iffs)

lemma alloc_slots_rx: "alloc_slots now s = Inr t \<Longrightarrow> rx t = rx s"
  by (auto simp: alloc_slots_def try_iffs prio_loop.loop_rx best_loop.loop_rx dest: update_time_rx)

lemma drop_unreserved_rx: "drop_unreserved reserved ps s = Inr t \<Longrightarrow> rx t = rx s"
  by (induction ps arbitrary: s) (fastforce split: option.splits if_splits)+

lemma report_adjust_rx [simp]: "rx (report_adjust p c s) = rx s"
  by (simp add: report_adjust_def Let_def split: peer.split)

lemma on_action_rx: "on_action now a s = Inr t \<Longrightarrow> rx t = rx s"
proof (cases a)
  case (RemoveReservedPeer p)
  then show "on_action now a s = Inr t \<Longrightarrow> rx t = rx s"
    by (auto simp: on_remove_reserved_peer_def Let_def split: peer.splits if_splits)
next
  case (ReportPeer p c)
  then show "on_action now a s = Inr t \<Longrightarrow> rx t = rx s"
    by (auto simp: on_report_peer_def try_iffs dest!: update_time_rx)
qed (auto simp: on_add_reserved_peer_def on_set_reserved_only_def on_set_priority_group_def
      on_add_to_priority_group_def on_remove_from_priority_group_def Let_def
      dest!: alloc_slots_rx drop_unreserved_rx split: if_splits)

text \<open>\<open>poll_next\<close>: \<open>Some\<close> is \<open>Ready\<close>, \<open>None\<close> is \<open>Pending\<close>. The manager holds a sender of its own
  channel, so the channel never closes; each action reads the clock at most once, \<open>now 0\<close> first.\<close>

function poll_next :: "(nat \<Rightarrow> nat) \<Rightarrow> 'p peerset \<Rightarrow> psm_panic + ('p message option \<times> 'p peerset)" where
  "poll_next now s =
     (case message_queue s of
        m # ms \<Rightarrow> Inr (Some m, s\<lparr>message_queue := ms\<rparr>)
      | [] \<Rightarrow>
          (case rx s of
             [] \<Rightarrow> Inr (None, s)
           | a # as \<Rightarrow>
               (case on_action (now 0) a (s\<lparr>rx := as\<rparr>) of
                  Inl e \<Rightarrow> Inl e
                | Inr t \<Rightarrow> poll_next (\<lambda>i. now (Suc i)) t)))"
  by pat_completeness auto
termination
  by (relation "measure (\<lambda>(_, s). length (rx s))") (auto dest!: on_action_rx)

declare poll_next.simps [simp del]

section \<open>No handler panics\<close>

fun action_wf :: "'p action \<Rightarrow> bool" where
  "action_wf (SetPriorityGroup _ ps) = distinct ps"
| "action_wf _ = True"

definition psm_inv :: "'p peerset \<Rightarrow> bool" where
  "psm_inv s \<longleftrightarrow> ps_inv (data s) \<and> priority_only (data s) = reserved_only s \<and>
     (\<forall>a \<in> set (rx s). action_wf a)"

text \<open>A handler is safe when it returns normally and keeps the invariant and the channel.\<close>

definition safe :: "('p peerset \<Rightarrow> psm_panic + 'p peerset) \<Rightarrow> bool" where
  "safe h \<longleftrightarrow> (\<forall>s. psm_inv s \<longrightarrow> (\<exists>t. h s = Inr t \<and> psm_inv t \<and> rx t = rx s))"

lemma safeI: "(\<And>s. psm_inv s \<Longrightarrow> \<exists>t. h s = Inr t \<and> psm_inv t \<and> rx t = rx s) \<Longrightarrow> safe h"
  by (simp add: safe_def)

lemma safe_Inr: "(\<And>s. psm_inv s \<Longrightarrow> psm_inv (f s) \<and> rx (f s) = rx s) \<Longrightarrow> safe (\<lambda>s. Inr (f s))"
  by (simp add: safe_def)

lemma safe_then:
  assumes "\<And>s. psm_inv s \<Longrightarrow> psm_inv (f s) \<and> rx (f s) = rx s" "safe h"
  shows "safe (\<lambda>s. h (f s))"
  using assms by (metis safe_def)

lemma psm_inv_touched: "psm_inv s \<Longrightarrow> psm_inv (touched now s)"
  by (simp add: psm_inv_def decay_inv)

lemma safe_touched:
  assumes "safe h"
  shows "safe (\<lambda>s. try_bind (update_time now s) h)"
proof (rule safeI)
  fix s :: "'a peerset"
  assume "psm_inv s"
  then have "try_bind (update_time now s) h = h (touched now s)" "psm_inv (touched now s)"
    by (simp_all add: update_time_touched psm_inv_touched) (simp add: psm_inv_def update_time_touched)
  then show "\<exists>t. try_bind (update_time now s) h = Inr t \<and> psm_inv t \<and> rx t = rx s"
    using assms by (auto simp: safe_def)
qed

lemma alloc_slots_safe: "safe (alloc_slots now)"
proof (rule safeI)
  fix s :: "'a peerset"
  assume inv: "psm_inv s"
  then have "ps_inv (data s)" by (simp add: psm_inv_def)
  then obtain t ps where t: "alloc_slots now s = Inr t" "dials ps (touched now s) t"
    by (rule alloc_slots_dials)
  with psm_inv_touched [OF inv, of now] show "\<exists>t. alloc_slots now s = Inr t \<and> psm_inv t \<and> rx t = rx s"
    by (auto simp: psm_inv_def dials_def dial_frame_def)
qed

lemma psm_inv_data:
  "psm_inv s \<Longrightarrow> ps_inv d \<Longrightarrow> priority_only d = priority_only (data s) \<Longrightarrow>
     psm_inv (s\<lparr>data := d\<rparr>) \<and> rx (s\<lparr>data := d\<rparr>) = rx s"
  by (simp add: psm_inv_def)

lemma psm_inv_push_back [simp]: "psm_inv (push_back m s) = psm_inv s"
  by (simp add: psm_inv_def push_back_def)

lemma unwrap_group_members: "unwrap_group (get_priority_group d g) = group_members d g"
  by (simp add: unwrap_group_def get_priority_group_def group_members_def)

lemma priority_only_frames [simp]:
  "priority_only (disconnect p d) = priority_only d"
  "priority_only (add_reputation p m d) = priority_only d"
  "priority_only (set_reputation p m d) = priority_only d"
  "priority_only (discover p d) = priority_only d"
  "priority_only (snd (try_accept_incoming p d)) = priority_only d"
  by (simp_all add: disconnect_def add_reputation_def set_reputation_def discover_def
        try_accept_incoming_def Let_def split: option.split connection_state.split)

lemma set_priority_group_priority_only:
  "ps_inv d \<Longrightarrow> distinct ps \<Longrightarrow> priority_only (set_priority_group g ps d) = priority_only d"
  by (simp add: set_priority_group_fields(9) ps_inv_def)

lemma set_priority_group_psm:
  "psm_inv s \<Longrightarrow> distinct ps \<Longrightarrow>
     psm_inv (s\<lparr>data := set_priority_group g ps (data s)\<rparr>) \<and>
     rx (s\<lparr>data := set_priority_group g ps (data s)\<rparr>) = rx s"
  by (intro psm_inv_data)
     (simp_all add: psm_inv_def set_priority_group_inv set_priority_group_priority_only)

lemma distinct_members: "psm_inv s \<Longrightarrow> distinct (group_members (data s) g)"
  by (simp add: psm_inv_def ps_inv_def distinct_group_members)

lemma distinct_set_insert: "distinct ps \<Longrightarrow> distinct (set_insert p ps)"
  by (simp add: set_insert_def)

lemma on_set_priority_group_safe:
  assumes "distinct ps"
  shows "safe (on_set_priority_group now g ps)"
  unfolding on_set_priority_group_def
  by (rule safe_then [OF set_priority_group_psm alloc_slots_safe]) (simp_all add: assms)

lemma on_add_reserved_peer_safe: "safe (on_add_reserved_peer now p)"
  unfolding on_add_reserved_peer_def Let_def unwrap_group_members
  by (rule safe_then [OF set_priority_group_psm alloc_slots_safe])
     (simp_all add: distinct_set_insert distinct_members)

lemma on_add_to_priority_group_safe: "safe (on_add_to_priority_group now g p)"
  unfolding on_add_to_priority_group_def add_to_priority_group_def Let_def
    group_members_def [symmetric]
  by (rule safe_then [OF set_priority_group_psm alloc_slots_safe])
     (simp_all add: distinct_set_insert distinct_members)

lemma on_remove_from_priority_group_safe: "safe (on_remove_from_priority_group now g p)"
  unfolding on_remove_from_priority_group_def remove_from_priority_group_def Let_def
    group_members_def [symmetric]
  by (rule safe_then [OF set_priority_group_psm alloc_slots_safe])
     (simp_all add: distinct_removeAll distinct_members)

lemma on_remove_reserved_peer_safe: "safe (\<lambda>s. Inr (on_remove_reserved_peer p s))"
proof (rule safe_Inr)
  fix s :: "'a peerset"
  assume inv: "psm_inv s"
  let ?d = "set_priority_group RESERVED_NODES (removeAll p (group_members (data s) RESERVED_NODES)) (data s)"
  have d: "psm_inv (s\<lparr>data := ?d\<rparr>) \<and> rx (s\<lparr>data := ?d\<rparr>) = rx s"
    by (intro set_priority_group_psm inv distinct_removeAll distinct_members)
  then have "psm_inv (s\<lparr>data := disconnect q ?d\<rparr>)" for q
    by (simp add: psm_inv_def disconnect_inv)
  with d show "psm_inv (on_remove_reserved_peer p s) \<and> rx (on_remove_reserved_peer p s) = rx s"
    by (simp add: on_remove_reserved_peer_def Let_def unwrap_group_members split: peer.split)
qed

lemma drop_unreserved_safe:
  assumes "psm_inv s" "distinct ps" "set ps \<subseteq> connected (data s)"
  shows "\<exists>t. drop_unreserved reserved ps s = Inr t \<and> psm_inv t \<and> rx t = rx s \<and>
    connected (data t) = connected (data s) - (set ps - set reserved) \<and>
    message_queue t = message_queue s @ map Drop (filter (\<lambda>p. p \<notin> set reserved) ps) \<and>
    priority_nodes (data t) = priority_nodes (data s) \<and> reserved_only t = reserved_only s"
  using assms
proof (induction ps arbitrary: s)
  case (Cons p ps)
  let ?t = "if p \<notin> set reserved then push_back (Drop p) (s\<lparr>data := disconnect p (data s)\<rparr>) else s"
  have "p \<in> connected (data s)" using Cons.prems by simp
  then have step: "drop_unreserved reserved (p # ps) s = drop_unreserved reserved ps ?t"
    by (simp add: peer_simps [THEN iffD2])
  have conn: "connected (disconnect p (data s)) = connected (data s) - {p}"
    by (auto simp: disconnect_def Let_def connected_def conn_set_def split: option.splits connection_state.splits)
  have pn: "priority_nodes (disconnect p (data s)) = priority_nodes (data s)"
    by (simp add: disconnect_def Let_def split: option.split connection_state.split)
  have "psm_inv ?t" using Cons.prems(1) by (simp add: psm_inv_def disconnect_inv)
  moreover have "set ps \<subseteq> connected (data ?t)"
    using Cons.prems conn by (auto simp: push_back_def)
  ultimately obtain t where t: "drop_unreserved reserved ps ?t = Inr t" "psm_inv t" "rx t = rx ?t"
    "connected (data t) = connected (data ?t) - (set ps - set reserved)"
    "message_queue t = message_queue ?t @ map Drop (filter (\<lambda>p. p \<notin> set reserved) ps)"
    "priority_nodes (data t) = priority_nodes (data ?t)" "reserved_only t = reserved_only ?t"
    using Cons.IH [of ?t] Cons.prems(2) by auto
  show ?case
    unfolding step using t conn pn by (auto simp: push_back_def split: if_splits)
qed simp

lemma on_set_reserved_only_safe: "safe (on_set_reserved_only now b)"
proof (rule safeI)
  fix s :: "'a peerset"
  assume inv: "psm_inv s"
  let ?s = "s\<lparr>reserved_only := b, data := set_priority_only b (data s)\<rparr>"
  have s': "psm_inv ?s"
    using inv by (simp add: psm_inv_def set_priority_only_inv) (simp add: set_priority_only_def)
  have keys: "distinct (map fst (nodes (data ?s)))"
    using s' ps_inv_distinct by (auto simp: psm_inv_def)
  have "distinct (connected_peers (data ?s))" "set (connected_peers (data ?s)) \<subseteq> connected (data ?s)"
    using keys by (simp add: connected_peers_def distinct_map_filter) (simp only: set_connected_peers [OF keys])
  from drop_unreserved_safe [OF s' this] alloc_slots_safe [of now] s'
  show "\<exists>t. on_set_reserved_only now b s = Inr t \<and> psm_inv t \<and> rx t = rx s"
    by (cases b) (fastforce simp: on_set_reserved_only_def safe_def)+
qed

lemma report_adjust_psm: "psm_inv s \<Longrightarrow> psm_inv (report_adjust p c s)"
  by (auto simp: report_adjust_def Let_def psm_inv_def add_reputation_inv disconnect_inv discover_inv
        peer_simps split: peer.split)

lemma on_report_peer_safe: "safe (on_report_peer now p c)"
  unfolding on_report_peer_def
  by (intro safe_touched safe_Inr) (simp add: report_adjust_psm)

lemma discover_not_connected: "p \<in> conn_set NotConnected (discover p d)"
  by (simp add: discover_def)

lemma answer_incoming_eq:
  "answer_incoming i p d s =
     (if peer_reputation d p \<ge> BANNED_THRESHOLD \<and> fst (try_accept_incoming p d)
      then push_back (Accept i) (s\<lparr>data := snd (try_accept_incoming p d)\<rparr>)
      else push_back (Reject i) (s\<lparr>data := d\<rparr>))"
proof (cases "try_accept_incoming p d")
  case (Pair ok d')
  then show ?thesis
    using try_accept_incoming_frame [of p d]
    by (cases ok) (simp_all add: answer_incoming_def peer_try_accept_incoming_def not_less)
qed

lemma answer_incoming_psm:
  assumes "psm_inv s" "ps_inv d" "priority_only d = priority_only (data s)" "p \<in> conn_set NotConnected d"
  shows "psm_inv (answer_incoming i p d s) \<and> rx (answer_incoming i p d s) = rx s"
  using assms try_accept_incoming_inv [OF assms(2,4)] by (simp add: answer_incoming_eq psm_inv_def)

lemma incoming_adjust_cases:
  "incoming_adjust p i s =
     (if p \<in> connected (data s) then s
      else if p \<in> known (data s) then answer_incoming i p (data s) s
      else answer_incoming i p (discover p (data s)) s)"
  by (simp add: incoming_adjust_def peer_eq)

lemma incoming_adjust_psm:
  assumes "psm_inv s"
  shows "psm_inv (incoming_adjust p i s) \<and> rx (incoming_adjust p i s) = rx s"
proof -
  have inv: "ps_inv (data s)" using assms by (simp add: psm_inv_def)
  have "psm_inv (answer_incoming i p (data s) s) \<and> rx (answer_incoming i p (data s) s) = rx s"
    if "p \<in> known (data s)" "p \<notin> connected (data s)"
    using answer_incoming_psm [OF assms inv] that by (auto simp: known_split)
  moreover have "psm_inv (answer_incoming i p (discover p (data s)) s) \<and>
      rx (answer_incoming i p (discover p (data s)) s) = rx s" if "p \<notin> known (data s)"
    using answer_incoming_psm [OF assms discover_inv [OF inv that]] by (simp add: discover_not_connected)
  ultimately show ?thesis using assms by (simp add: incoming_adjust_cases)
qed

lemma incoming_safe: "safe (incoming now p i)"
  unfolding incoming_def by (intro safe_touched safe_Inr incoming_adjust_psm)

lemma dropped_adjust_psm: "psm_inv s \<Longrightarrow> psm_inv (dropped_adjust p s) \<and> rx (dropped_adjust p s) = rx s"
  by (auto simp: dropped_adjust_def psm_inv_def add_reputation_inv disconnect_inv split: peer.split)

lemma dropped_safe: "safe (dropped now now' p)"
  unfolding dropped_def
  by (intro safe_touched safe_then [OF dropped_adjust_psm alloc_slots_safe])

lemma discover_all_psm:
  "ps_inv d \<Longrightarrow> ps_inv (snd (discover_all ps d)) \<and> priority_only (snd (discover_all ps d)) = priority_only d"
  by (induction ps arbitrary: d) (auto simp: discover_inv peer_simps split: peer.split)

lemma discovered_safe: "safe (discovered now ps)"
proof (rule safeI)
  fix s :: "'a peerset"
  assume inv: "psm_inv s"
  obtain any d where d: "discover_all ps (data s) = (any, d)" by fastforce
  with discover_all_psm [of "data s" ps] inv have "psm_inv (s\<lparr>data := d\<rparr>)"
    by (simp add: psm_inv_def)
  with alloc_slots_safe [of now] d show "\<exists>t. discovered now ps s = Inr t \<and> psm_inv t \<and> rx t = rx s"
    by (force simp: discovered_def safe_def)
qed

lemma on_action_eqs:
  "on_action now (AddReservedPeer p) = on_add_reserved_peer now p"
  "on_action now (RemoveReservedPeer p) = (\<lambda>s. Inr (on_remove_reserved_peer p s))"
  "on_action now (SetReservedOnly b) = on_set_reserved_only now b"
  "on_action now (ReportPeer p c) = on_report_peer now p c"
  "on_action now (SetPriorityGroup g ps) = on_set_priority_group now g ps"
  "on_action now (AddToPriorityGroup g p) = on_add_to_priority_group now g p"
  "on_action now (RemoveFromPriorityGroup g p) = on_remove_from_priority_group now g p"
  by (simp_all add: fun_eq_iff)

lemma on_action_safe: "action_wf a \<Longrightarrow> safe (on_action now a)"
  by (cases a)
     (simp_all add: on_action_eqs on_add_reserved_peer_safe on_remove_reserved_peer_safe on_set_reserved_only_safe
       on_report_peer_safe on_set_priority_group_safe on_add_to_priority_group_safe
       on_remove_from_priority_group_safe)

lemma poll_next_safe:
  "psm_inv s \<Longrightarrow> \<exists>m t. poll_next now s = Inr (m, t) \<and> psm_inv t \<and> (m = None \<longrightarrow> rx t = [] \<and> message_queue t = [])"
proof (induction now s rule: poll_next.induct)
  case (1 now s)
  show ?case
  proof (cases "message_queue s")
    case (Cons m ms)
    with 1(2) show ?thesis by (simp add: poll_next.simps psm_inv_def)
  next
    case Nil
    show ?thesis
    proof (cases "rx s")
      case Nil
      with \<open>message_queue s = []\<close> 1(2) show ?thesis by (simp add: poll_next.simps)
    next
      case (Cons a as)
      have "psm_inv (s\<lparr>rx := as\<rparr>)" "action_wf a" using 1(2) Cons by (simp_all add: psm_inv_def)
      with on_action_safe [of a "now 0"] obtain t
        where t: "on_action (now 0) a (s\<lparr>rx := as\<rparr>) = Inr t" "psm_inv t" by (auto simp: safe_def)
      from 1(1) [OF Nil Cons t] Nil Cons t(1) show ?thesis by (simp add: poll_next.simps [of now s])
    qed
  qed
qed

lemma from_config_safe: "\<exists>s. from_config n n' n'' cfg = Inr s \<and> psm_inv s"
proof -
  define d where "d = snd (discover_all (bootnodes cfg) (set_priority_group RESERVED_NODES
    (remdups (reserved_nodes cfg))
    (peers_state_new (in_peers cfg) (out_peers cfg) (cfg_reserved_only cfg))))"
  let ?s = "\<lparr>data = d, reserved_only = cfg_reserved_only cfg, rx = [], message_queue = [],
            created = n, latest_time_update = n'\<rparr>"
  have new: "priority_only (peers_state_new i out b) = b" for i out b
    by (simp add: peers_state_new_def)
  have "ps_inv d \<and> priority_only d = cfg_reserved_only cfg"
    unfolding d_def
    using discover_all_psm [OF set_priority_group_inv [OF ps_inv_new distinct_remdups]]
    by (metis set_priority_group_priority_only ps_inv_new distinct_remdups new)
  then have "psm_inv ?s" by (simp add: psm_inv_def)
  moreover have "from_config n n' n'' cfg = alloc_slots n'' ?s"
    by (simp add: from_config_def Let_def d_def)
  ultimately show ?thesis using alloc_slots_safe [of n''] by (auto simp: safe_def)
qed

section \<open>Reachable states\<close>

text \<open>Rust does not specify the iteration order of a hash map or set, and it may change whenever
  the table grows: \<open>rehash\<close> reorders the nodes, the groups, and the members of each group.\<close>

definition rehash :: "'p peers_state \<Rightarrow> 'p peers_state \<Rightarrow> bool" where
  "rehash d e \<longleftrightarrow> mset (nodes e) = mset (nodes d) \<and>
     (\<exists>gs. mset gs = mset (priority_nodes d) \<and>
        list_all2 (\<lambda>(g, ps) (h, qs). g = h \<and> mset ps = mset qs) gs (priority_nodes e)) \<and>
     num_in e = num_in d \<and> num_out e = num_out d \<and> max_in e = max_in d \<and> max_out e = max_out d \<and>
     priority_only e = priority_only d"

definition psm_init :: "'p peerset \<Rightarrow> bool" where
  "psm_init s \<longleftrightarrow> (\<exists>n n' n'' cfg. from_config n n' n'' cfg = Inr s)"

inductive psm_step :: "'p peerset \<Rightarrow> 'p peerset \<Rightarrow> bool" where
  step_incoming: "incoming now p i s = Inr t \<Longrightarrow> psm_step s t"
| step_dropped: "dropped now now' p s = Inr t \<Longrightarrow> psm_step s t"
| step_discovered: "discovered now ps s = Inr t \<Longrightarrow> psm_step s t"
| step_send: "action_wf a \<Longrightarrow> psm_step s (send_action a s)"
| step_poll: "poll_next now s = Inr (m, t) \<Longrightarrow> psm_step s t"
| step_debug: "debug_info now s = Inr (r, t) \<Longrightarrow> psm_step s t"
| step_rehash: "rehash (data s) d \<Longrightarrow> psm_step s (s\<lparr>data := d\<rparr>)"

lemma map_of_mset:
  assumes "distinct (map fst xs)" "mset ys = mset xs"
  shows "distinct (map fst ys)" "map_of ys = map_of xs" "set ys = set xs"
proof -
  show s: "set ys = set xs" using assms(2) by (metis set_mset_mset)
  have "mset (map fst ys) = mset (map fst xs)" using assms(2) by simp
  then show d: "distinct (map fst ys)" using assms(1) by (metis distinct_count_atmost_1 set_mset_mset)
  show "map_of ys = map_of xs" using map_of_inject_set [OF d assms(1)] s by simp
qed

lemma rehash_groups:
  assumes "list_all2 (\<lambda>(g, ps) (h, qs). g = h \<and> mset ps = mset qs) gs hs"
  shows "map fst hs = map fst gs"
    and "(\<exists>e \<in> set hs. p \<in> set (snd e)) \<longleftrightarrow> (\<exists>e \<in> set gs. p \<in> set (snd e))"
    and "(\<forall>e \<in> set hs. distinct (snd e)) \<longleftrightarrow> (\<forall>e \<in> set gs. distinct (snd e))"
  using assms
  by (induction rule: list_all2_induct)
     (auto simp: distinct_count_atmost_1 dest: mset_eq_setD, (metis set_mset_mset)+)

lemma rehash_inv:
  assumes "ps_inv d" "rehash d e"
  shows "ps_inv e"
proof -
  obtain gs where gs: "mset gs = mset (priority_nodes d)"
      "list_all2 (\<lambda>(g, ps) (h, qs). g = h \<and> mset ps = mset qs) gs (priority_nodes e)"
    using assms(2) by (auto simp: rehash_def)
  have wf: "ps_wf d" using assms(1) by (simp add: ps_inv_def)
  note n = map_of_mset [of "nodes d" "nodes e"]
  have keys: "distinct (map fst (nodes d))" "mset (nodes e) = mset (nodes d)"
    "distinct (map fst (priority_nodes d))"
    using wf assms(2) by (simp_all add: ps_wf_def rehash_def)
  note g = map_of_mset [OF keys(3) gs(1)]
  have prio: "priority_set e = priority_set d"
    using rehash_groups(2) [OF gs(2)] g(3)
    by (auto simp: priority_set_def is_priority_def list_ex_iff case_prod_beta)
  have conn: "conn_set c e = conn_set c d" "known e = known d" for c
    using n [OF keys(1,2)] by (auto simp: conn_set_def known_def)
  have "ps_wf e"
    unfolding ps_wf_def
    using wf n [OF keys(1,2)] g rehash_groups(1,3) [OF gs(2)] by (simp add: ps_wf_def prio conn)
  then show ?thesis
    using assms by (simp add: ps_inv_def slots_ok_def prio conn rehash_def)
qed

lemma debug_info_eq:
  assumes "ps_inv (data s)"
  shows "\<exists>r. debug_info now s = Inr (r, touched now s)"
proof -
  have "\<exists>es. debug_nodes d ps = Inr es" if "set ps \<subseteq> known d" for d and ps :: "'a list"
    using that by (induction ps) (auto simp: debug_node_def peer_eq)
  moreover have "set (peers d) \<subseteq> known d" for d :: "'a peers_state"
    by (simp add: peers_def known_def dom_alist)
  ultimately obtain es where "debug_nodes (data (touched now s)) (peers (data (touched now s))) = Inr es"
    by blast
  then show ?thesis using assms by (simp add: debug_info_def update_time_touched del: touched_simps(1))
qed

lemma psm_step_inv:
  assumes "psm_inv s" "psm_step s t"
  shows "psm_inv t"
  using assms(2,1)
proof cases
  case (step_incoming now p i)
  with assms(1) incoming_safe [of now p i] show ?thesis by (auto simp: safe_def)
next
  case (step_dropped now now' p)
  with assms(1) dropped_safe [of now now' p] show ?thesis by (auto simp: safe_def)
next
  case (step_discovered now ps)
  with assms(1) discovered_safe [of now ps] show ?thesis by (auto simp: safe_def)
next
  case (step_send a)
  with assms(1) show ?thesis by (auto simp: send_action_def psm_inv_def)
next
  case (step_poll now m)
  with poll_next_safe [OF assms(1), of now] show ?thesis by auto
next
  case (step_debug now r)
  with debug_info_eq [of s now] assms(1) psm_inv_touched [OF assms(1), of now] show ?thesis
    by (auto simp: psm_inv_def)
next
  case (step_rehash d)
  with assms(1) show ?thesis by (auto simp: psm_inv_def rehash_inv) (simp_all add: rehash_def)
qed

interpretation psm: inductive_invariant psm_init psm_step psm_inv
proof unfold_locales
  show "psm_inv s" if "psm_init s" for s :: "'a peerset"
    using that by (metis psm_init_def from_config_safe sum.inject(2))
  show "psm_inv t" if "psm_inv s" "psm_step s t" for s t :: "'a peerset"
    by (rule psm_step_inv [OF that])
qed

section \<open>Messages and connections\<close>

text \<open>What the network makes of a message: the set of peers it holds open, given the peer behind
  each incoming index.\<close>

fun announce :: "(incoming_index \<Rightarrow> 'p) \<Rightarrow> 'p message \<Rightarrow> 'p set \<Rightarrow> 'p set" where
  "announce idx (Connect p) C = insert p C"
| "announce idx (Drop p) C = C - {p}"
| "announce idx (Accept i) C = insert (idx i) C"
| "announce idx (Reject i) C = C"

text \<open>The messages queued between \<open>s\<close> and \<open>t\<close> turn the set \<open>C\<close> into the connected set of \<open>t\<close>.\<close>

definition tracks :: "(incoming_index \<Rightarrow> 'p) \<Rightarrow> 'p set \<Rightarrow> 'p peerset \<Rightarrow> 'p peerset \<Rightarrow> bool" where
  "tracks idx C s t \<longleftrightarrow> (\<exists>ms. message_queue t = message_queue s @ ms \<and>
     connected (data t) = fold (announce idx) ms C)"

lemma fold_announce_Connect: "fold (announce idx) (map Connect ps) C = C \<union> set ps"
  by (induction ps arbitrary: C) auto

lemma fold_announce_Drop: "fold (announce idx) (map Drop ps) C = C - set ps"
  by (induction ps arbitrary: C) auto

lemma dials_tracks: "dials ps s t \<Longrightarrow> tracks idx (connected (data s)) s t"
  by (auto simp: dials_def tracks_def fold_announce_Connect)

lemma alloc_slots_tracks:
  assumes "ps_inv (data s)" "alloc_slots now s = Inr t"
  shows "tracks idx (connected (data s)) s t"
proof -
  obtain t' ps where "alloc_slots now s = Inr t'" "dials ps (touched now s) t'"
    using assms(1) by (rule alloc_slots_dials)
  with assms(2) dials_tracks [of ps "touched now s" t idx] show ?thesis by (simp add: tracks_def)
qed

lemma set_priority_group_connected:
  assumes "ps_inv d" "distinct ps"
  shows "connected (set_priority_group g ps d) = connected d"
  using set_priority_group_fields(2) [of d ps _ g] assms by (simp add: connected_def ps_inv_def)

lemma disconnect_connected: "connected (disconnect p d) = connected d - {p}"
  by (auto simp: disconnect_def Let_def connected_def conn_set_def
        split: option.splits connection_state.splits)

lemma add_reputation_connected [simp]: "connected (add_reputation p m d) = connected d"
  by (auto simp: add_reputation_def connected_def conn_set_def node_default_def split: option.splits)

lemma discover_connected [simp]: "p \<notin> known d \<Longrightarrow> connected (discover p d) = connected d"
  by (auto simp: discover_def connected_def conn_set_def known_def)

lemma discover_all_connected: "connected (snd (discover_all ps d)) = connected d"
  by (induction ps arbitrary: d) (simp_all add: peer_eq)

lemma set_group_alloc_tracks:
  assumes "psm_inv s" "distinct ps" "alloc_slots now (s\<lparr>data := set_priority_group g ps (data s)\<rparr>) = Inr t"
  shows "tracks idx (connected (data s)) s t"
proof -
  have "ps_inv (data s)" using assms(1) by (simp add: psm_inv_def)
  with assms(2) have "ps_inv (set_priority_group g ps (data s))"
    "connected (set_priority_group g ps (data s)) = connected (data s)"
    by (simp_all add: set_priority_group_inv set_priority_group_connected)
  with alloc_slots_tracks [OF _ assms(3), of idx] show ?thesis by (simp add: tracks_def)
qed

lemma on_remove_reserved_peer_tracks:
  assumes "psm_inv s"
  shows "tracks idx (connected (data s)) s (on_remove_reserved_peer p s)"
proof -
  let ?ps = "removeAll p (group_members (data s) RESERVED_NODES)"
  have "connected (set_priority_group RESERVED_NODES ?ps (data s)) = connected (data s)"
    using assms distinct_members [OF assms, of RESERVED_NODES]
    by (intro set_priority_group_connected) (simp_all add: psm_inv_def distinct_removeAll)
  then show ?thesis
    by (simp add: on_remove_reserved_peer_def Let_def unwrap_group_members peer_eq tracks_def
          disconnect_connected)
qed

lemma on_set_reserved_only_True:
  assumes "psm_inv s"
  shows "\<exists>t. on_set_reserved_only now True s = Inr t \<and>
    connected (data t) = connected (data s) \<inter> set (group_members (data s) RESERVED_NODES) \<and>
    message_queue t = message_queue s @
      map Drop (filter (\<lambda>p. p \<notin> set (group_members (data s) RESERVED_NODES)) (connected_peers (data s)))"
proof -
  let ?s = "s\<lparr>reserved_only := True, data := set_priority_only True (data s)\<rparr>"
  have s': "psm_inv ?s"
    using assms by (simp add: psm_inv_def set_priority_only_inv) (simp add: set_priority_only_def)
  have keys: "distinct (map fst (nodes (data ?s)))"
    using s' ps_inv_distinct by (auto simp: psm_inv_def)
  have "distinct (connected_peers (data ?s))"
    using keys by (simp add: connected_peers_def distinct_map_filter)
  note drop = drop_unreserved_safe [OF s' this, of "group_members (data ?s) RESERVED_NODES"]
  have frame: "connected_peers (data ?s) = connected_peers (data s)"
    "connected (data ?s) = connected (data s)" "set (connected_peers (data s)) = connected (data s)"
    "group_members (data ?s) g = group_members (data s) g" for g
    using set_connected_peers [OF keys]
    by (simp_all add: set_priority_only_def connected_def group_members_def connected_peers_def)
  have eq: "on_set_reserved_only now True s =
      drop_unreserved (group_members (data s) RESERVED_NODES) (connected_peers (data s)) ?s"
    using frame by (simp add: on_set_reserved_only_def unwrap_group_members)
  show ?thesis
    using drop unfolding frame eq Diff_Diff_Int by auto
qed

lemma on_action_tracks:
  assumes "psm_inv s" "action_wf a" "on_action now a s = Inr t"
  shows "tracks idx (connected (data s)) s t"
proof (cases a)
  case (RemoveReservedPeer p)
  with assms show ?thesis using on_remove_reserved_peer_tracks by auto
next
  case (SetReservedOnly b)
  show ?thesis
  proof (cases b)
    case True
    let ?R = "set (group_members (data s) RESERVED_NODES)"
    have "distinct (map fst (nodes (data s)))" using assms(1) ps_inv_distinct by (auto simp: psm_inv_def)
    then have "connected (data s) - {p \<in> set (connected_peers (data s)). p \<notin> ?R} = connected (data s) \<inter> ?R"
      by (auto simp: set_connected_peers)
    with on_set_reserved_only_True [OF assms(1), of now] assms(3) SetReservedOnly True show ?thesis
      by (auto simp: tracks_def fold_announce_Drop intro!: exI [of _ "map Drop _"])
  next
    case False
    let ?s = "s\<lparr>reserved_only := False, data := set_priority_only False (data s)\<rparr>"
    have "ps_inv (data ?s)" "alloc_slots now ?s = Inr t" "connected (data ?s) = connected (data s)"
      using assms SetReservedOnly False
      by (simp_all add: psm_inv_def set_priority_only_inv on_set_reserved_only_def)
         (simp add: set_priority_only_def connected_def)
    with alloc_slots_tracks [of ?s now t idx] show ?thesis by (simp add: tracks_def)
  qed
next
  case (ReportPeer p c)
  have inv: "ps_inv (data s)" using assms(1) by (simp add: psm_inv_def)
  have "tracks idx (connected (data s)) s (report_adjust p c (touched now s))"
    by (simp add: report_adjust_def Let_def peer_eq tracks_def disconnect_connected)
  with assms(3) ReportPeer inv show ?thesis by (simp add: on_report_peer_def update_time_touched)
next
  case (AddReservedPeer p)
  show ?thesis
    by (rule set_group_alloc_tracks [OF assms(1), of
          "set_insert p (group_members (data s) RESERVED_NODES)" now RESERVED_NODES])
       (use assms AddReservedPeer in \<open>simp_all add: on_add_reserved_peer_def unwrap_group_members
          distinct_set_insert distinct_members\<close>)
next
  case (SetPriorityGroup g ps)
  show ?thesis
    by (rule set_group_alloc_tracks [OF assms(1), of ps now g])
       (use assms SetPriorityGroup in \<open>simp_all add: on_set_priority_group_def\<close>)
next
  case (AddToPriorityGroup g p)
  show ?thesis
    by (rule set_group_alloc_tracks [OF assms(1), of "set_insert p (group_members (data s) g)" now g])
       (use assms AddToPriorityGroup in \<open>simp_all add: on_add_to_priority_group_def
          add_to_priority_group_def group_members_def [symmetric] distinct_set_insert distinct_members\<close>)
next
  case (RemoveFromPriorityGroup g p)
  show ?thesis
    by (rule set_group_alloc_tracks [OF assms(1), of "removeAll p (group_members (data s) g)" now g])
       (use assms RemoveFromPriorityGroup in \<open>simp_all add: on_remove_from_priority_group_def
          remove_from_priority_group_def group_members_def [symmetric] distinct_removeAll distinct_members\<close>)
qed

section \<open>Reputations over time\<close>

lemma abs_div_50: "0 \<le> \<bar>r\<bar> div (50::int)" "50 * (\<bar>r\<bar> div (50::int)) \<le> \<bar>r\<bar>"
  by simp_all

lemma reput_tick_i32:
  assumes "in_i32 r"
  shows "reput_tick r = r - sgn r * max 1 (\<bar>r\<bar> div 50)"
proof -
  note b = abs_div_50 [of r]
  have "in_i32 (r - sgn r * max 1 (\<bar>r\<bar> div 50))"
    using assms b by (auto simp: in_i32_def sgn_if max_def)
  moreover have "trunc_div r 50 = sgn r * (\<bar>r\<bar> div 50)" by (auto simp: trunc_div_def sgn_if)
  ultimately show ?thesis
    using b by (auto simp: reput_tick_def saturating_sub_def Let_def sgn_if max_def not_le)
qed

lemma div_50: "50 * (a div 50) \<le> (a::int)" "(a::int) < 50 * (a div 50) + 50"
  by simp_all

lemma step_mono:
  assumes "1 \<le> (a::int)" "a \<le> b"
  shows "a - max 1 (a div 50) \<le> b - max 1 (b div 50)"
proof -
  have "a div 50 \<le> b div 50" using assms(2) by (simp add: zdiv_mono1)
  then have "b div 50 - a div 50 \<le> b - a"
    using div_50 [of a] div_50 [of b] assms(2) by linarith
  with assms(2) show ?thesis by linarith
qed

lemma step_bounds: "1 \<le> (a::int) \<Longrightarrow> 0 \<le> a - max 1 (a div 50) \<and> a - max 1 (a div 50) < a"
  using div_50 [of a] by auto

lemma reput_tick_mono:
  assumes "in_i32 a" "in_i32 b" "a \<le> b"
  shows "reput_tick a \<le> reput_tick b"
proof -
  consider "1 \<le> a" | "a \<le> 0" "0 \<le> b" | "b \<le> - 1" using assms(3) by linarith
  then show ?thesis
  proof cases
    case 1
    with step_mono [of a b] assms show ?thesis by (simp add: reput_tick_i32)
  next
    case 2
    have "reput_tick a \<le> 0"
      using 2 step_bounds [of "- a"] assms by (cases "a = 0") (simp_all add: reput_tick_i32 sgn_if)
    moreover have "0 \<le> reput_tick b"
      using 2 step_bounds [of b] assms by (cases "b = 0") (simp_all add: reput_tick_i32 sgn_if)
    ultimately show ?thesis by simp
  next
    case 3
    with step_mono [of "- b" "- a"] assms show ?thesis by (simp add: reput_tick_i32 sgn_if)
  qed
qed


lemma in_i32_ticks: "in_i32 r \<Longrightarrow> in_i32 ((reput_tick ^^ k) r)"
  by (cases k) (simp_all add: in_i32_reput_tick)

lemma reput_ticks_mono:
  "in_i32 a \<Longrightarrow> in_i32 b \<Longrightarrow> a \<le> b \<Longrightarrow> (reput_tick ^^ k) a \<le> (reput_tick ^^ k) b"
  by (induction k) (simp_all add: reput_tick_mono in_i32_ticks)

lemma abs_reput_tick: "in_i32 r \<Longrightarrow> r \<noteq> 0 \<Longrightarrow> \<bar>reput_tick r\<bar> < \<bar>r\<bar>"
  using step_bounds [of r] step_bounds [of "- r"]
  by (cases "r > 0") (auto simp: reput_tick_i32 sgn_if)

lemma reput_ticks_reach_0: "in_i32 r \<Longrightarrow> nat \<bar>r\<bar> \<le> k \<Longrightarrow> (reput_tick ^^ k) r = 0"
proof (induction k arbitrary: r)
  case (Suc k)
  show ?case
  proof (cases "r = 0")
    case False
    with abs_reput_tick [OF Suc.prems(1)] Suc.prems(2) have "nat \<bar>reput_tick r\<bar> \<le> k" by linarith
    with Suc.IH [of "reput_tick r"] show ?thesis by (simp add: in_i32_reput_tick funpow_swap1)
  qed (use reput_ticks_0 [of "Suc k"] in simp)
qed simp

lemma BANNED_THRESHOLD_value: "BANNED_THRESHOLD = - 1760936552"
  by (simp add: BANNED_THRESHOLD_def trunc_div_def)

lemma lowest_ten_ticks: "(reput_tick ^^ 10) i32_min \<ge> BANNED_THRESHOLD"
  by (simp add: BANNED_THRESHOLD_value eval_nat_numeral reput_tick_i32 in_i32_def sgn_if max_def)

lemma ticks_unban:
  assumes "in_i32 r" "10 \<le> k"
  shows "(reput_tick ^^ k) r \<ge> BANNED_THRESHOLD"
proof -
  have keep: "reput_tick x \<ge> BANNED_THRESHOLD" if "in_i32 x" "x \<ge> BANNED_THRESHOLD" for x
  proof -
    have "BANNED_THRESHOLD \<le> reput_tick BANNED_THRESHOLD"
      by (simp add: BANNED_THRESHOLD_value reput_tick_i32 in_i32_def sgn_if max_def)
    also have "\<dots> \<le> reput_tick x"
      using that by (intro reput_tick_mono) (simp_all add: BANNED_THRESHOLD_value in_i32_def)
    finally show ?thesis .
  qed
  show ?thesis
    using assms(2)
  proof (induction k rule: dec_induct)
    case base
    have "(reput_tick ^^ 10) i32_min \<le> (reput_tick ^^ 10) r"
      using assms(1) by (intro reput_ticks_mono) (simp_all add: in_i32_def)
    with lowest_ten_ticks show ?case by (rule order_trans)
  next
    case (step k)
    then show ?case by (simp add: keep in_i32_ticks assms(1))
  qed
qed

lemma secs_diff_add:
  assumes "created s \<le> latest_time_update s" "latest_time_update s \<le> n" "n \<le> n'"
  shows "secs_diff n s + secs_diff n' (touched n s) = secs_diff n' s"
proof -
  have "as_secs (latest_time_update s - created s) \<le> as_secs (n - created s)"
    "as_secs (n - created s) \<le> as_secs (n' - created s)"
    using assms by (simp_all add: as_secs_def div_le_mono diff_le_mono)
  then show ?thesis by (simp add: secs_diff_def)
qed

end
