(* ===== verification/Peerset_Correct.thy ===== *)
theory Peerset_Correct
  imports Peerset_Manager
begin

text \<open>
  The correctness properties of the peer set: slot accounting in every reachable state, absence
  of panics, what slot allocation achieves, that the messages report every change of the
  connected set, the decision on an incoming connection, the reserved-only mode, and the decay
  of reputations. The example states are used by the concrete instances only.
\<close>

section \<open>Example states\<close>

definition example_config :: "nat peerset_config" where
  "example_config = \<lparr>in_peers = 1, out_peers = 1, bootnodes = [1, 2], cfg_reserved_only = False,
     reserved_nodes = [3]\<rparr>"

definition example_data :: "nat peers_state" where
  "example_data =
     \<lparr>nodes = [(1, \<lparr>conn = Out, reputation = 0\<rparr>), (2, \<lparr>conn = NotConnected, reputation = 0\<rparr>),
               (3, \<lparr>conn = In, reputation = 5\<rparr>)],
      num_in = 0, num_out = 1, max_in = 1, max_out = 2,
      priority_nodes = [(RESERVED_NODES, [3])], priority_only = False\<rparr>"

definition example_psm :: "nat peerset" where
  "example_psm = \<lparr>data = example_data, reserved_only = False, rx = [], message_queue = [],
     created = 0, latest_time_update = 0\<rparr>"

lemmas run_simps = alloc_slots_def update_time_def as_secs_def alloc_priority.simps alloc_best.simps
  next_priority_def priority_not_connected_peer_def priority_not_connected_peer_from_group_def
  known_not_connected_def highest_not_connected_peer_def peer_try_outgoing_def try_outgoing_def
  is_priority_def push_back_def set_priority_group_def join_group_body_def leave_group_body_def
  or_default_def node_default_def discover_def peer_def peer_reputation_def
  BANNED_THRESHOLD_value Let_def

lemma example_config_run:
  "from_config 0 0 0 example_config = Inr
     \<lparr>data = \<lparr>nodes = [(3, \<lparr>conn = Out, reputation = 0\<rparr>), (1, \<lparr>conn = Out, reputation = 0\<rparr>),
               (2, \<lparr>conn = NotConnected, reputation = 0\<rparr>)],
        num_in = 0, num_out = 1, max_in = 1, max_out = 1,
        priority_nodes = [(RESERVED_NODES, [3])], priority_only = False\<rparr>,
      reserved_only = False, rx = [], message_queue = [Connect 3, Connect 1],
      created = 0, latest_time_update = 0\<rparr>"
  by (simp add: from_config_def example_config_def peers_state_new_def run_simps)

lemma example_reach: "from_config n n' n'' cfg = Inr s \<Longrightarrow> reach psm_init psm_step s"
  unfolding psm_init_def by (rule reach_init) blast

lemma example_views:
  "conn_set In example_data = {3}" "conn_set Out example_data = {1}"
  "conn_set NotConnected example_data = {2}" "connected example_data = {1, 3}"
  "known example_data = {1, 2, 3}" "priority_set example_data = {3}"
  by (auto simp: conn_set_def known_def connected_def priority_set_def is_priority_def
        example_data_def split: if_splits)

lemma example_inv: "psm_inv example_psm"
proof -
  have "ps_wf example_data"
    unfolding ps_wf_def example_views by (simp add: example_data_def in_i32_def)
  moreover have "slots_ok example_data"
    unfolding slots_ok_def example_views by (simp add: example_data_def)
  ultimately show ?thesis
    by (simp add: psm_inv_def ps_inv_def example_psm_def) (simp add: example_data_def)
qed

section \<open>Properties\<close>

lemma unat_card:
  assumes "finite A" "A \<subseteq> B" "finite B" "card B < 2 ^ 32"
  shows "unat (of_nat (card A) :: u32) = card A"
  using card_mono [OF assms(3,2)] assms(4) by (simp add: unsigned_of_nat take_bit_nat_eq_self)

text \<open>C5. In every state the peer set manager can reach, from any configuration and under any
  sequence of network events, actions, polls and reorderings of the hash tables, the slot counters
  are exactly the numbers of non-priority peers with an incoming and an outgoing connection (with
  fewer than \<open>2 ^ 32\<close> known peers), and the two copies of the reserved-only flag agree.\<close>

theorem reachable_slot_counters:
  assumes "reach psm_init psm_step s" "card (known (data s)) < 2 ^ 32"
  shows "unat (num_in (data s)) = card (conn_set In (data s) - priority_set (data s)) \<and>
    unat (num_out (data s)) = card (conn_set Out (data s) - priority_set (data s)) \<and>
    priority_only (data s) = reserved_only s"
proof -
  have inv: "psm_inv s" by (rule psm.reach_inv [OF assms(1)])
  have sub: "conn_set c (data s) - priority_set (data s) \<subseteq> known (data s)" for c
    using conn_set_subset_known [of c "data s"] by blast
  show ?thesis
    using inv unat_card [OF _ sub finite_known assms(2)]
    by (simp add: psm_inv_def ps_inv_def slots_ok_def)
qed

theorem reachable_slot_counters_witness:
  "\<exists>s. from_config 0 0 0 example_config = Inr s \<and>
     unat (num_out (data s)) = card (conn_set Out (data s) - priority_set (data s))"
proof -
  obtain s where s: "from_config 0 0 0 example_config = Inr s" using example_config_run by blast
  then have "reach psm_init psm_step s" by (rule example_reach)
  moreover have "known (data s) = {1, 2, 3}"
    using s unfolding example_config_run by (auto simp: known_def split: if_splits)
  ultimately show ?thesis using reachable_slot_counters [of s] s by auto
qed

text \<open>C21. No handler of the peer set manager panics in a reachable state: the \<open>unreachable!\<close> of
  \<open>update_time\<close> and \<open>debug_info\<close> and the \<open>expect\<close> of \<open>on_set_reserved_only\<close> are never hit, and
  polling either yields a message or ends with the queue and the channel drained.\<close>

theorem reachable_no_panic:
  assumes "reach psm_init psm_step s"
  shows "(\<exists>t. incoming now p i s = Inr t) \<and> (\<exists>t. dropped now now' p s = Inr t) \<and>
    (\<exists>t. discovered now ps s = Inr t) \<and> (\<exists>r t. debug_info now s = Inr (r, t)) \<and>
    (\<exists>m t. poll_next clock s = Inr (m, t) \<and> (m = None \<longrightarrow> rx t = [] \<and> message_queue t = []))"
proof -
  have inv: "psm_inv s" by (rule psm.reach_inv [OF assms])
  then have "ps_inv (data s)" by (simp add: psm_inv_def)
  then show ?thesis
    using inv incoming_safe [of now p i] dropped_safe [of now now' p] discovered_safe [of now ps]
      debug_info_eq [of s now] poll_next_safe [OF inv, of clock]
    unfolding safe_def by blast
qed

theorem reachable_no_panic_witness:
  "\<exists>s. from_config 0 0 0 example_config = Inr s \<and> (\<exists>t. dropped 5 6 1 s = Inr t)"
proof -
  obtain s where s: "from_config 0 0 0 example_config = Inr s" using example_config_run by blast
  then have "reach psm_init psm_step s" by (rule example_reach)
  with reachable_no_panic [of s, where now = 5 and now' = 6 and p = 1] s
  show ?thesis by blast
qed



text \<open>C23. The messages of the peer set account for every change of its connected set. Reading the
  messages a handler queues, in order, as connects, drops, accepts and rejects turns the set of
  connected peers before the handler into the one after it; for \<open>dropped\<close>, before means without the
  peer the network has just dropped.\<close>

theorem messages_track_connections:
  assumes "psm_inv s"
  shows "(action_wf a \<and> on_action now a s = Inr t \<longrightarrow> tracks idx (connected (data s)) s t) \<and>
    (discovered now ps s = Inr t \<longrightarrow> tracks idx (connected (data s)) s t) \<and>
    (dropped now now' p s = Inr t \<longrightarrow> tracks idx (connected (data s) - {p}) s t) \<and>
    (incoming now (idx i) i s = Inr t \<longrightarrow> tracks idx (connected (data s)) s t)"
proof -
  have inv: "ps_inv (data s)" using assms by (simp add: psm_inv_def)
  have 1: "tracks idx (connected (data s)) s t" if "action_wf a" "on_action now a s = Inr t"
    by (rule on_action_tracks [OF assms that])
  have 2: "tracks idx (connected (data s)) s t" if "discovered now ps s = Inr t"
  proof -
    obtain any d where d: "discover_all ps (data s) = (any, d)" by fastforce
    then have "ps_inv d" "connected d = connected (data s)"
      using discover_all_psm [OF inv, of ps] discover_all_connected [of ps "data s"] by simp_all
    then show ?thesis
      using that d alloc_slots_tracks [of "s\<lparr>data := d\<rparr>" now t idx]
      by (auto simp: discovered_def tracks_def split: if_splits)
  qed
  have 3: "tracks idx (connected (data s) - {p}) s t" if "dropped now now' p s = Inr t"
  proof -
    let ?u = "dropped_adjust p (touched now s)"
    have "psm_inv ?u" using dropped_adjust_psm [OF psm_inv_touched [OF assms]] by blast
    moreover have "connected (data ?u) = connected (data s) - {p}" "message_queue ?u = message_queue s"
      by (simp_all add: dropped_adjust_def peer_eq disconnect_connected)
    ultimately show ?thesis
      using that alloc_slots_tracks [of ?u now' t idx] inv
      by (simp add: dropped_def update_time_touched tracks_def psm_inv_def)
  qed
  have 4: "tracks idx (connected (data s)) s t" if "incoming now (idx i) i s = Inr t"
  proof -
    have "t = incoming_adjust (idx i) i (touched now s)"
      using that inv by (simp add: incoming_def update_time_touched)
    then show ?thesis
      by (auto simp: incoming_adjust_cases answer_incoming_eq tracks_def try_accept_incoming_connected)
  qed
  show ?thesis using 1 2 3 4 by blast
qed

theorem messages_track_connections_witness:
  "\<exists>t. dropped 0 0 1 example_psm = Inr t \<and> tracks (\<lambda>_. 1) ({1, 3} - {1}) example_psm t"
proof -
  obtain t where t: "dropped 0 0 1 example_psm = Inr t"
    using dropped_safe [of 0 0 1] example_inv by (auto simp: safe_def)
  then have "tracks (\<lambda>_. 1) (connected (data example_psm) - {1}) example_psm t"
    using messages_track_connections [OF example_inv] by blast
  with example_views(4) t show ?thesis by (auto simp: example_psm_def)
qed

text \<open>The answer to an incoming connection: none if the peer is already connected, otherwise
  exactly one. It is \<open>Accept\<close>, and the peer becomes connected, precisely when the peer's reputation
  is not under the threshold and it is a priority peer or (outside the reserved-only mode) a free
  incoming slot is left; otherwise it is \<open>Reject\<close> and the connected set is unchanged.\<close>

lemma incoming_answer:
  assumes "psm_inv s"
  shows "\<exists>t. incoming now p i s = Inr t \<and>
    (if p \<in> connected (data s)
     then message_queue t = message_queue s \<and> connected (data t) = connected (data s)
     else if (reput_tick ^^ secs_diff now s) (peer_reputation (data s) p) \<ge> BANNED_THRESHOLD \<and>
             (p \<in> priority_set (data s) \<or>
              \<not> reserved_only s \<and> num_in (data s) < max_in (data s))
     then message_queue t = message_queue s @ [Accept i] \<and>
          connected (data t) = insert p (connected (data s))
     else message_queue t = message_queue s @ [Reject i] \<and>
          connected (data t) = connected (data s))"
proof -
  let ?u = "touched now s"
  have inv: "ps_inv (data s)" and flag: "priority_only (data s) = reserved_only s"
    using assms by (simp_all add: psm_inv_def)
  have t: "incoming now p i s = Inr (incoming_adjust p i ?u)"
    using inv by (simp add: incoming_def update_time_touched)
  define d where "d = (if p \<in> known (data ?u) then data ?u else discover p (data ?u))"
  have d: "known d = insert p (known (data s))" "connected d = connected (data s)"
    "priority_set d = priority_set (data s)" "priority_only d = reserved_only s"
    "num_in d = num_in (data s)" "max_in d = max_in (data s)"
    "peer_reputation d p = (reput_tick ^^ secs_diff now s) (peer_reputation (data s) p)"
    using flag by (auto simp: d_def peer_reputation_decay discover_views peer_reputation_unknown)
  show ?thesis
  proof (cases "p \<in> connected (data s)")
    case True
    then show ?thesis using t by (simp add: incoming_adjust_cases)
  next
    case False
    then have "incoming_adjust p i ?u = answer_incoming i p d ?u"
      by (auto simp: incoming_adjust_cases d_def)
    then show ?thesis
      using t False d
      by (simp add: answer_incoming_eq try_accept_incoming_connected try_accept_incoming_result
            priority_set_def set_eq_iff)
  qed
qed

text \<open>Switching the reserved-only mode on leaves connected exactly the peers that were connected
  and are reserved, and queues one \<open>Drop\<close> for each of the others.\<close>

lemma reserved_only_on:
  assumes "psm_inv s"
  shows "\<exists>t ds. on_set_reserved_only now True s = Inr t \<and>
    connected (data t) = connected (data s) \<inter> set (group_members (data s) RESERVED_NODES) \<and>
    message_queue t = message_queue s @ map Drop ds \<and> distinct ds \<and>
    set ds = connected (data s) - set (group_members (data s) RESERVED_NODES)"
proof -
  have keys: "distinct (map fst (nodes (data s)))"
    using assms ps_inv_distinct by (auto simp: psm_inv_def)
  have "distinct (connected_peers (data s))"
    using keys by (simp add: connected_peers_def distinct_map_filter)
  with on_set_reserved_only_True [OF assms, of now] set_connected_peers [OF keys] show ?thesis
    by (fastforce intro!: distinct_filter)
qed

text \<open>Bans expire and reputations are forgotten: whatever the reputation of a peer, after ten
  seconds of decay it is at or above the ban threshold, it never changes sign on the way, and
  after as many seconds as its absolute value it is zero.\<close>

lemma bans_expire:
  assumes "in_i32 (peer_reputation d p)" "ps_inv d"
  shows "(\<exists>d'. tick_seconds k d = Inr d' \<and>
      (10 \<le> k \<longrightarrow> peer_reputation d' p \<ge> BANNED_THRESHOLD) \<and>
      (0 \<le> peer_reputation d p \<longrightarrow> 0 \<le> peer_reputation d' p) \<and>
      (peer_reputation d p \<le> 0 \<longrightarrow> peer_reputation d' p \<le> 0) \<and>
      (nat \<bar>peer_reputation d p\<bar> \<le> k \<longrightarrow> peer_reputation d' p = 0))"
proof -
  have "0 \<le> (reput_tick ^^ k) r" if "in_i32 r" "0 \<le> r" for r
    using reput_ticks_mono [of 0 r k] that by simp
  moreover have "(reput_tick ^^ k) r \<le> 0" if "in_i32 r" "r \<le> 0" for r
    using reput_ticks_mono [of r 0 k] that by simp
  ultimately show ?thesis
    using assms ticks_unban [of _ k] reput_ticks_reach_0 [of _ k]
    by (auto simp: tick_seconds_decay ps_inv_distinct peer_reputation_decay)
qed

text \<open>No second is lost to rounding: updating the time at \<open>n\<close> and again at \<open>n'\<close> is the same as
  updating it once at \<open>n'\<close>, for a clock that does not run backwards.\<close>

lemma update_time_compose:
  assumes "ps_inv (data s)" "created s \<le> latest_time_update s" "latest_time_update s \<le> n" "n \<le> n'"
  shows "try_bind (update_time n s) (update_time n') = update_time n' s"
proof -
  have "touched n' (touched n s) = touched n' s"
    using secs_diff_add [OF assms(2-4)] by (simp add: touched_def decay_decay)
  then show ?thesis using assms(1) by (simp add: update_time_touched decay_inv)
qed

text \<open>A fatal report does not always ban. \<open>ReputationChange::new_fatal\<close> is documented as forcing
  the minimum reputation, but the change is added: a connected peer is dropped by it exactly when
  its reputation is below \<open>386547096\<close>.\<close>

lemma fatal_report_drops:
  assumes "psm_inv s" "p \<in> connected (data s)" "secs_diff now s = 0"
  shows "\<exists>t. on_report_peer now p (new_fatal r) s = Inr t \<and>
    (p \<notin> connected (data t) \<longleftrightarrow> peer_reputation (data s) p < 386547096)"
proof -
  have inv: "ps_inv (data s)" using assms(1) by (simp add: psm_inv_def)
  obtain n where n: "map_of (nodes (data s)) p = Some n"
    using assms(2) by (auto simp: connected_iff)
  then have r: "peer_reputation (data s) p = reputation n" "in_i32 (reputation n)"
    using ps_wf_reputation [OF _ n] inv by (simp_all add: peer_reputation_def ps_inv_def)
  have "peer_reputation (add_reputation p i32_min (data s)) p = saturating_add (reputation n) i32_min"
    using n by (simp add: add_reputation_def peer_reputation_def)
  moreover have "saturating_add x i32_min < BANNED_THRESHOLD \<longleftrightarrow> x < 386547096" if "in_i32 x" for x
    using that by (auto simp: saturating_add_def sat_i32_def BANNED_THRESHOLD_value in_i32_def)
  ultimately show ?thesis
    using inv assms(2,3) r
    by (simp add: on_report_peer_def update_time_touched report_adjust_def peer_eq new_fatal_def
          Let_def disconnect_connected)
qed

text \<open>\<open>highest_not_connected_peer\<close> returns a known, unconnected peer of the highest reputation
  among these, and \<open>None\<close> exactly when there is no such peer.\<close>

lemma highest_not_connected_is_best:
  "case highest_not_connected_peer d of
     None \<Rightarrow> known d = connected d
   | Some p \<Rightarrow> p \<in> known d - connected d \<and>
       peer_reputation d p = Max (peer_reputation d ` (known d - connected d))"
proof -
  have nc: "known d - connected d = conn_set NotConnected d"
    using not_connected_disjoint [of d] by (auto simp: known_split)
  show ?thesis
  proof (cases "highest_not_connected_peer d")
    case None
    then have "conn_set NotConnected d = {}" by (simp only: highest_not_connected_peer_None)
    then have "known d = connected d" by (simp add: known_split)
    with None show ?thesis by simp
  next
    case (Some p)
    note best = highest_not_connected_peer_Some [OF Some]
    then have "Max (peer_reputation d ` conn_set NotConnected d) = peer_reputation d p"
      by (intro Max_eqI) auto
    with Some best(1) show ?thesis by (simp add: nc)
  qed
qed

text \<open>Slots are respected: taking an outgoing (incoming) slot for a peer that is not a priority
  peer succeeds only outside the reserved-only mode, and never takes the counter past its maximum;
  a failed attempt changes nothing, and a priority peer is never refused.\<close>

lemma slots_respected:
  assumes "p \<in> conn_set NotConnected d"
  shows "(case try_outgoing p d of (ok, d') \<Rightarrow>
      (ok \<longleftrightarrow> p \<in> priority_set d \<or> \<not> priority_only d \<and> num_out d < max_out d) \<and>
      (ok \<longrightarrow> connected d' = insert p (connected d) \<and>
         (p \<notin> priority_set d \<longrightarrow> num_out d' = num_out d + 1 \<and> num_out d' \<le> max_out d')) \<and>
      (\<not> ok \<longrightarrow> d' = d)) \<and>
    (case try_accept_incoming p d of (ok, d') \<Rightarrow>
      (ok \<longleftrightarrow> p \<in> priority_set d \<or> \<not> priority_only d \<and> num_in d < max_in d) \<and>
      (ok \<longrightarrow> connected d' = insert p (connected d) \<and>
         (p \<notin> priority_set d \<longrightarrow> num_in d' = num_in d + 1 \<and> num_in d' \<le> max_in d')) \<and>
      (\<not> ok \<longrightarrow> d' = d))"
proof -
  have k: "p \<in> known d" using assms conn_set_subset_known by fast
  have inc: "a + 1 \<le> b" if "a < b" for a b :: u32 using that by (rule inc_le)
  have out: "num_out (snd (try_outgoing p d)) = num_out d + 1 \<and>
      num_out (snd (try_outgoing p d)) \<le> max_out (snd (try_outgoing p d))"
    if "fst (try_outgoing p d)" "p \<notin> priority_set d"
    using that(1) by (rule try_outgoing_True) (use that(2) inc in \<open>auto simp: priority_set_def\<close>)
  have inn: "num_in (snd (try_accept_incoming p d)) = num_in d + 1 \<and>
      num_in (snd (try_accept_incoming p d)) \<le> max_in (snd (try_accept_incoming p d))"
    if "fst (try_accept_incoming p d)" "p \<notin> priority_set d"
    using that(1) by (rule try_accept_incoming_True) (use that(2) inc in \<open>auto simp: priority_set_def\<close>)
  show ?thesis
    using k out inn try_outgoing_connected(1) [of p d] try_accept_incoming_connected [of p d]
      try_outgoing_frame [of p d] try_accept_incoming_frame [of p d]
      try_outgoing_result [of p d] try_accept_incoming_result [of p d]
    unfolding case_prod_beta priority_set_def mem_Collect_eq by blast
qed

end
