(* ===== verification/Proto_Substream.thy ===== *)
theory Proto_Substream
  imports Stargate_Prelude
begin

text \<open>
  One substream of the custom protocol (\<open>network-libp2p/src/custom_proto/upgrade.rs\<close>): the
  negotiated names, the send queue, and the poll that flushes it and reads packets. The framed
  socket below is libp2p's; it is a value of any type \<open>'i\<close> with the four operations that the
  code calls, bundled in the record \<open>framed\<close>.
\<close>

section \<open>Data\<close>

datatype 'a async = NotReady | Ready 'a

datatype endpoint = Dialer | Listener

type_synonym io_error = string

text \<open>\<open>start_send\<close> answers \<open>True\<close> for \<open>AsyncSink::Ready\<close> and \<open>False\<close> for \<open>NotReady\<close>, which hands
  the packet back; \<open>framed_poll\<close> is the fused stream of received packets.\<close>

record 'i framed =
  start_send :: "bytes \<Rightarrow> 'i \<Rightarrow> io_error + (bool \<times> 'i)"
  framed_close :: "'i \<Rightarrow> io_error + (unit async \<times> 'i)"
  poll_complete :: "'i \<Rightarrow> io_error + (unit async \<times> 'i)"
  framed_poll :: "'i \<Rightarrow> io_error + (bytes option async \<times> 'i)"

record registered_protocol =
  rp_id :: bytes
  base_name :: bytes
  supported_versions :: "u8 list"

record 'i substream =
  is_closing :: bool
  endpoint :: endpoint
  send_queue :: "bytes list"
  requires_poll_complete :: bool
  inner :: 'i
  protocol_version :: u8
  clogged_fuse :: bool

datatype registered_protocol_event =
    RPMessage bytes
  | RPClogged "bytes list"

record registered_protocol_name =
  rpn_name :: bytes
  rpn_version :: u8

section \<open>Operations\<close>

text \<open>Byte string literals: the ASCII codes of the characters.\<close>

definition ascii :: "string \<Rightarrow> bytes" where
  "ascii s = map (\<lambda>c. of_nat (of_char c)) s"

definition registered_protocol_new :: "bytes \<Rightarrow> u8 list \<Rightarrow> registered_protocol" where
  "registered_protocol_new protocol versions =
     \<lparr>rp_id = protocol, base_name = ascii ''/stargate/'' @ protocol @ ascii ''/'',
      supported_versions = rev (sort versions)\<rparr>"

text \<open>\<open>u8::to_string\<close>: the decimal digits.\<close>

fun decimal :: "nat \<Rightarrow> string" where
  "decimal n = (if n < 10 then [char_of (48 + n)] else decimal (n div 10) @ [char_of (48 + n mod 10)])"

declare decimal.simps [simp del]

definition protocol_info :: "registered_protocol \<Rightarrow> registered_protocol_name list" where
  "protocol_info rp =
     map (\<lambda>v. \<lparr>rpn_name = base_name rp @ ascii (decimal (unat v)), rpn_version = v\<rparr>)
       (supported_versions rp)"

definition substream_shutdown :: "'i substream \<Rightarrow> 'i substream" where
  "substream_shutdown s = s\<lparr>is_closing := True, send_queue := []\<rparr>"

definition substream_send_message :: "bytes \<Rightarrow> 'i substream \<Rightarrow> 'i substream" where
  "substream_send_message d s =
     (if is_closing s then s else s\<lparr>send_queue := send_queue s @ [d]\<rparr>)"

text \<open>The loop that flushes the local queue. On an error the packet has left the queue.\<close>

fun flush_queue :: "'i framed \<Rightarrow> bytes list \<Rightarrow> 'i substream \<Rightarrow> (io_error \<times> 'i substream) + 'i substream" where
  "flush_queue f [] s = Inr (s\<lparr>send_queue := []\<rparr>)"
| "flush_queue f (packet # q) s =
     (case start_send f packet (inner s) of
        Inl e \<Rightarrow> Inl (e, s\<lparr>send_queue := q\<rparr>)
      | Inr (False, i) \<Rightarrow> Inr (s\<lparr>send_queue := packet # q, inner := i\<rparr>)
      | Inr (True, i) \<Rightarrow> flush_queue f q (s\<lparr>inner := i, requires_poll_complete := True\<rparr>))"

definition clog_limit :: nat where "clog_limit = 2048"

text \<open>The part of \<open>poll\<close> after the clogging test: flush the sink, then read a packet.\<close>

definition poll_inner ::
  "'i framed \<Rightarrow> 'i substream \<Rightarrow> (io_error + registered_protocol_event option async) \<times> 'i substream" where
  "poll_inner f s =
     (case (if requires_poll_complete s
            then (case poll_complete f (inner s) of
                    Inl e \<Rightarrow> Inl e
                  | Inr (Ready _, i) \<Rightarrow> Inr (s\<lparr>inner := i, requires_poll_complete := False\<rparr>)
                  | Inr (NotReady, i) \<Rightarrow> Inr (s\<lparr>inner := i\<rparr>))
            else Inr s) of
        Inl e \<Rightarrow> (Inl e, s)
      | Inr s \<Rightarrow>
          (case framed_poll f (inner s) of
             Inl e \<Rightarrow> (Inl e, s)
           | Inr (Ready (Some d), i) \<Rightarrow> (Inr (Ready (Some (RPMessage d))), s\<lparr>inner := i\<rparr>)
           | Inr (Ready None, i) \<Rightarrow>
               (if \<not> requires_poll_complete s \<and> send_queue s = []
                then (Inr (Ready None), s\<lparr>inner := i\<rparr>) else (Inr NotReady, s\<lparr>inner := i\<rparr>))
           | Inr (NotReady, i) \<Rightarrow> (Inr NotReady, s\<lparr>inner := i\<rparr>)))"

definition substream_poll ::
  "'i framed \<Rightarrow> 'i substream \<Rightarrow> (io_error + registered_protocol_event option async) \<times> 'i substream" where
  "substream_poll f s =
     (case flush_queue f (send_queue s) s of
        Inl (e, s) \<Rightarrow> (Inl e, s)
      | Inr s \<Rightarrow>
          if is_closing s
          then (case framed_close f (inner s) of
                  Inl e \<Rightarrow> (Inl e, s)
                | Inr (Ready _, i) \<Rightarrow> (Inr (Ready None), s\<lparr>inner := i\<rparr>)
                | Inr (NotReady, i) \<Rightarrow> (Inr NotReady, s\<lparr>inner := i\<rparr>))
          else if length (send_queue s) \<ge> clog_limit
          then (if \<not> clogged_fuse s
                then (Inr (Ready (Some (RPClogged (send_queue s)))), s\<lparr>clogged_fuse := True\<rparr>)
                else poll_inner f s)
          else poll_inner f (s\<lparr>clogged_fuse := False\<rparr>))"

text \<open>The two upgrades; they differ in the endpoint and in the packet limit of the codec
  (\<open>16 * 1024 * 1024\<close> inbound, the default of the codec outbound), given to \<open>new_framed\<close>.\<close>

definition upgrade_inbound ::
  "(nat option \<Rightarrow> 's \<Rightarrow> 'i) \<Rightarrow> 's \<Rightarrow> registered_protocol_name \<Rightarrow> 'i substream" where
  "upgrade_inbound new_framed socket info =
     \<lparr>is_closing = False, endpoint = Listener, send_queue = [], requires_poll_complete = False,
      inner = new_framed (Some (16 * 1024 * 1024)) socket, protocol_version = rpn_version info,
      clogged_fuse = False\<rparr>"

definition upgrade_outbound ::
  "(nat option \<Rightarrow> 's \<Rightarrow> 'i) \<Rightarrow> 's \<Rightarrow> registered_protocol_name \<Rightarrow> 'i substream" where
  "upgrade_outbound new_framed socket info =
     \<lparr>is_closing = False, endpoint = Dialer, send_queue = [], requires_poll_complete = False,
      inner = new_framed None socket, protocol_version = rpn_version info,
      clogged_fuse = False\<rparr>"

section \<open>The send queue is first in, first out\<close>

text \<open>Handing packets to the socket in order; \<open>None\<close> when one is refused or fails.\<close>

fun send_all :: "'i framed \<Rightarrow> bytes list \<Rightarrow> 'i \<Rightarrow> 'i option" where
  "send_all f [] i = Some i"
| "send_all f (p # ps) i =
     (case start_send f p i of Inr (True, j) \<Rightarrow> send_all f ps j | _ \<Rightarrow> None)"

lemma flush_queue_prefix:
  assumes "flush_queue f q s = Inr t"
  shows "\<exists>sent i. q = sent @ send_queue t \<and> send_all f sent (inner s) = Some i \<and>
    (send_queue t = [] \<and> inner t = i \<or>
     (\<exists>p ps. send_queue t = p # ps \<and> start_send f p i = Inr (False, inner t))) \<and>
    is_closing t = is_closing s \<and> clogged_fuse t = clogged_fuse s"
  using assms
proof (induction q arbitrary: s)
  case Nil
  then show ?case by auto
next
  case (Cons p q)
  show ?case
  proof (cases "start_send f p (inner s)")
    case (Inl e)
    with Cons.prems show ?thesis by simp
  next
    case (Inr r)
    obtain ok i where r: "r = (ok, i)" by (cases r)
    show ?thesis
    proof (cases ok)
      case False
      with Cons.prems Inr r show ?thesis by (auto intro!: exI [of _ "[]"])
    next
      case True
      let ?s = "s\<lparr>inner := i, requires_poll_complete := True\<rparr>"
      have "flush_queue f q ?s = Inr t" using Cons.prems Inr r True by simp
      from Cons.IH [OF this] obtain sent j where "q = sent @ send_queue t"
        "send_all f sent i = Some j"
        "send_queue t = [] \<and> inner t = j \<or>
         (\<exists>p ps. send_queue t = p # ps \<and> start_send f p j = Inr (False, inner t))"
        "is_closing t = is_closing s" "clogged_fuse t = clogged_fuse s" by auto
      with Inr r True show ?thesis by (intro exI [of _ "p # sent"] exI [of _ j]) auto
    qed
  qed
qed

lemma poll_inner_frame:
  assumes "poll_inner f s = (r, t)"
  shows "send_queue t = send_queue s" "is_closing t = is_closing s" "clogged_fuse t = clogged_fuse s"
  using assms by (auto simp: poll_inner_def split: if_splits sum.splits prod.splits async.splits option.splits)

lemma poll_inner_not_clogged: "poll_inner f s \<noteq> (Inr (Ready (Some (RPClogged q))), t)"
  by (auto simp: poll_inner_def split: if_splits sum.splits prod.splits async.splits option.splits)

section \<open>Protocol names\<close>

lemma decimal_digit: "n < 10 \<Longrightarrow> decimal n = [char_of (48 + n)]"
  by (simp add: decimal.simps [of n])

lemma decimal_step: "10 \<le> n \<Longrightarrow> decimal n = decimal (n div 10) @ [char_of (48 + n mod 10)]"
  by (simp add: decimal.simps [of n])

definition undecimal :: "string \<Rightarrow> nat" where
  "undecimal s = foldl (\<lambda>n c. 10 * n + (of_char c - 48)) 0 s"

lemma undecimal_decimal: "undecimal (decimal n) = n"
proof (induction n rule: less_induct)
  case (less n)
  have d: "(of_char (char_of (48 + k) :: char) :: nat) = 48 + k" if "k < 10" for k :: nat
    using that by (simp add: of_char_of)
  show ?case
  proof (cases "n < 10")
    case True
    then show ?thesis by (simp add: decimal_digit undecimal_def d)
  next
    case False
    then have "undecimal (decimal (n div 10)) = n div 10" by (intro less) simp
    with False show ?thesis by (simp add: decimal_step undecimal_def d)
  qed
qed

lemma decimal_inj: "decimal m = decimal n \<longleftrightarrow> m = n"
  using undecimal_decimal by metis

lemma ascii_inj: "ascii s = ascii t \<longleftrightarrow> s = t"
proof -
  have "inj (\<lambda>c. of_nat (of_char c) :: u8)"
  proof (rule injI)
    fix c d :: char
    assume "(of_nat (of_char c) :: u8) = of_nat (of_char d)"
    then have "(of_char c :: nat) mod 256 = of_char d mod 256"
      by (simp add: word_of_nat_eq_iff take_bit_eq_mod)
    then have "(of_char c :: nat) = of_char d" by simp
    then show "c = d" by simp
  qed
  then show ?thesis by (simp add: ascii_def inj_map_eq_map)
qed

section \<open>Properties\<close>


definition example_framed :: "bytes list framed" where
  "example_framed =
     \<lparr>start_send = (\<lambda>p i. Inr (length i < 1, if length i < 1 then i @ [p] else i)),
      framed_close = (\<lambda>i. Inr (Ready (), i)), poll_complete = (\<lambda>i. Inr (Ready (), i)),
      framed_poll = (\<lambda>i. Inr (NotReady, i))\<rparr>"

definition example_substream :: "bytes list substream" where
  "example_substream = \<lparr>is_closing = False, endpoint = Dialer, send_queue = [[1], [2]],
     requires_poll_complete = False, inner = [], protocol_version = 1, clogged_fuse = False\<rparr>"


text \<open>The advertised protocol names come with the highest version first, and a name determines
  its version: different supported versions are never advertised under the same name.\<close>

lemma protocol_names:
  "sorted (rev (map (\<lambda>n. rpn_version n) (protocol_info (registered_protocol_new pid vs)))) \<and>
   (\<forall>m n. {m, n} \<subseteq> set (protocol_info (registered_protocol_new pid vs)) \<and> rpn_name m = rpn_name n \<longrightarrow>
      rpn_version m = rpn_version n)"
  by (auto simp: protocol_info_def registered_protocol_new_def comp_def rev_map [symmetric] ascii_inj
        decimal_inj word_unat_eq_iff)

end
