(* ===== verification/Proto_Handler.thy ===== *)
theory Proto_Handler
  imports Proto_Substream
begin

text \<open>
  The connection handler of the custom protocol (\<open>network-libp2p/src/custom_proto/handler.rs\<close>):
  a state machine over the substreams of one connection. The result of polling a timer is an
  argument (a function of its deadline), and so is the clock. A poll returns \<open>None\<close> when it does
  not return: an index out of range, or the loop of \<open>shutdown_list\<close> running forever.
\<close>

section \<open>Data\<close>

datatype handler_in =
    HandlerEnable
  | HandlerDisable
  | SendCustomMessage bytes

datatype handler_out =
    HandlerOpen u8
  | HandlerClosed string
  | HandlerMessage bytes
  | HandlerClogged "bytes list"
  | ProtocolError bool string

datatype handler_event = OutboundSubstreamRequest | Custom handler_out

datatype 'i protocol_state =
    HInit "'i substream list" nat
  | HOpening nat
  | HNormal "'i substream list" "'i substream list"
  | HDisabled "'i substream list" bool
  | HKillAsap
  | HPoisoned

record 'i handler =
  h_protocol :: registered_protocol
  h_state :: "'i protocol_state"
  h_endpoint :: endpoint
  events_queue :: "handler_event list"

datatype timer_poll = TimerReady | TimerNotReady | TimerError

text \<open>\<open>Duration::from_secs\<close>, in nanoseconds.\<close>

definition from_secs :: "nat \<Rightarrow> nat" where
  "from_secs n = n * 1000000000"

section \<open>Operations\<close>

definition into_handler :: "nat \<Rightarrow> registered_protocol \<Rightarrow> endpoint \<Rightarrow> 'i handler" where
  "into_handler now protocol ep =
     \<lparr>h_protocol = protocol, h_state = HInit [] (now + from_secs 5), h_endpoint = ep,
      events_queue = []\<rparr>"

definition push_event :: "handler_event \<Rightarrow> 'i handler \<Rightarrow> 'i handler" where
  "push_event e h = h\<lparr>events_queue := events_queue h @ [e]\<rparr>"

definition enable :: "nat \<Rightarrow> 'i handler \<Rightarrow> 'i handler" where
  "enable now h =
     (case h_state h of
        HPoisoned \<Rightarrow> h
      | HInit incoming _ \<Rightarrow>
          (case incoming of
             [] \<Rightarrow> (if h_endpoint h = Dialer then push_event OutboundSubstreamRequest h else h)
                     \<lparr>h_state := HOpening (now + from_secs 60)\<rparr>
           | s # _ \<Rightarrow> (push_event (Custom (HandlerOpen (protocol_version s))) h)
                     \<lparr>h_state := HNormal incoming []\<rparr>)
      | HKillAsap \<Rightarrow> h
      | HOpening _ \<Rightarrow> h
      | HNormal _ _ \<Rightarrow> h
      | HDisabled sh _ \<Rightarrow> h\<lparr>h_state := HDisabled sh True\<rparr>)"

definition disable :: "'i handler \<Rightarrow> 'i handler" where
  "disable h =
     (case h_state h of
        HPoisoned \<Rightarrow> h
      | HInit sh _ \<Rightarrow> h\<lparr>h_state := HDisabled (map substream_shutdown sh) False\<rparr>
      | HOpening _ \<Rightarrow> h\<lparr>h_state := HKillAsap\<rparr>
      | HNormal _ _ \<Rightarrow> h\<lparr>h_state := HKillAsap\<rparr>
      | HDisabled sh _ \<Rightarrow> h\<lparr>h_state := HDisabled sh False\<rparr>
      | HKillAsap \<Rightarrow> h)"

text \<open>\<open>SmallVec::swap_remove\<close>; out of range it panics.\<close>

definition swap_remove :: "nat \<Rightarrow> 'a list \<Rightarrow> ('a \<times> 'a list) option" where
  "swap_remove n xs =
     (if n < length xs
      then Some (xs ! n, if Suc n = length xs then butlast xs else (butlast xs)[n := last xs])
      else None)"

text \<open>The reverse loop of \<open>poll_state\<close> over the open substreams; \<open>n\<close> are left to poll.\<close>

fun poll_normal ::
  "'i framed \<Rightarrow> nat \<Rightarrow> 'i substream list \<Rightarrow> 'i substream list \<Rightarrow>
     (handler_event option \<times> 'i protocol_state) option" where
  "poll_normal f 0 ss sh = Some (None, HNormal ss sh)"
| "poll_normal f (Suc n) ss sh =
     (case swap_remove n ss of
        None \<Rightarrow> None
      | Some (s, ss) \<Rightarrow>
          (case substream_poll f s of
             (Inr NotReady, s) \<Rightarrow> poll_normal f n (ss @ [s]) sh
           | (Inr (Ready (Some (RPMessage m))), s) \<Rightarrow>
               Some (Some (Custom (HandlerMessage m)), HNormal (ss @ [s]) sh)
           | (Inr (Ready (Some (RPClogged ms))), s) \<Rightarrow>
               Some (Some (Custom (HandlerClogged ms)), HNormal (ss @ [s]) sh)
           | (Inr (Ready None), s) \<Rightarrow>
               (if ss = []
                then Some (Some (Custom (HandlerClosed ''All substreams have been closed by the remote'')),
                           HDisabled (sh @ [s]) True)
                else poll_normal f n ss (sh @ [s]))
           | (Inl err, s) \<Rightarrow>
               (if ss = []
                then Some (Some (Custom (HandlerClosed (''Error on the last substream: '' @ err))),
                           HDisabled sh True)
                else poll_normal f n ss sh)))"

text \<open>The inner loop of \<open>shutdown_list\<close>: poll until there is nothing to read (\<open>Some s\<close>, keep the
  substream) or it is finished (\<open>None\<close> inside, drop it).\<close>

partial_function (option) drain :: "'i framed \<Rightarrow> 'i substream \<Rightarrow> 'i substream option option" where
  "drain f s =
     (case substream_poll f s of
        (Inr (Ready (Some _)), s) \<Rightarrow> drain f s
      | (Inr NotReady, s) \<Rightarrow> Some (Some s)
      | (Inl _, _) \<Rightarrow> Some None
      | (Inr (Ready None), _) \<Rightarrow> Some None)"

fun shutdown_list :: "'i framed \<Rightarrow> nat \<Rightarrow> 'i substream list \<Rightarrow> 'i substream list option" where
  "shutdown_list f 0 sh = Some sh"
| "shutdown_list f (Suc n) sh =
     (case swap_remove n sh of
        None \<Rightarrow> None
      | Some (s, sh) \<Rightarrow>
          (case drain f s of
             None \<Rightarrow> None
           | Some None \<Rightarrow> shutdown_list f n sh
           | Some (Some s) \<Rightarrow> shutdown_list f n (sh @ [s])))"

definition poll_state ::
  "'i framed \<Rightarrow> (nat \<Rightarrow> timer_poll) \<Rightarrow> nat \<Rightarrow> 'i handler \<Rightarrow> (handler_event option \<times> 'i handler) option" where
  "poll_state f timer now h =
     (case h_state h of
        HPoisoned \<Rightarrow> Some (None, h)
      | HInit ss deadline \<Rightarrow>
          Some (None, h\<lparr>h_state := HInit ss
            (if timer deadline = TimerReady then now + from_secs 60 else deadline)\<rparr>)
      | HOpening deadline \<Rightarrow>
          (case timer deadline of
             TimerReady \<Rightarrow>
               Some (Some (Custom (ProtocolError True ''Timeout when opening protocol'')),
                     h\<lparr>h_state := HOpening (now + from_secs 60)\<rparr>)
           | TimerNotReady \<Rightarrow> Some (None, h)
           | TimerError \<Rightarrow> Some (None, h\<lparr>h_state := HOpening (now + from_secs 60)\<rparr>))
      | HNormal ss sh \<Rightarrow>
          (case poll_normal f (length ss) ss sh of
             None \<Rightarrow> None
           | Some (ev, st) \<Rightarrow> Some (ev, h\<lparr>h_state := st\<rparr>))
      | HDisabled sh reenable \<Rightarrow>
          (case shutdown_list f (length sh) sh of
             None \<Rightarrow> None
           | Some sh \<Rightarrow>
               if reenable \<and> sh = []
               then Some (Some OutboundSubstreamRequest, h\<lparr>h_state := HOpening (now + from_secs 60)\<rparr>)
               else Some (None, h\<lparr>h_state := HDisabled sh reenable\<rparr>))
      | HKillAsap \<Rightarrow> Some (None, h\<lparr>h_state := HPoisoned\<rparr>))"

definition inject_fully_negotiated :: "'i substream \<Rightarrow> 'i handler \<Rightarrow> 'i handler" where
  "inject_fully_negotiated s h =
     (case h_state h of
        HPoisoned \<Rightarrow> h
      | HInit ss deadline \<Rightarrow> h\<lparr>h_state := HInit (ss @ [s]) deadline\<rparr>
      | HOpening _ \<Rightarrow>
          (push_event (Custom (HandlerOpen (protocol_version s))) h)\<lparr>h_state := HNormal [s] []\<rparr>
      | HNormal existing sh \<Rightarrow> h\<lparr>h_state := HNormal (existing @ [s]) sh\<rparr>
      | HDisabled sh _ \<Rightarrow> h\<lparr>h_state := HDisabled (sh @ [substream_shutdown s]) False\<rparr>
      | HKillAsap \<Rightarrow> h)"

text \<open>\<open>substreams[0]\<close> panics on an empty list: \<open>None\<close>.\<close>

definition send_message :: "bytes \<Rightarrow> 'i handler \<Rightarrow> 'i handler option" where
  "send_message m h =
     (case h_state h of
        HNormal ss sh \<Rightarrow>
          (case ss of
             [] \<Rightarrow> None
           | s # ss \<Rightarrow> Some (h\<lparr>h_state := HNormal (substream_send_message m s # ss) sh\<rparr>))
      | _ \<Rightarrow> Some h)"

definition inject_event :: "nat \<Rightarrow> handler_in \<Rightarrow> 'i handler \<Rightarrow> 'i handler option" where
  "inject_event now m h =
     (case m of
        HandlerDisable \<Rightarrow> Some (disable h)
      | HandlerEnable \<Rightarrow> Some (enable now h)
      | SendCustomMessage msg \<Rightarrow> send_message msg h)"

text \<open>\<open>upgrade\<close> says whether the error is libp2p's \<open>ProtocolsHandlerUpgrErr::Upgrade\<close>.\<close>

definition inject_dial_upgrade_error :: "bool \<Rightarrow> string \<Rightarrow> 'i handler \<Rightarrow> 'i handler" where
  "inject_dial_upgrade_error upgrade err h = push_event (Custom (ProtocolError upgrade err)) h"

definition connection_keep_alive :: "'i handler \<Rightarrow> bool" where
  "connection_keep_alive h =
     (case h_state h of
        HInit _ _ \<Rightarrow> True | HOpening _ \<Rightarrow> True | HNormal _ _ \<Rightarrow> True
      | HDisabled _ _ \<Rightarrow> False | HPoisoned \<Rightarrow> False | HKillAsap \<Rightarrow> False)"

datatype poll_result = PollReady handler_event | PollNotReady | ConnectionKillError

definition handler_poll ::
  "'i framed \<Rightarrow> (nat \<Rightarrow> timer_poll) \<Rightarrow> nat \<Rightarrow> 'i handler \<Rightarrow> (poll_result \<times> 'i handler) option" where
  "handler_poll f timer now h =
     (case events_queue h of
        e # es \<Rightarrow> Some (PollReady e, h\<lparr>events_queue := es\<rparr>)
      | [] \<Rightarrow>
          if h_state h = HKillAsap then Some (ConnectionKillError, h)
          else (case poll_state f timer now h of
                  None \<Rightarrow> None
                | Some (Some e, h) \<Rightarrow> Some (PollReady e, h)
                | Some (None, h) \<Rightarrow> Some (PollNotReady, h)))"

section \<open>Polls return\<close>

text \<open>The fused stream keeps reporting its end, as the documentation of \<open>Fuse\<close> promises.\<close>

definition fused :: "'i framed \<Rightarrow> bool" where
  "fused f \<longleftrightarrow> (\<forall>i j. framed_poll f i = Inr (Ready None, j) \<longrightarrow> (\<exists>k. framed_poll f j = Inr (Ready None, k)))"

text \<open>A substream that is shut down or has ended: polling it yields no further event.\<close>

definition finishing :: "'i framed \<Rightarrow> 'i substream \<Rightarrow> bool" where
  "finishing f s \<longleftrightarrow> is_closing s \<or>
     (send_queue s = [] \<and> \<not> requires_poll_complete s \<and> (\<exists>k. framed_poll f (inner s) = Inr (Ready None, k)))"

lemma swap_remove_Some:
  assumes "n < length xs"
  obtains ys where "swap_remove n xs = Some (xs ! n, ys)" "length ys = length xs - 1"
    "set ys \<subseteq> set xs"
proof -
  let ?ys = "if Suc n = length xs then butlast xs else (butlast xs)[n := last xs]"
  have "set ((butlast xs)[n := last xs]) \<subseteq> insert (last xs) (set (butlast xs))"
    by (rule set_update_subset_insert)
  moreover have "xs \<noteq> []" using assms by auto
  ultimately have "set ?ys \<subseteq> set xs"
    using in_set_butlastD [of _ xs] last_in_set [of xs] by auto
  with assms show thesis by (intro that [of ?ys]) (simp_all add: swap_remove_def)
qed

lemma flush_error_closing:
  "flush_queue f q s = Inl (e, u) \<Longrightarrow> is_closing u = is_closing s"
  by (induction f q s rule: flush_queue.induct) (auto split: sum.splits prod.splits bool.splits)

lemma substream_poll_closing:
  assumes "substream_poll f s = (r, t)"
  shows "is_closing t = is_closing s"
  using assms flush_queue_prefix [of f "send_queue s" s] flush_error_closing [of f "send_queue s" s]
  by (auto simp: substream_poll_def dest: poll_inner_frame(2)
        split: sum.splits prod.splits if_splits async.splits)

lemma closing_poll:
  assumes "is_closing s" "substream_poll f s = (Inr r, t)"
  shows "r = NotReady \<or> r = Ready None"
proof -
  obtain u where "flush_queue f (send_queue s) s = Inr u"
    using assms(2) by (auto simp: substream_poll_def split: sum.splits prod.splits)
  with assms flush_queue_prefix [of f "send_queue s" s u] show ?thesis
    by (auto simp: substream_poll_def split: sum.splits prod.splits async.splits)
qed

lemma ended_poll:
  assumes "fused f" "substream_poll f s = (Inr (Ready None), t)"
  shows "finishing f t"
proof (cases "is_closing s")
  case True
  then show ?thesis using substream_poll_closing [OF assms(2)] by (simp add: finishing_def)
next
  case False
  have inner: "finishing f t" if "poll_inner f u = (Inr (Ready None), t)" for u
    using that assms(1)
    by (auto simp: poll_inner_def finishing_def fused_def
          split: if_splits sum.splits prod.splits async.splits option.splits)
  show ?thesis
    using assms(2) False flush_queue_prefix [of f "send_queue s" s] inner
    by (auto simp: substream_poll_def split: sum.splits prod.splits if_splits async.splits)
qed

lemma drain_finishing:
  assumes "finishing f s"
  shows "\<exists>r. drain f s = Some r \<and> (\<forall>t. r = Some t \<longrightarrow> finishing f t)"
proof (cases "is_closing s")
  case True
  obtain r t where p: "substream_poll f s = (r, t)" by (cases "substream_poll f s")
  have t: "finishing f t" using substream_poll_closing [OF p] True by (simp add: finishing_def)
  show ?thesis
  proof (cases r)
    case (Inl e)
    then show ?thesis using p by (simp add: drain.simps)
  next
    case (Inr a)
    with closing_poll [OF True] p have "a = NotReady \<or> a = Ready None" by blast
    then show ?thesis using p Inr t by (auto simp: drain.simps)
  qed
next
  case False
  with assms have "substream_poll f s = (Inr (Ready None), s\<lparr>send_queue := [], clogged_fuse := False,
      inner := (case framed_poll f (inner s) of Inr (_, k) \<Rightarrow> k | Inl _ \<Rightarrow> inner s)\<rparr>)"
    by (auto simp: finishing_def substream_poll_def poll_inner_def clog_limit_def)
  then show ?thesis by (simp add: drain.simps)
qed

lemma shutdown_list_finishing:
  assumes "n \<le> length sh" "list_all (finishing f) sh"
  shows "\<exists>sh'. shutdown_list f n sh = Some sh' \<and> list_all (finishing f) sh'"
  using assms
proof (induction n arbitrary: sh)
  case (Suc n)
  then obtain ys where ys: "swap_remove n sh = Some (sh ! n, ys)" "length ys = length sh - 1"
    "set ys \<subseteq> set sh" by (auto intro: swap_remove_Some [of n sh])
  have fin: "list_all (finishing f) ys" "finishing f (sh ! n)"
    using Suc.prems ys(3) by (auto simp: list_all_iff)
  obtain r where r: "drain f (sh ! n) = Some r" "\<And>t. r = Some t \<Longrightarrow> finishing f t"
    using drain_finishing [OF fin(2)] by blast
  show ?case
    using Suc.IH [of ys] Suc.IH [of "ys @ [the r]"] Suc.prems(1) ys fin r by (cases r) auto
qed simp

lemma poll_normal_outcome:
  assumes "fused f" "n \<le> length ss" "ss \<noteq> []" "list_all (finishing f) sh"
  shows "\<exists>ev st. poll_normal f n ss sh = Some (ev, st) \<and>
    ((\<exists>ss sh. st = HNormal ss sh \<and> ss \<noteq> [] \<and> list_all (finishing f) sh \<and>
        (ev = None \<or> (\<exists>m. ev = Some (Custom (HandlerMessage m))) \<or>
         (\<exists>ms. ev = Some (Custom (HandlerClogged ms))))) \<or>
     (\<exists>sh r. st = HDisabled sh True \<and> list_all (finishing f) sh \<and> ev = Some (Custom (HandlerClosed r))))"
  using assms(2-4)
proof (induction n arbitrary: ss sh)
  case (Suc n)
  then obtain ys where ys: "swap_remove n ss = Some (ss ! n, ys)" "length ys = length ss - 1"
    by (auto intro: swap_remove_Some [of n ss])
  obtain r t where p: "substream_poll f (ss ! n) = (r, t)" by (cases "substream_poll f (ss ! n)")
  have len: "n \<le> length ys" using Suc.prems(1) ys(2) by simp
  consider e where "r = Inl e" | "r = Inr NotReady" | "r = Inr (Ready None)"
    | m where "r = Inr (Ready (Some (RPMessage m)))" | q where "r = Inr (Ready (Some (RPClogged q)))"
    by (metis async.exhaust old.sum.exhaust option.exhaust registered_protocol_event.exhaust)
  then show ?case
  proof cases
    case 1
    then show ?thesis using ys p Suc.IH [OF len _ Suc.prems(3)] Suc.prems(3) by simp
  next
    case 2
    then show ?thesis using ys p Suc.IH [of "ys @ [t]" sh] len Suc.prems(3) by simp
  next
    case 3
    then have "finishing f t" using ended_poll [OF assms(1)] p by simp
    then show ?thesis using 3 ys p Suc.IH [of ys "sh @ [t]"] len Suc.prems(3) by simp
  qed (use ys p Suc.prems(3) in simp_all)
qed simp

section \<open>Reachable handlers\<close>

definition state_ok :: "'i framed \<Rightarrow> 'i protocol_state \<Rightarrow> bool" where
  "state_ok f st \<longleftrightarrow>
     (case st of
        HNormal ss sh \<Rightarrow> ss \<noteq> [] \<and> list_all (finishing f) sh
      | HDisabled sh _ \<Rightarrow> list_all (finishing f) sh
      | HPoisoned \<Rightarrow> False
      | _ \<Rightarrow> True)"

definition is_normal :: "'i protocol_state \<Rightarrow> bool" where
  "is_normal st = (case st of HNormal _ _ \<Rightarrow> True | _ \<Rightarrow> False)"

text \<open>The events make sense to the outside: open and closed alternate, and messages and clogging
  are reported only while open. \<open>replay\<close> is whether the protocol is open after the events.\<close>

fun alternates :: "bool \<Rightarrow> handler_event list \<Rightarrow> bool" where
  "alternates b [] = True"
| "alternates b (Custom (HandlerOpen _) # es) = (\<not> b \<and> alternates True es)"
| "alternates b (Custom (HandlerClosed _) # es) = (b \<and> alternates False es)"
| "alternates b (Custom (HandlerMessage _) # es) = (b \<and> alternates b es)"
| "alternates b (Custom (HandlerClogged _) # es) = (b \<and> alternates b es)"
| "alternates b (e # es) = alternates b es"

fun replay1 :: "handler_event \<Rightarrow> bool \<Rightarrow> bool" where
  "replay1 (Custom (HandlerOpen _)) b = True"
| "replay1 (Custom (HandlerClosed _)) b = False"
| "replay1 _ b = b"

lemma alternates_append: "alternates b (xs @ ys) \<longleftrightarrow> alternates b xs \<and> alternates (fold replay1 xs b) ys"
proof (induction xs arbitrary: b)
  case (Cons e xs)
  show ?case
  proof (cases e)
    case (Custom c)
    with Cons show ?thesis by (cases c) auto
  qed (use Cons in simp)
qed simp

text \<open>A connection: the events delivered so far and the handler.\<close>

type_synonym 'i connection = "handler_event list \<times> 'i handler"

definition handler_init :: "'i connection \<Rightarrow> bool" where
  "handler_init c \<longleftrightarrow> (\<exists>now protocol ep. c = ([], into_handler now protocol ep))"

inductive handler_step :: "'i framed \<Rightarrow> 'i connection \<Rightarrow> 'i connection \<Rightarrow> bool" for f where
  hs_event: "inject_event now m h = Some h' \<Longrightarrow> handler_step f (d, h) (d, h')"
| hs_negotiated: "handler_step f (d, h) (d, inject_fully_negotiated s h)"
| hs_dial_error: "handler_step f (d, h) (d, inject_dial_upgrade_error u err h)"
| hs_ready: "handler_poll f timer now h = Some (PollReady e, h') \<Longrightarrow> handler_step f (d, h) (d @ [e], h')"
| hs_not_ready: "handler_poll f timer now h = Some (PollNotReady, h') \<Longrightarrow> handler_step f (d, h) (d, h')"

definition handler_inv :: "'i framed \<Rightarrow> 'i connection \<Rightarrow> bool" where
  "handler_inv f c \<longleftrightarrow> (case c of (d, h) \<Rightarrow>
     state_ok f (h_state h) \<and> alternates False (d @ events_queue h) \<and>
     (h_state h \<noteq> HKillAsap \<longrightarrow> fold replay1 (d @ events_queue h) False = is_normal (h_state h)))"

text \<open>What a state change that queues or delivers at most one event must satisfy.\<close>

lemma handler_inv_emit:
  assumes "handler_inv f (d, h)" "state_ok f (h_state h')"
    and "d' @ events_queue h' = d @ events_queue h @ es"
    and "h_state h \<noteq> HKillAsap \<or> es = [] \<or> (\<exists>u err. es = [Custom (ProtocolError u err)])"
    and "alternates (is_normal (h_state h)) es"
    and "h_state h' = HKillAsap \<or> h_state h \<noteq> HKillAsap \<and> is_normal (h_state h') = fold replay1 es (is_normal (h_state h))"
  shows "handler_inv f (d', h')"
proof -
  define l where "l = d @ events_queue h"
  have l: "alternates False l" "h_state h \<noteq> HKillAsap \<Longrightarrow> fold replay1 l False = is_normal (h_state h)"
    using assms(1) unfolding handler_inv_def prod.case l_def by blast+
  have "alternates (fold replay1 l False) es" using assms(4,5) l(2) by auto
  then have "alternates False (l @ es)" using l(1) by (simp add: alternates_append)
  moreover have eq: "d' @ events_queue h' = l @ es" using assms(3) by (simp add: l_def)
  moreover have "fold replay1 (l @ es) False = is_normal (h_state h')" if "h_state h' \<noteq> HKillAsap"
    using that assms(6) l(2) by auto
  ultimately show ?thesis
    using assms(2) unfolding handler_inv_def prod.case eq by blast
qed

lemma inject_event_inv:
  assumes "handler_inv f (d, h)" "inject_event now m h = Some h'"
  shows "handler_inv f (d, h')"
proof (cases m)
  case HandlerEnable
  have "d @ events_queue (enable now h) = d @ events_queue h @ drop (length (events_queue h)) (events_queue (enable now h))"
    by (simp add: enable_def push_event_def split: protocol_state.split list.split)
  then show ?thesis
    using assms HandlerEnable
    by (intro handler_inv_emit [OF assms(1), where es = "drop (length (events_queue h)) (events_queue (enable now h))"])
       (auto simp: inject_event_def enable_def push_event_def state_ok_def is_normal_def handler_inv_def
         split: protocol_state.splits list.splits if_splits)
next
  case HandlerDisable
  have "list_all (finishing f) (map substream_shutdown ss)" for ss
    by (simp add: list_all_iff finishing_def substream_shutdown_def)
  then show ?thesis
    using assms HandlerDisable
    by (auto simp: inject_event_def disable_def handler_inv_def state_ok_def is_normal_def
        split: protocol_state.splits)
next
  case (SendCustomMessage msg)
  then show ?thesis
    using assms by (auto simp: inject_event_def send_message_def handler_inv_def state_ok_def is_normal_def
        split: protocol_state.splits list.splits)
qed

lemma inject_fully_negotiated_inv:
  assumes "handler_inv f (d, h)"
  shows "handler_inv f (d, inject_fully_negotiated s h)"
proof -
  have fin: "finishing f (substream_shutdown s)" by (simp add: finishing_def substream_shutdown_def)
  show ?thesis
  proof (cases "h_state h")
    case (HOpening x)
    then show ?thesis
      by (intro handler_inv_emit [OF assms, where es = "[Custom (HandlerOpen (protocol_version s))]"])
         (simp_all add: inject_fully_negotiated_def push_event_def state_ok_def is_normal_def)
  qed (use assms fin in \<open>auto simp: inject_fully_negotiated_def handler_inv_def state_ok_def is_normal_def\<close>)
qed

lemma dial_error_inv:
  assumes "handler_inv f (d, h)"
  shows "handler_inv f (d, inject_dial_upgrade_error u err h)"
  using assms by (auto simp: inject_dial_upgrade_error_def push_event_def handler_inv_def alternates_append)

lemma poll_state_outcome:
  assumes "fused f" "state_ok f (h_state h)" "h_state h \<noteq> HKillAsap"
  shows "\<exists>ev h'. poll_state f timer now h = Some (ev, h') \<and> state_ok f (h_state h') \<and>
    h_state h' \<noteq> HKillAsap \<and> events_queue h' = events_queue h \<and>
    alternates (is_normal (h_state h)) (case ev of None \<Rightarrow> [] | Some e \<Rightarrow> [e]) \<and>
    is_normal (h_state h') = fold replay1 (case ev of None \<Rightarrow> [] | Some e \<Rightarrow> [e]) (is_normal (h_state h))"
proof (cases "h_state h")
  case (HNormal ss sh)
  with assms(2) have "ss \<noteq> []" "list_all (finishing f) sh" by (simp_all add: state_ok_def)
  from poll_normal_outcome [OF assms(1) order_refl this] HNormal show ?thesis
    by (auto simp: poll_state_def state_ok_def is_normal_def)
next
  case (HDisabled sh b)
  with assms(2) shutdown_list_finishing [OF order_refl, of f sh]
  obtain sh' where "shutdown_list f (length sh) sh = Some sh'" "list_all (finishing f) sh'"
    by (auto simp: state_ok_def)
  with HDisabled show ?thesis by (auto simp: poll_state_def state_ok_def is_normal_def)
next
  case (HOpening x)
  then show ?thesis by (cases "timer x") (simp_all add: poll_state_def state_ok_def is_normal_def)
qed (use assms in \<open>auto simp: poll_state_def state_ok_def is_normal_def\<close>)

lemma handler_poll_inv:
  assumes "fused f" "handler_inv f (d, h)"
  shows "\<exists>r h'. handler_poll f timer now h = Some (r, h') \<and>
    (\<forall>e. r = PollReady e \<longrightarrow> handler_inv f (d @ [e], h')) \<and> (r = PollNotReady \<longrightarrow> handler_inv f (d, h')) \<and>
    (r = ConnectionKillError \<longrightarrow> h_state h = HKillAsap)"
proof (cases "events_queue h")
  case (Cons e es)
  with assms(2) show ?thesis by (simp add: handler_poll_def handler_inv_def)
next
  case Nil
  show ?thesis
  proof (cases "h_state h = HKillAsap")
    case True
    with Nil show ?thesis by (simp add: handler_poll_def)
  next
    case False
    have "state_ok f (h_state h)" using assms(2) by (simp add: handler_inv_def)
    from poll_state_outcome [OF assms(1) this False, of timer now]
    obtain ev h' where p: "poll_state f timer now h = Some (ev, h')" "state_ok f (h_state h')"
      "h_state h' \<noteq> HKillAsap" "events_queue h' = events_queue h"
      "alternates (is_normal (h_state h)) (case ev of None \<Rightarrow> [] | Some e \<Rightarrow> [e])"
      "is_normal (h_state h') = fold replay1 (case ev of None \<Rightarrow> [] | Some e \<Rightarrow> [e]) (is_normal (h_state h))"
      by blast
    show ?thesis
      using p Nil False
      by (cases ev) (auto simp: handler_poll_def intro!: handler_inv_emit [OF assms(2)])
  qed
qed

lemma handler_step_inv:
  assumes "fused f" "handler_inv f c" "handler_step f c c'"
  shows "handler_inv f c'"
  using assms(3,2)
proof cases
  case (hs_ready timer now h e h' d)
  with handler_poll_inv [OF assms(1), of d h timer now] assms(2) show ?thesis by auto
next
  case (hs_not_ready timer now h h' d)
  with handler_poll_inv [OF assms(1), of d h timer now] assms(2) show ?thesis by auto
qed (use assms(2) inject_event_inv inject_fully_negotiated_inv dial_error_inv in blast)+

lemma handler_init_inv: "handler_init c \<Longrightarrow> handler_inv f c"
  by (auto simp: handler_init_def handler_inv_def into_handler_def state_ok_def is_normal_def)

text \<open>With a fused socket underneath, the invariant is inductive. The socket is a parameter, so
  the step relation of the interpretation is guarded by its contract.\<close>

definition fused_step :: "'i framed \<Rightarrow> 'i connection \<Rightarrow> 'i connection \<Rightarrow> bool" where
  "fused_step f c c' \<longleftrightarrow> fused f \<and> handler_step f c c'"

interpretation handler_machine: inductive_invariant handler_init "fused_step f" "handler_inv f" for f
  by unfold_locales (auto simp: fused_step_def intro: handler_init_inv handler_step_inv)

lemma handler_reach_inv:
  assumes "fused f" "reach handler_init (handler_step f) c"
  shows "handler_inv f c"
proof -
  have "handler_step f = fused_step f" using assms(1) by (simp add: fun_eq_iff fused_step_def)
  then show ?thesis using assms(2) handler_machine.reach_inv by metis
qed

section \<open>Properties\<close>

text \<open>C27. The connection handler always answers. For a socket whose fused stream keeps reporting its
  end, in every reachable state: polling returns (no index is out of range, and closing substreams
  does not loop), every command is handled (sending never indexes an empty list of substreams),
  the state is never poisoned, and the connection is killed only after a disable.\<close>

theorem handler_total:
  assumes "fused f" "reach handler_init (handler_step f) (d, h)"
  shows "(\<exists>r h'. handler_poll f timer now h = Some (r, h') \<and>
      (r = ConnectionKillError \<longrightarrow> h_state h = HKillAsap)) \<and>
    (\<exists>h'. inject_event now m h = Some h') \<and> h_state h \<noteq> HPoisoned"
proof -
  have inv: "handler_inv f (d, h)" by (rule handler_reach_inv [OF assms])
  have "inject_event now m h \<noteq> None"
    using inv by (auto simp: inject_event_def send_message_def handler_inv_def state_ok_def
        split: handler_in.splits protocol_state.splits list.splits)
  moreover have "h_state h \<noteq> HPoisoned" using inv by (auto simp: handler_inv_def state_ok_def)
  ultimately show ?thesis using handler_poll_inv [OF assms(1) inv, of timer now] by blast
qed

theorem handler_total_witness:
  "fused example_framed \<and>
   (\<exists>r h'. handler_poll example_framed (\<lambda>_. TimerNotReady) 0
      (into_handler 0 (registered_protocol_new [] []) Dialer) = Some (r, h'))"
proof -
  have "fused example_framed" by (simp add: fused_def example_framed_def)
  moreover have "reach handler_init (handler_step example_framed)
      ([], into_handler 0 (registered_protocol_new [] []) Dialer)"
    by (rule reach_init) (auto simp: handler_init_def)
  ultimately show ?thesis using handler_total by blast
qed

text \<open>C26. The events a handler delivers make sense: opened and closed strictly alternate, starting
  with opened, and a message or a clogging report is delivered only while the protocol is open.
  This is what the behaviour relies on to track open peers.\<close>

theorem handler_events_alternate:
  assumes "fused f" "reach handler_init (handler_step f) (d, h)"
  shows "alternates False d"
  using handler_reach_inv [OF assms] by (simp add: handler_inv_def alternates_append)

theorem handler_events_alternate_witness:
  "\<exists>h. reach handler_init (handler_step example_framed) ([OutboundSubstreamRequest], h) \<and>
     alternates False [OutboundSubstreamRequest]"
proof -
  let ?h = "into_handler 0 (registered_protocol_new [] []) Dialer :: bytes list handler"
  have f: "fused example_framed" by (simp add: fused_def example_framed_def)
  have "reach handler_init (handler_step example_framed) ([], ?h)"
    by (rule reach_init) (auto simp: handler_init_def)
  then have "reach handler_init (handler_step example_framed) ([], enable 0 ?h)"
    by (rule reach_step) (rule hs_event [of 0 HandlerEnable], simp add: inject_event_def)
  then have r: "reach handler_init (handler_step example_framed)
      ([] @ [OutboundSubstreamRequest], (enable 0 ?h)\<lparr>events_queue := []\<rparr>)"
    by (rule reach_step)
       (rule hs_ready, simp add: handler_poll_def enable_def into_handler_def push_event_def)
  from handler_events_alternate [OF f r] r show ?thesis by auto
qed

end
