(* ===== verification/Custom_Proto.thy ===== *)
theory Custom_Proto
  imports Peerset_Manager Proto_Handler
begin

text \<open>
  The network behaviour that opens the custom protocol
  (\<open>network-libp2p/src/custom_proto/behaviour.rs\<close>): per-peer state, the pending incoming
  connections, and the mediation between libp2p, the connection handlers and the peer set
  manager. \<open>ConnectedPoint\<close> is libp2p's: a type parameter \<open>'c\<close> with a test for listeners. Readings
  of the clock come from \<open>clk\<close>; a panic of the peer set manager is passed on.
\<close>

section \<open>Data\<close>

datatype 'c peer_state =
    Poisoned
  | Banned nat
  | PendingRequest nat
  | Requested
  | Disabled 'c bool "nat option"
  | DisabledPendingEnable 'c bool nat
  | Enabled 'c bool
  | Incoming 'c

record 'p incoming_peer =
  ip_peer_id :: 'p
  alive :: bool
  incoming_id :: incoming_index

datatype ('p, 'c) custom_proto_out =
    CustomProtocolOpen u8 'p 'c
  | CustomProtocolClosed 'p string
  | CustomMessage 'p bytes
  | Clogged 'p "bytes list"

text \<open>The part of libp2p's \<open>NetworkBehaviourAction\<close> that the code builds.\<close>

datatype ('p, 'c) cp_action =
    DialPeer 'p
  | SendEvent 'p handler_in
  | GenerateEvent "('p, 'c) custom_proto_out"

record ('p, 'c) custom_proto =
  cp_protocol :: registered_protocol
  cp_peerset :: "'p peerset"
  cp_peers :: "('p \<times> 'c peer_state) list"
  cp_incoming :: "'p incoming_peer list"
  next_incoming_index :: incoming_index
  cp_events :: "('p, 'c) cp_action list"

fun peer_state_is_open :: "'c peer_state \<Rightarrow> bool" where
  "peer_state_is_open (Disabled _ b _) = b"
| "peer_state_is_open (DisabledPendingEnable _ b _) = b"
| "peer_state_is_open (Enabled _ b) = b"
| "peer_state_is_open _ = False"

section \<open>Operations\<close>

definition custom_proto_new :: "bytes \<Rightarrow> u8 list \<Rightarrow> 'p peerset \<Rightarrow> ('p, 'c) custom_proto" where
  "custom_proto_new protocol versions ps =
     \<lparr>cp_protocol = registered_protocol_new protocol versions, cp_peerset = ps, cp_peers = [],
      cp_incoming = [], next_incoming_index = 0, cp_events = []\<rparr>"

definition open_peers :: "('p, 'c) custom_proto \<Rightarrow> 'p list" where
  "open_peers s = map fst (filter (\<lambda>(_, st). peer_state_is_open st) (cp_peers s))"

definition is_open :: "('p, 'c) custom_proto \<Rightarrow> 'p \<Rightarrow> bool" where
  "is_open s p = (case map_of (cp_peers s) p of None \<Rightarrow> False | Some st \<Rightarrow> peer_state_is_open st)"

definition is_enabled :: "('p, 'c) custom_proto \<Rightarrow> 'p \<Rightarrow> bool" where
  "is_enabled s p = (case map_of (cp_peers s) p of Some (Enabled _ _) \<Rightarrow> True | _ \<Rightarrow> False)"

definition set_peer :: "'p \<Rightarrow> 'c peer_state \<Rightarrow> ('p, 'c) custom_proto \<Rightarrow> ('p, 'c) custom_proto" where
  "set_peer p st s = s\<lparr>cp_peers := AList.update p st (cp_peers s)\<rparr>"

definition remove_peer :: "'p \<Rightarrow> ('p, 'c) custom_proto \<Rightarrow> ('p, 'c) custom_proto" where
  "remove_peer p s = s\<lparr>cp_peers := AList.delete p (cp_peers s)\<rparr>"

definition emit :: "('p, 'c) cp_action \<Rightarrow> ('p, 'c) custom_proto \<Rightarrow> ('p, 'c) custom_proto" where
  "emit a s = s\<lparr>cp_events := cp_events s @ [a]\<rparr>"

definition psm_dropped ::
  "(nat \<Rightarrow> nat) \<Rightarrow> 'p \<Rightarrow> ('p, 'c) custom_proto \<Rightarrow> psm_panic + ('p, 'c) custom_proto" where
  "psm_dropped clk p s =
     try_bind (dropped (clk 0) (clk 1) p (cp_peerset s)) (\<lambda>ps. Inr (s\<lparr>cp_peerset := ps\<rparr>))"

text \<open>\<open>iter_mut().find(..)\<close> followed by \<open>alive = false\<close>: the first entry that satisfies the test, or
  \<open>None\<close> without one.\<close>

fun kill_first :: "('p incoming_peer \<Rightarrow> bool) \<Rightarrow> 'p incoming_peer list \<Rightarrow> 'p incoming_peer list option" where
  "kill_first P [] = None"
| "kill_first P (i # is) =
     (if P i then Some (i\<lparr>alive := False\<rparr> # is) else map_option ((#) i) (kill_first P is))"

definition disconnect_peer_inner ::
  "(nat \<Rightarrow> nat) \<Rightarrow> 'p \<Rightarrow> nat option \<Rightarrow> ('p, 'c) custom_proto \<Rightarrow> psm_panic + ('p, 'c) custom_proto" where
  "disconnect_peer_inner clk p ban s =
     (case map_of (cp_peers s) p of
        None \<Rightarrow> Inr s
      | Some (Disabled _ _ _) \<Rightarrow> Inr s
      | Some Requested \<Rightarrow> Inr s
      | Some (PendingRequest _) \<Rightarrow> Inr s
      | Some (Banned _) \<Rightarrow> Inr s
      | Some (DisabledPendingEnable c op timer_deadline) \<Rightarrow>
          try_bind (psm_dropped clk p s) (\<lambda>s.
            (let banned_until = Some (case ban of
                   Some b \<Rightarrow> max timer_deadline (clk 2 + b) | None \<Rightarrow> timer_deadline)
             in Inr (set_peer p (Disabled c op banned_until) s)))
      | Some (Enabled c op) \<Rightarrow>
          try_bind (psm_dropped clk p s) (\<lambda>s.
            Inr (set_peer p (Disabled c op (map_option (\<lambda>b. clk 2 + b) ban))
                   (emit (SendEvent p HandlerDisable) s)))
      | Some (Incoming c) \<Rightarrow>
          (case kill_first (\<lambda>i. ip_peer_id i = p \<and> alive i) (cp_incoming s) of
             None \<Rightarrow> Inr (set_peer p Poisoned s)
           | Some is \<Rightarrow>
               Inr (set_peer p (Disabled c False (map_option (\<lambda>b. clk 2 + b) ban))
                      (emit (SendEvent p HandlerDisable) (s\<lparr>cp_incoming := is\<rparr>))))
      | Some Poisoned \<Rightarrow> Inr s)"

definition disconnect_peer ::
  "(nat \<Rightarrow> nat) \<Rightarrow> 'p \<Rightarrow> ('p, 'c) custom_proto \<Rightarrow> psm_panic + ('p, 'c) custom_proto" where
  "disconnect_peer clk p s = disconnect_peer_inner clk p None s"

definition send_packet :: "'p \<Rightarrow> bytes \<Rightarrow> ('p, 'c) custom_proto \<Rightarrow> ('p, 'c) custom_proto" where
  "send_packet p m s = (if \<not> is_open s p then s else emit (SendEvent p (SendCustomMessage m)) s)"

section \<open>Instructions of the peer set manager\<close>

definition peerset_report_connect ::
  "(nat \<Rightarrow> nat) \<Rightarrow> 'p \<Rightarrow> ('p, 'c) custom_proto \<Rightarrow> ('p, 'c) custom_proto" where
  "peerset_report_connect clk p s =
     (case map_of (cp_peers s) p of
        None \<Rightarrow> set_peer p Requested (emit (DialPeer p) s)
      | Some (Banned until) \<Rightarrow>
          (if until > clk 0 then set_peer p (PendingRequest until) s
           else set_peer p Requested (emit (DialPeer p) s))
      | Some (Disabled c op banned_until) \<Rightarrow>
          (case banned_until of
             Some banned \<Rightarrow>
               (if banned > clk 0 then set_peer p (DisabledPendingEnable c op banned) s
                else set_peer p (Enabled c op) (emit (SendEvent p HandlerEnable) s))
           | None \<Rightarrow> set_peer p (Enabled c op) (emit (SendEvent p HandlerEnable) s))
      | Some (Incoming c) \<Rightarrow>
          (let is = (case kill_first (\<lambda>i. ip_peer_id i = p \<and> alive i) (cp_incoming s) of
                       Some is \<Rightarrow> is | None \<Rightarrow> cp_incoming s)
           in set_peer p (Enabled c False) (emit (SendEvent p HandlerEnable) (s\<lparr>cp_incoming := is\<rparr>)))
      | Some (Enabled _ _) \<Rightarrow> s
      | Some (DisabledPendingEnable _ _ _) \<Rightarrow> s
      | Some Requested \<Rightarrow> s
      | Some (PendingRequest _) \<Rightarrow> s
      | Some Poisoned \<Rightarrow> s)"

definition peerset_report_disconnect ::
  "'p \<Rightarrow> ('p, 'c) custom_proto \<Rightarrow> ('p, 'c) custom_proto" where
  "peerset_report_disconnect p s =
     (case map_of (cp_peers s) p of
        None \<Rightarrow> s
      | Some (Disabled _ _ _) \<Rightarrow> s
      | Some (Banned _) \<Rightarrow> s
      | Some (DisabledPendingEnable c op timer_deadline) \<Rightarrow>
          set_peer p (Disabled c op (Some timer_deadline)) s
      | Some (Enabled c op) \<Rightarrow>
          set_peer p (Disabled c op None) (emit (SendEvent p HandlerDisable) s)
      | Some (Incoming _) \<Rightarrow> s
      | Some Requested \<Rightarrow> remove_peer p s
      | Some (PendingRequest timer_deadline) \<Rightarrow> set_peer p (Banned timer_deadline) s
      | Some Poisoned \<Rightarrow> s)"

text \<open>\<open>position\<close> and \<open>remove\<close> by incoming index.\<close>

fun take_incoming ::
  "incoming_index \<Rightarrow> 'p incoming_peer list \<Rightarrow> ('p incoming_peer \<times> 'p incoming_peer list) option" where
  "take_incoming index [] = None"
| "take_incoming index (i # is) =
     (if incoming_id i = index then Some (i, is)
      else map_option (\<lambda>(j, js). (j, i # js)) (take_incoming index is))"

definition peerset_report_accept ::
  "(nat \<Rightarrow> nat) \<Rightarrow> incoming_index \<Rightarrow> ('p, 'c) custom_proto \<Rightarrow> psm_panic + ('p, 'c) custom_proto" where
  "peerset_report_accept clk index s =
     (case take_incoming index (cp_incoming s) of
        None \<Rightarrow> Inr s
      | Some (i, is) \<Rightarrow>
          (let s = s\<lparr>cp_incoming := is\<rparr>
           in if \<not> alive i then psm_dropped clk (ip_peer_id i) s
              else (case map_of (cp_peers s) (ip_peer_id i) of
                      Some (Incoming c) \<Rightarrow>
                        Inr (set_peer (ip_peer_id i) (Enabled c False)
                               (emit (SendEvent (ip_peer_id i) HandlerEnable) s))
                    | _ \<Rightarrow> Inr s)))"

definition peerset_report_reject ::
  "incoming_index \<Rightarrow> ('p, 'c) custom_proto \<Rightarrow> ('p, 'c) custom_proto" where
  "peerset_report_reject index s =
     (case take_incoming index (cp_incoming s) of
        None \<Rightarrow> s
      | Some (i, is) \<Rightarrow>
          (let s = s\<lparr>cp_incoming := is\<rparr>
           in if \<not> alive i then s
              else (case map_of (cp_peers s) (ip_peer_id i) of
                      Some (Incoming c) \<Rightarrow>
                        set_peer (ip_peer_id i) (Disabled c False None)
                          (emit (SendEvent (ip_peer_id i) HandlerDisable) s)
                    | _ \<Rightarrow> s)))"

definition add_discovered_nodes ::
  "(nat \<Rightarrow> nat) \<Rightarrow> 'p list \<Rightarrow> ('p, 'c) custom_proto \<Rightarrow> psm_panic + ('p, 'c) custom_proto" where
  "add_discovered_nodes clk ps s =
     try_bind (discovered (clk 0) ps (cp_peerset s)) (\<lambda>d. Inr (s\<lparr>cp_peerset := d\<rparr>))"

section \<open>Events from libp2p and the handlers\<close>

definition inject_connected ::
  "('c \<Rightarrow> bool) \<Rightarrow> (nat \<Rightarrow> nat) \<Rightarrow> 'p \<Rightarrow> 'c \<Rightarrow> ('p, 'c) custom_proto \<Rightarrow> psm_panic + ('p, 'c) custom_proto" where
  "inject_connected is_listener clk p c s =
     (let st = (case map_of (cp_peers s) p of None \<Rightarrow> Poisoned | Some st \<Rightarrow> st);
          s = set_peer p st s;
          connect = Inr (set_peer p (Enabled c False) (emit (SendEvent p HandlerEnable) s));
          arrive =
            (if next_incoming_index s = - 1 then Inr s
             else (let index = next_incoming_index s; s = s\<lparr>next_incoming_index := index + 1\<rparr>
                   in try_bind (incoming (clk 0) p index (cp_peerset s)) (\<lambda>ps.
                        Inr (set_peer p (Incoming c)
                          (s\<lparr>cp_peerset := ps,
                             cp_incoming := cp_incoming s @
                               [\<lparr>ip_peer_id = p, alive = True, incoming_id = index\<rparr>]\<rparr>)))));
          idle = (\<lambda>banned. Inr (set_peer p (Disabled c False banned) (emit (SendEvent p HandlerDisable) s)))
      in case st of
           Requested \<Rightarrow> connect
         | PendingRequest _ \<Rightarrow> connect
         | Poisoned \<Rightarrow> if is_listener c then arrive else idle None
         | Banned until \<Rightarrow> if is_listener c then arrive else idle (Some until)
         | _ \<Rightarrow> Inr s)"

definition report_closed :: "'p \<Rightarrow> bool \<Rightarrow> ('p, 'c) custom_proto \<Rightarrow> ('p, 'c) custom_proto" where
  "report_closed p op s =
     (if op then emit (GenerateEvent (CustomProtocolClosed p ''Disconnected by libp2p'')) s else s)"

text \<open>\<open>ban_dur\<close> is the random number of seconds drawn between 5 and 10.\<close>

definition inject_disconnected ::
  "(nat \<Rightarrow> nat) \<Rightarrow> nat \<Rightarrow> 'p \<Rightarrow> ('p, 'c) custom_proto \<Rightarrow> psm_panic + ('p, 'c) custom_proto" where
  "inject_disconnected clk ban_dur p s =
     (let s' = remove_peer p s
      in case map_of (cp_peers s) p of
           None \<Rightarrow> Inr s'
         | Some Requested \<Rightarrow> Inr s'
         | Some (PendingRequest _) \<Rightarrow> Inr s'
         | Some (Banned _) \<Rightarrow> Inr s'
         | Some (Disabled _ op banned_until) \<Rightarrow>
             Inr (report_closed p op
               (case banned_until of Some until \<Rightarrow> set_peer p (Banned until) s' | None \<Rightarrow> s'))
         | Some (DisabledPendingEnable _ op timer_deadline) \<Rightarrow>
             try_bind (psm_dropped clk p s') (\<lambda>s.
               Inr (report_closed p op (set_peer p (Banned timer_deadline) s)))
         | Some (Enabled _ op) \<Rightarrow>
             try_bind (psm_dropped clk p s') (\<lambda>s.
               Inr (report_closed p op (set_peer p (Banned (clk 2 + from_secs ban_dur)) s)))
         | Some (Incoming _) \<Rightarrow>
             (case kill_first (\<lambda>i. ip_peer_id i = p) (cp_incoming s') of
                Some is \<Rightarrow> Inr (s'\<lparr>cp_incoming := is\<rparr>)
              | None \<Rightarrow> Inr s')
         | Some Poisoned \<Rightarrow> Inr s')"

definition inject_dial_failure ::
  "(nat \<Rightarrow> nat) \<Rightarrow> 'p \<Rightarrow> ('p, 'c) custom_proto \<Rightarrow> psm_panic + ('p, 'c) custom_proto" where
  "inject_dial_failure clk p s =
     (let fail = psm_dropped (\<lambda>i. clk (Suc i)) p (set_peer p (Banned (clk 0 + from_secs 5)) s)
      in case map_of (cp_peers s) p of
           Some Requested \<Rightarrow> fail
         | Some (PendingRequest _) \<Rightarrow> fail
         | _ \<Rightarrow> Inr s)"

definition node_closed ::
  "(nat \<Rightarrow> nat) \<Rightarrow> 'p \<Rightarrow> string \<Rightarrow> ('p, 'c) custom_proto \<Rightarrow> psm_panic + ('p, 'c) custom_proto" where
  "node_closed clk p reason s =
     (case map_of (cp_peers s) p of
        None \<Rightarrow> Inr s
      | Some st \<Rightarrow>
          (let s = emit (GenerateEvent (CustomProtocolClosed p reason)) s
           in case st of
                Enabled c _ \<Rightarrow>
                  try_bind (psm_dropped clk p s) (\<lambda>s.
                    Inr (set_peer p (Disabled c False None) (emit (SendEvent p HandlerDisable) s)))
              | Disabled c _ banned_until \<Rightarrow> Inr (set_peer p (Disabled c False banned_until) s)
              | DisabledPendingEnable c _ deadline \<Rightarrow>
                  Inr (set_peer p (DisabledPendingEnable c False deadline) s)
              | _ \<Rightarrow> Inr (set_peer p Poisoned s)))"

definition node_open :: "'p \<Rightarrow> u8 \<Rightarrow> ('p, 'c) custom_proto \<Rightarrow> ('p, 'c) custom_proto" where
  "node_open p version s =
     (case map_of (cp_peers s) p of
        Some (Enabled c False) \<Rightarrow>
          emit (GenerateEvent (CustomProtocolOpen version p c)) (set_peer p (Enabled c True) s)
      | Some (DisabledPendingEnable c False deadline) \<Rightarrow>
          emit (GenerateEvent (CustomProtocolOpen version p c))
            (set_peer p (DisabledPendingEnable c True deadline) s)
      | Some (Disabled c False banned_until) \<Rightarrow>
          emit (GenerateEvent (CustomProtocolOpen version p c))
            (set_peer p (Disabled c True banned_until) s)
      | _ \<Rightarrow> s)"

definition inject_node_event ::
  "(nat \<Rightarrow> nat) \<Rightarrow> 'p \<Rightarrow> handler_out \<Rightarrow> ('p, 'c) custom_proto \<Rightarrow> psm_panic + ('p, 'c) custom_proto" where
  "inject_node_event clk p ev s =
     (case ev of
        HandlerClosed reason \<Rightarrow> node_closed clk p reason s
      | HandlerOpen version \<Rightarrow> Inr (node_open p version s)
      | HandlerMessage m \<Rightarrow> Inr (emit (GenerateEvent (CustomMessage p m)) s)
      | HandlerClogged ms \<Rightarrow> Inr (emit (GenerateEvent (Clogged p ms)) s)
      | ProtocolError is_severe _ \<Rightarrow>
          (if \<not> is_severe then Inr s
           else disconnect_peer_inner clk p (Some (from_secs 5))
             (s\<lparr>cp_peerset := report_peer p (reputation_change_new i32_min ''Protocol error'')
                  (cp_peerset s)\<rparr>)))"

section \<open>Polling\<close>

definition peerset_report ::
  "(nat \<Rightarrow> nat) \<Rightarrow> 'p message \<Rightarrow> ('p, 'c) custom_proto \<Rightarrow> psm_panic + ('p, 'c) custom_proto" where
  "peerset_report clk m s =
     (case m of
        Accept index \<Rightarrow> peerset_report_accept clk index s
      | Reject index \<Rightarrow> Inr (peerset_report_reject index s)
      | Connect p \<Rightarrow> Inr (peerset_report_connect clk p s)
      | Drop p \<Rightarrow> Inr (peerset_report_disconnect p s))"

lemma poll_next_decreases:
  "poll_next now ps = Inr (Some m, qs) \<Longrightarrow>
     length (rx qs) < length (rx ps) \<or> rx qs = rx ps \<and> length (message_queue qs) < length (message_queue ps)"
proof (induction now ps rule: poll_next.induct)
  case (1 now ps)
  show ?case
  proof (cases "message_queue ps")
    case Nil
    with 1(2) obtain a as t where t: "rx ps = a # as" "on_action (now 0) a (ps\<lparr>rx := as\<rparr>) = Inr t"
      "poll_next (\<lambda>i. now (Suc i)) t = Inr (Some m, qs)"
      by (auto simp: poll_next.simps [of now ps] split: list.splits sum.splits)
    with 1(1) [OF Nil t(1,2,3)] on_action_rx [OF t(2)] show ?thesis by auto
  qed (use 1(2) in \<open>auto simp: poll_next.simps [of now ps]\<close>)
qed

lemma take_incoming_length: "take_incoming index is = Some (i, js) \<Longrightarrow> length js < length is"
  by (induction "is" arbitrary: js) (auto split: if_splits)

lemma kill_first_length: "kill_first P is = Some js \<Longrightarrow> length js = length is"
  by (induction "is" arbitrary: js) (auto split: if_splits)

lemma set_peer_simps [simp]:
  "cp_peerset (set_peer p st s) = cp_peerset s" "cp_incoming (set_peer p st s) = cp_incoming s"
  "cp_events (set_peer p st s) = cp_events s"
  "next_incoming_index (set_peer p st s) = next_incoming_index s"
  "cp_peers (set_peer p st s) = AList.update p st (cp_peers s)"
  by (simp_all add: set_peer_def)

lemma remove_peer_simps [simp]:
  "cp_peerset (remove_peer p s) = cp_peerset s" "cp_incoming (remove_peer p s) = cp_incoming s"
  "cp_events (remove_peer p s) = cp_events s"
  "next_incoming_index (remove_peer p s) = next_incoming_index s"
  "cp_peers (remove_peer p s) = AList.delete p (cp_peers s)"
  by (simp_all add: remove_peer_def)

lemma emit_simps [simp]:
  "cp_peerset (emit a s) = cp_peerset s" "cp_incoming (emit a s) = cp_incoming s"
  "cp_events (emit a s) = cp_events s @ [a]" "next_incoming_index (emit a s) = next_incoming_index s"
  "cp_peers (emit a s) = cp_peers s"
  by (simp_all add: emit_def)

lemma psm_dropped_Inr:
  "psm_dropped clk p s = Inr t \<longleftrightarrow> (\<exists>ps. dropped (clk 0) (clk 1) p (cp_peerset s) = Inr ps \<and> t = s\<lparr>cp_peerset := ps\<rparr>)"
  by (auto simp: psm_dropped_def try_iffs)

lemma peerset_report_decreases:
  assumes "peerset_report clk m s = Inr t"
  shows "length (cp_incoming t) < length (cp_incoming s) \<or>
     length (cp_incoming t) = length (cp_incoming s) \<and> cp_peerset t = cp_peerset s"
proof (cases m)
  case (Connect p)
  then show ?thesis
    using assms by (auto simp: peerset_report_def peerset_report_connect_def Let_def dest: kill_first_length
        split: option.splits peer_state.splits if_splits)
next
  case (Drop p)
  then show ?thesis
    using assms by (auto simp: peerset_report_def peerset_report_disconnect_def
        split: option.splits peer_state.splits)
next
  case (Accept i)
  then show ?thesis
    using assms by (auto simp: peerset_report_def peerset_report_accept_def Let_def psm_dropped_Inr
        dest!: take_incoming_length split: option.splits peer_state.splits prod.splits if_splits)
next
  case (Reject i)
  then show ?thesis
    using assms by (auto simp: peerset_report_def peerset_report_reject_def Let_def
        dest!: take_incoming_length split: option.splits peer_state.splits prod.splits if_splits)
qed

text \<open>The first loop of \<open>poll\<close>: carry out the messages of the peer set manager until it has none.
  In turn \<open>i\<close> the manager reads the clock \<open>now i\<close> and the instruction \<open>clk i\<close>.\<close>

function poll_peerset ::
  "(nat \<Rightarrow> nat \<Rightarrow> nat) \<Rightarrow> (nat \<Rightarrow> nat \<Rightarrow> nat) \<Rightarrow> ('p, 'c) custom_proto \<Rightarrow> psm_panic + ('p, 'c) custom_proto" where
  "poll_peerset now clk s =
     (case poll_next (now 0) (cp_peerset s) of
        Inl e \<Rightarrow> Inl e
      | Inr (None, ps) \<Rightarrow> Inr (s\<lparr>cp_peerset := ps\<rparr>)
      | Inr (Some m, ps) \<Rightarrow>
          (case peerset_report (clk 0) m (s\<lparr>cp_peerset := ps\<rparr>) of
             Inl e \<Rightarrow> Inl e
           | Inr t \<Rightarrow> poll_peerset (\<lambda>i. now (Suc i)) (\<lambda>i. clk (Suc i)) t))"
  by pat_completeness auto
termination
proof (relation "measures [\<lambda>(_, _, s). length (cp_incoming s), \<lambda>(_, _, s). length (rx (cp_peerset s)),
    \<lambda>(_, _, s). length (message_queue (cp_peerset s))]", goal_cases)
  case (2 now clk s r p m ps t)
  then show ?case
    using peerset_report_decreases [of "clk 0" _ "s\<lparr>cp_peerset := _\<rparr>" t] poll_next_decreases [of "now 0" "cp_peerset s"]
    by fastforce
qed simp

declare poll_peerset.simps [simp del]

text \<open>The second loop: timers that have fired turn delayed requests into dials and delayed
  enables into enables.\<close>

fun poll_timers ::
  "(nat \<Rightarrow> timer_poll) \<Rightarrow> ('p \<times> 'c peer_state) list \<Rightarrow> ('p \<times> 'c peer_state) list \<times> ('p, 'c) cp_action list" where
  "poll_timers timer [] = ([], [])"
| "poll_timers timer ((p, st) # ps) =
     (case poll_timers timer ps of (qs, es) \<Rightarrow>
        (case st of
           PendingRequest deadline \<Rightarrow>
             (if timer deadline = TimerNotReady then ((p, st) # qs, es)
              else ((p, Requested) # qs, DialPeer p # es))
         | DisabledPendingEnable c op deadline \<Rightarrow>
             (if timer deadline = TimerNotReady then ((p, st) # qs, es)
              else ((p, Enabled c op) # qs, SendEvent p HandlerEnable # es))
         | _ \<Rightarrow> ((p, st) # qs, es)))"

definition poll_work ::
  "(nat \<Rightarrow> nat \<Rightarrow> nat) \<Rightarrow> (nat \<Rightarrow> nat \<Rightarrow> nat) \<Rightarrow> (nat \<Rightarrow> timer_poll) \<Rightarrow> ('p, 'c) custom_proto \<Rightarrow>
     psm_panic + ('p, 'c) custom_proto" where
  "poll_work now clk timer s =
     try_bind (poll_peerset now clk s) (\<lambda>s.
       (case poll_timers timer (cp_peers s) of (ps, es) \<Rightarrow>
          Inr (s\<lparr>cp_peers := ps, cp_events := cp_events s @ es\<rparr>)))"

definition cp_poll ::
  "(nat \<Rightarrow> nat \<Rightarrow> nat) \<Rightarrow> (nat \<Rightarrow> nat \<Rightarrow> nat) \<Rightarrow> (nat \<Rightarrow> timer_poll) \<Rightarrow> ('p, 'c) custom_proto \<Rightarrow>
     psm_panic + (('p, 'c) cp_action option \<times> ('p, 'c) custom_proto)" where
  "cp_poll now clk timer s =
     try_bind (poll_work now clk timer s) (\<lambda>s.
       (case cp_events s of
          [] \<Rightarrow> Inr (None, s)
        | e # rest \<Rightarrow> Inr (Some e, s\<lparr>cp_events := rest\<rparr>)))"

section \<open>The bookkeeping of incoming connections\<close>

definition live :: "'p \<Rightarrow> 'p incoming_peer list \<Rightarrow> bool" where
  "live p is \<longleftrightarrow> (\<exists>i \<in> set is. ip_peer_id i = p \<and> alive i)"

lemma live_simps [simp]:
  "live p [] = False" "live p (i # is) \<longleftrightarrow> ip_peer_id i = p \<and> alive i \<or> live p is"
  "live p (is @ js) \<longleftrightarrow> live p is \<or> live p js"
  by (auto simp: live_def)

lemma kill_first_Some:
  assumes "kill_first P is = Some js" "\<And>i. P i \<Longrightarrow> ip_peer_id i = p"
  shows "map incoming_id js = map incoming_id is" "q \<noteq> p \<Longrightarrow> live q js = live q is"
  using assms(1)
proof (induction "is" arbitrary: js)
  case (Cons i "is")
  { case 1 then show ?case using Cons(1) by (auto split: if_splits) }
  { case 2 then show ?case using Cons(2) assms(2) by (auto split: if_splits) }
qed simp_all

lemma kill_first_None: "kill_first P is = None \<longleftrightarrow> (\<forall>i \<in> set is. \<not> P i)"
  by (induction "is") auto

lemma kill_live: "live p is \<Longrightarrow> \<exists>js. kill_first (\<lambda>i. ip_peer_id i = p \<and> alive i) is = Some js"
  using kill_first_None [of "\<lambda>i. ip_peer_id i = p \<and> alive i" "is"] by (auto simp: live_def)

lemma take_incoming_Some:
  assumes "take_incoming index is = Some (i, js)"
  shows "i \<in> set is" "set js \<subseteq> set is" "distinct (map incoming_id is) \<Longrightarrow> distinct (map incoming_id js)"
    "live q is \<Longrightarrow> live q js \<or> q = ip_peer_id i \<and> alive i"
proof -
  have "\<exists>as bs. is = as @ i # bs \<and> js = as @ bs"
    using assms
  proof (induction "is" arbitrary: js)
    case (Cons k "is")
    show ?case
    proof (cases "incoming_id k = index")
      case True
      with Cons.prems show ?thesis by (intro exI [of _ "[]"] exI [of _ js]) simp
    next
      case False
      with Cons.prems obtain ks where "take_incoming index is = Some (i, ks)" "js = k # ks" by auto
      with Cons.IH [of ks] show ?thesis by (metis append_Cons)
    qed
  qed simp
  then show "i \<in> set is" "set js \<subseteq> set is" "distinct (map incoming_id is) \<Longrightarrow> distinct (map incoming_id js)"
    "live q is \<Longrightarrow> live q js \<or> q = ip_peer_id i \<and> alive i" by auto
qed

text \<open>The invariant: the peer set manager is consistent, no entry is left poisoned, every peer in
  the incoming state has a live entry, and the indices of the entries are pairwise different and
  have all been handed out.\<close>

definition cp_inv :: "('p, 'c) custom_proto \<Rightarrow> bool" where
  "cp_inv s \<longleftrightarrow> psm_inv (cp_peerset s) \<and> distinct (map fst (cp_peers s)) \<and>
     (\<forall>p. map_of (cp_peers s) p \<noteq> Some Poisoned) \<and>
     (\<forall>p c. map_of (cp_peers s) p = Some (Incoming c) \<longrightarrow> live p (cp_incoming s)) \<and>
     distinct (map incoming_id (cp_incoming s)) \<and>
     (\<forall>i \<in> set (cp_incoming s). incoming_id i < next_incoming_index s)"

text \<open>Changing one peer, with an incoming list that loses no live entry of another peer.\<close>

lemma cp_inv_set:
  assumes "cp_inv s" "psm_inv (cp_peerset t)" "cp_peers t = AList.update p st (cp_peers s)" "st \<noteq> Poisoned"
    and "\<And>q. q \<noteq> p \<Longrightarrow> live q (cp_incoming s) \<Longrightarrow> live q (cp_incoming t)"
    and "\<And>c. st = Incoming c \<Longrightarrow> live p (cp_incoming t)"
    and "distinct (map incoming_id (cp_incoming t))"
    and "\<forall>i \<in> set (cp_incoming t). incoming_id i < next_incoming_index t"
  shows "cp_inv t"
  using assms by (auto simp: cp_inv_def split: if_splits)

lemma cp_inv_frame:
  assumes "cp_inv s" "psm_inv (cp_peerset t)" "cp_peers t = cp_peers s"
    and "cp_incoming t = cp_incoming s" "next_incoming_index t = next_incoming_index s"
  shows "cp_inv t"
  using assms by (simp add: cp_inv_def)

lemma cp_inv_update:
  assumes "cp_inv s" "psm_inv (cp_peerset t)" "cp_peers t = AList.update p st (cp_peers s)"
    and "cp_incoming t = cp_incoming s" "next_incoming_index t = next_incoming_index s"
    and "st \<noteq> Poisoned" "\<And>c. st \<noteq> Incoming c"
  shows "cp_inv t"
  using cp_inv_set [OF assms(1-3,6)] assms(1,4,5,7) by (simp add: cp_inv_def)

lemma cp_inv_remove:
  assumes "cp_inv s" "psm_inv (cp_peerset t)" "cp_peers t = AList.delete p (cp_peers s)"
    and "cp_incoming t = cp_incoming s" "next_incoming_index t = next_incoming_index s"
  shows "cp_inv t"
  using assms by (auto simp: cp_inv_def delete_conv' split: if_splits)

lemma cp_inv_kill:
  assumes "cp_inv s" "psm_inv (cp_peerset t)" "cp_peers t = AList.update p st (cp_peers s)"
    and "kill_first P (cp_incoming s) = Some (cp_incoming t)" "\<And>i. P i \<Longrightarrow> ip_peer_id i = p"
    and "next_incoming_index t = next_incoming_index s" "st \<noteq> Poisoned" "\<And>c. st \<noteq> Incoming c"
  shows "cp_inv t"
proof -
  note k = kill_first_Some [OF assms(4,5)]
  have "\<forall>i \<in> set (cp_incoming t). incoming_id i < next_incoming_index t"
    using assms(1,6) k(1) unfolding cp_inv_def by (metis (no_types, lifting) imageE image_eqI list.set_map)
  then show ?thesis
    using cp_inv_set [OF assms(1-3,7)] assms(1,8) k by (simp add: cp_inv_def)
qed

section \<open>Every operation keeps the invariant and returns\<close>

definition cp_ok :: "('p, 'c) custom_proto \<Rightarrow> psm_panic + ('p, 'c) custom_proto \<Rightarrow> bool" where
  "cp_ok s r \<longleftrightarrow> (cp_inv s \<longrightarrow> (\<exists>t. r = Inr t \<and> cp_inv t))"

lemma psm_dropped_ok:
  assumes "psm_inv (cp_peerset s)"
  obtains ps where "psm_dropped clk p s = Inr (s\<lparr>cp_peerset := ps\<rparr>)" "psm_inv ps"
  using assms dropped_safe [of "clk 0" "clk 1" p] by (auto simp: psm_dropped_def safe_def)

lemma psm_dropped_bind:
  assumes "\<And>ps. cp_inv s \<Longrightarrow> psm_inv ps \<Longrightarrow> cp_ok s (f (s\<lparr>cp_peerset := ps\<rparr>))"
  shows "cp_ok s (try_bind (psm_dropped clk p s) f)"
  unfolding cp_ok_def
proof
  assume inv: "cp_inv s"
  then have "psm_inv (cp_peerset s)" by (simp add: cp_inv_def)
  then obtain ps where "psm_dropped clk p s = Inr (s\<lparr>cp_peerset := ps\<rparr>)" "psm_inv ps"
    by (rule psm_dropped_ok)
  with assms [OF inv] inv show "\<exists>t. try_bind (psm_dropped clk p s) f = Inr t \<and> cp_inv t"
    by (simp add: cp_ok_def)
qed

lemma cp_psm: "cp_inv s \<Longrightarrow> psm_inv (cp_peerset s)"
  by (simp add: cp_inv_def)

lemma cp_incoming_live:
  "cp_inv s \<Longrightarrow> map_of (cp_peers s) p = Some (Incoming c) \<Longrightarrow> live p (cp_incoming s)"
  by (auto simp: cp_inv_def)

lemma cp_not_poisoned: "cp_inv s \<Longrightarrow> map_of (cp_peers s) p \<noteq> Some Poisoned"
  by (simp add: cp_inv_def)

lemma cp_inv_set_peer:
  assumes "cp_inv s" "st \<noteq> Poisoned" "\<And>c. st \<noteq> Incoming c"
  shows "cp_inv (set_peer p st s)"
  by (rule cp_inv_update [OF assms(1), where p = p and st = st]) (simp_all add: assms cp_psm [OF assms(1)])

lemma cp_inv_emit [simp]: "cp_inv (emit e s) = cp_inv s"
  by (simp add: cp_inv_def)

lemma cp_inv_set_emit:
  assumes "cp_inv s" "st \<noteq> Poisoned" "\<And>c. st \<noteq> Incoming c"
  shows "cp_inv (set_peer p st (emit e s))"
  by (rule cp_inv_set_peer) (simp_all add: assms)

lemma cp_inv_remove_peer: "cp_inv s \<Longrightarrow> cp_inv (remove_peer p s)"
  by (rule cp_inv_remove [where p = p and s = s]) (simp_all add: cp_psm)

lemma cp_ok_Inr: "(cp_inv s \<Longrightarrow> cp_inv t) \<Longrightarrow> cp_ok s (Inr t)"
  by (simp add: cp_ok_def)

text \<open>The common shape: report the drop, then set the state of the peer and queue actions.\<close>

lemma dropped_set_ok:
  fixes g :: "('p, 'c) custom_proto \<Rightarrow> ('p, 'c) custom_proto"
  assumes "st \<noteq> Poisoned" "\<And>c. st \<noteq> Incoming c"
    and "\<And>s. cp_peerset (g s) = cp_peerset s \<and> cp_peers (g s) = AList.update p st (cp_peers s) \<and>
           cp_incoming (g s) = cp_incoming s \<and> next_incoming_index (g s) = next_incoming_index s"
  shows "cp_ok s (try_bind (psm_dropped clk p s) (\<lambda>s. Inr (g s)))"
proof (rule psm_dropped_bind)
  fix ps :: "'p peerset"
  assume "cp_inv s" "psm_inv ps"
  then have "cp_inv (g (s\<lparr>cp_peerset := ps\<rparr>))"
    by (rule_tac cp_inv_update [where p = p and st = st]) (simp_all add: assms)
  then show "cp_ok s (Inr (g (s\<lparr>cp_peerset := ps\<rparr>)))" by (simp add: cp_ok_def)
qed

lemma disconnect_peer_inner_ok: "cp_ok s (disconnect_peer_inner clk p ban s)"
proof (cases "map_of (cp_peers s) p")
  case None
  then show ?thesis by (simp add: disconnect_peer_inner_def cp_ok_def)
next
  case (Some st)
  show ?thesis
  proof (cases st)
    case (DisabledPendingEnable c op dl)
    then show ?thesis
      using Some dropped_set_ok [where st = "Disabled c op (Some (case ban of
          Some b \<Rightarrow> max dl (clk 2 + b) | None \<Rightarrow> dl))" and p = p
          and g = "\<lambda>s. set_peer p (Disabled c op (Some (case ban of
          Some b \<Rightarrow> max dl (clk 2 + b) | None \<Rightarrow> dl))) s"]
      by (simp add: disconnect_peer_inner_def)
  next
    case (Enabled c op)
    then show ?thesis
      using Some dropped_set_ok [where st = "Disabled c op (map_option (\<lambda>b. clk 2 + b) ban)" and p = p
          and g = "\<lambda>s. set_peer p (Disabled c op (map_option (\<lambda>b. clk 2 + b) ban))
            (emit (SendEvent p HandlerDisable) s)"]
      by (simp add: disconnect_peer_inner_def)
  next
    case (Incoming c)
    show ?thesis
      unfolding cp_ok_def
    proof
      assume inv: "cp_inv s"
      from kill_live [OF cp_incoming_live [OF inv Some [unfolded Incoming]]]
      obtain js where js: "kill_first (\<lambda>i. ip_peer_id i = p \<and> alive i) (cp_incoming s) = Some js" ..
      let ?st = "Disabled c False (map_option (\<lambda>b. clk 2 + b) ban)"
      have "cp_inv (set_peer p ?st (emit (SendEvent p HandlerDisable) (s\<lparr>cp_incoming := js\<rparr>)))"
        by (rule cp_inv_kill [OF inv, where p = p and st = ?st and P = "\<lambda>i. ip_peer_id i = p \<and> alive i"])
           (simp_all add: js cp_psm [OF inv])
      with js show "\<exists>t. disconnect_peer_inner clk p ban s = Inr t \<and> cp_inv t"
        using Some Incoming by (simp add: disconnect_peer_inner_def)
    qed
  qed (use Some in \<open>simp_all add: disconnect_peer_inner_def cp_ok_def\<close>)
qed

lemma peerset_report_connect_ok: "cp_inv s \<Longrightarrow> cp_inv (peerset_report_connect clk p s)"
proof (cases "map_of (cp_peers s) p")
  case None
  then show "cp_inv s \<Longrightarrow> cp_inv (peerset_report_connect clk p s)"
    by (simp add: peerset_report_connect_def cp_inv_set_emit)
next
  case (Some st)
  assume inv: "cp_inv s"
  show "cp_inv (peerset_report_connect clk p s)"
  proof (cases st)
    case (Incoming c)
    from kill_live [OF cp_incoming_live [OF inv Some [unfolded Incoming]]] obtain js
      where js: "kill_first (\<lambda>i. ip_peer_id i = p \<and> alive i) (cp_incoming s) = Some js" ..
    have "cp_inv (set_peer p (Enabled c False) (emit (SendEvent p HandlerEnable) (s\<lparr>cp_incoming := js\<rparr>)))"
      by (rule cp_inv_kill [OF inv, where p = p and st = "Enabled c False" and P = "\<lambda>i. ip_peer_id i = p \<and> alive i"])
         (simp_all add: js cp_psm [OF inv])
    with js Some Incoming show ?thesis by (simp add: peerset_report_connect_def)
  next
    case (Banned u)
    then show ?thesis
      using Some by (simp add: peerset_report_connect_def cp_inv_set_peer [OF inv] cp_inv_set_emit [OF inv])
  next
    case (Disabled c op b)
    then show ?thesis
      using Some
      by (cases b) (simp_all add: peerset_report_connect_def cp_inv_set_peer [OF inv] cp_inv_set_emit [OF inv])
  qed (use Some inv in \<open>simp_all add: peerset_report_connect_def\<close>)
qed

lemma peerset_report_disconnect_ok:
  assumes inv: "cp_inv s"
  shows "cp_inv (peerset_report_disconnect p s)"
proof (cases "map_of (cp_peers s) p")
  case None
  with inv show ?thesis by (simp add: peerset_report_disconnect_def)
next
  case (Some st)
  note set = cp_inv_set_peer [OF inv] cp_inv_set_emit [OF inv]
  from Some inv show ?thesis
    by (cases st) (simp_all add: peerset_report_disconnect_def set cp_inv_remove_peer)
qed

lemma take_incoming_inv:
  assumes "cp_inv s" "take_incoming index (cp_incoming s) = Some (i, is)"
  shows "\<not> alive i \<Longrightarrow> cp_inv (s\<lparr>cp_incoming := is\<rparr>)"
    and "alive i \<Longrightarrow> (\<And>c. map_of (cp_peers s) (ip_peer_id i) \<noteq> Some (Incoming c)) \<Longrightarrow> cp_inv (s\<lparr>cp_incoming := is\<rparr>)"
    and "st \<noteq> Poisoned \<Longrightarrow> (\<And>c. st \<noteq> Incoming c) \<Longrightarrow>
      cp_inv (set_peer (ip_peer_id i) st (emit e (s\<lparr>cp_incoming := is\<rparr>)))"
proof -
  note t = take_incoming_Some [OF assms(2)]
  have ids: "distinct (map incoming_id is)" "\<forall>i \<in> set is. incoming_id i < next_incoming_index s"
    using assms(1) t(2,3) by (auto simp: cp_inv_def)
  have base: "cp_inv (s\<lparr>cp_incoming := is\<rparr>)"
    if "\<not> alive i \<or> (\<forall>c. map_of (cp_peers s) (ip_peer_id i) \<noteq> Some (Incoming c))"
  proof -
    have "live p is" if "map_of (cp_peers s) p = Some (Incoming c)" for p c
      using t(4) [OF cp_incoming_live [OF assms(1) that]] that \<open>\<not> alive i \<or> _\<close> by auto
    with assms(1) ids show ?thesis by (simp add: cp_inv_def)
  qed
  then show "\<not> alive i \<Longrightarrow> cp_inv (s\<lparr>cp_incoming := is\<rparr>)"
    "alive i \<Longrightarrow> (\<And>c. map_of (cp_peers s) (ip_peer_id i) \<noteq> Some (Incoming c)) \<Longrightarrow> cp_inv (s\<lparr>cp_incoming := is\<rparr>)"
    by blast+
  show "cp_inv (set_peer (ip_peer_id i) st (emit e (s\<lparr>cp_incoming := is\<rparr>)))"
    if "st \<noteq> Poisoned" "\<And>c. st \<noteq> Incoming c"
    by (rule cp_inv_set [OF assms(1), where p = "ip_peer_id i" and st = st])
       (use t(4) ids that cp_psm [OF assms(1)] in auto)
qed

lemma peerset_report_accept_ok: "cp_ok s (peerset_report_accept clk index s)"
  unfolding cp_ok_def
proof
  assume inv: "cp_inv s"
  show "\<exists>t. peerset_report_accept clk index s = Inr t \<and> cp_inv t"
  proof (cases "take_incoming index (cp_incoming s)")
    case None
    with inv show ?thesis by (simp add: peerset_report_accept_def)
  next
    case (Some x)
    obtain i "is" where x: "x = (i, is)" by (cases x)
    note t = take_incoming_inv [OF inv Some [unfolded x]]
    show ?thesis
    proof (cases "alive i")
      case False
      have "psm_inv (cp_peerset (s\<lparr>cp_incoming := is\<rparr>))" using cp_psm [OF inv] by simp
      then obtain ps where "psm_dropped clk (ip_peer_id i) (s\<lparr>cp_incoming := is\<rparr>)
          = Inr (s\<lparr>cp_incoming := is, cp_peerset := ps\<rparr>)" "psm_inv ps" by (rule psm_dropped_ok)
      with t(1) [OF False] Some x False show ?thesis
        by (auto simp: peerset_report_accept_def intro: cp_inv_frame)
    next
      case True
      show ?thesis
      proof (cases "\<exists>c. map_of (cp_peers s) (ip_peer_id i) = Some (Incoming c)")
        case inc: True
        with Some x True t(3) show ?thesis by (auto simp: peerset_report_accept_def)
      next
        case False
        with t(2) [OF True] have "cp_inv (s\<lparr>cp_incoming := is\<rparr>)" by blast
        with Some x True False show ?thesis
          by (auto simp: peerset_report_accept_def Let_def split: option.splits peer_state.splits)
      qed
    qed
  qed
qed

lemma peerset_report_reject_ok:
  assumes inv: "cp_inv s"
  shows "cp_inv (peerset_report_reject index s)"
proof (cases "take_incoming index (cp_incoming s)")
  case None
  with inv show ?thesis by (simp add: peerset_report_reject_def)
next
  case (Some x)
  obtain i "is" where x: "x = (i, is)" by (cases x)
  note t = take_incoming_inv [OF inv Some [unfolded x]]
  show ?thesis
  proof (cases "alive i \<and> (\<exists>c. map_of (cp_peers s) (ip_peer_id i) = Some (Incoming c))")
    case True
    with Some x t(3) show ?thesis by (auto simp: peerset_report_reject_def)
  next
    case False
    then have "cp_inv (s\<lparr>cp_incoming := is\<rparr>)" using t(1,2) by blast
    with Some x False show ?thesis
      by (auto simp: peerset_report_reject_def Let_def split: option.splits peer_state.splits)
  qed
qed

lemma peerset_report_ok: "cp_ok s (peerset_report clk m s)"
  using peerset_report_accept_ok [of s clk]
  by (cases m) (auto simp: peerset_report_def cp_ok_def peerset_report_connect_ok
      peerset_report_disconnect_ok peerset_report_reject_ok)

lemma index_grows:
  fixes n :: incoming_index
  assumes "n \<noteq> - 1"
  shows "n < n + 1" "i < n \<Longrightarrow> i < n + 1"
proof -
  show "n < n + 1" using assms inc_less_eq_self_iff_eq [of n] by (simp add: not_le [symmetric])
  then show "i < n \<Longrightarrow> i < n + 1" by simp
qed

text \<open>The three arms of \<open>inject_connected\<close>, as functions of the state found.\<close>

lemma inject_connected_cases:
  "inject_connected lis clk p c s =
     (let st = (case map_of (cp_peers s) p of None \<Rightarrow> Poisoned | Some st \<Rightarrow> st); s' = set_peer p st s
      in if st = Requested \<or> (\<exists>d. st = PendingRequest d)
         then Inr (set_peer p (Enabled c False) (emit (SendEvent p HandlerEnable) s'))
         else if st = Poisoned \<or> (\<exists>u. st = Banned u)
         then (if lis c
               then (if next_incoming_index s = - 1 then Inr s'
                     else try_bind (incoming (clk 0) p (next_incoming_index s) (cp_peerset s)) (\<lambda>ps.
                        Inr (set_peer p (Incoming c)
                          (s'\<lparr>next_incoming_index := next_incoming_index s + 1, cp_peerset := ps,
                             cp_incoming := cp_incoming s @
                               [\<lparr>ip_peer_id = p, alive = True, incoming_id = next_incoming_index s\<rparr>]\<rparr>))))
               else Inr (set_peer p (Disabled c False (case st of Banned u \<Rightarrow> Some u | _ \<Rightarrow> None))
                      (emit (SendEvent p HandlerDisable) s')))
         else Inr s')"
  by (auto simp: inject_connected_def Let_def split: peer_state.split option.split)

lemma set_peer_twice: "set_peer p st (emit e (set_peer p st' s)) = set_peer p st (emit e s)"
  by (simp add: set_peer_def emit_def)

lemma set_peer_same:
  assumes "cp_inv s" "map_of (cp_peers s) p = Some st"
  shows "cp_inv (set_peer p st s)"
  using assms by (auto simp: cp_inv_def fun_upd_idem)

lemma inject_connected_ok:
  assumes "next_incoming_index s \<noteq> - 1"
  shows "cp_ok s (inject_connected lis clk p c s)"
  unfolding cp_ok_def
proof
  assume inv: "cp_inv s"
  define st where "st = (case map_of (cp_peers s) p of None \<Rightarrow> Poisoned | Some st \<Rightarrow> st)"
  consider (connect) "st = Requested \<or> (\<exists>d. st = PendingRequest d)"
    | (arrive) "st = Poisoned \<or> (\<exists>u. st = Banned u)" "lis c"
    | (idle) "st = Poisoned \<or> (\<exists>u. st = Banned u)" "\<not> lis c"
    | (other) "\<not> (st = Requested \<or> (\<exists>d. st = PendingRequest d))" "\<not> (st = Poisoned \<or> (\<exists>u. st = Banned u))"
    by blast
  then show "\<exists>t. inject_connected lis clk p c s = Inr t \<and> cp_inv t"
  proof cases
    case connect
    then show ?thesis
      using cp_inv_set_emit [OF inv]
      by (simp add: inject_connected_cases Let_def st_def [symmetric] set_peer_twice)
  next
    case idle
    moreover from idle have "\<not> (st = Requested \<or> (\<exists>d. st = PendingRequest d))" by auto
    ultimately show ?thesis
      using cp_inv_set_emit [OF inv]
      by (simp add: inject_connected_cases Let_def st_def [symmetric] set_peer_twice)
  next
    case other
    then have "map_of (cp_peers s) p = Some st" by (auto simp: st_def split: option.splits)
    with other show ?thesis
      using set_peer_same [OF inv] by (simp add: inject_connected_cases Let_def st_def [symmetric])
  next
    case arrive
    from incoming_safe [of "clk 0" p "next_incoming_index s"] cp_psm [OF inv] obtain ps
      where ps: "incoming (clk 0) p (next_incoming_index s) (cp_peerset s) = Inr ps" "psm_inv ps"
      by (auto simp: safe_def)
    let ?t = "set_peer p (Incoming c) ((set_peer p st s)\<lparr>next_incoming_index := next_incoming_index s + 1,
      cp_peerset := ps, cp_incoming := cp_incoming s @
        [\<lparr>ip_peer_id = p, alive = True, incoming_id = next_incoming_index s\<rparr>]\<rparr>)"
    have bound: "\<forall>i \<in> set (cp_incoming s). incoming_id i < next_incoming_index s" "distinct (map incoming_id (cp_incoming s))"
      using inv by (simp_all add: cp_inv_def)
    have "cp_inv ?t"
      by (rule cp_inv_set [OF inv, where p = p and st = "Incoming c"])
         (use ps bound index_grows [OF assms] in \<open>auto simp: update_Some_unfold\<close>)
    moreover from arrive have "\<not> (st = Requested \<or> (\<exists>d. st = PendingRequest d))" by auto
    ultimately show ?thesis
      using arrive ps(1) assms by (simp add: inject_connected_cases Let_def st_def [symmetric])
  qed
qed

lemma report_closed_inv [simp]: "cp_inv (report_closed p op s) = cp_inv s"
  by (simp add: report_closed_def)

lemma report_closed_simps [simp]:
  "cp_peerset (report_closed p op s) = cp_peerset s" "cp_peers (report_closed p op s) = cp_peers s"
  "cp_incoming (report_closed p op s) = cp_incoming s"
  "next_incoming_index (report_closed p op s) = next_incoming_index s"
  by (simp_all add: report_closed_def)

lemma inject_dial_failure_ok: "cp_ok s (inject_dial_failure clk p s)"
proof -
  let ?s = "set_peer p (Banned (clk 0 + from_secs 5)) s"
  have fail: "cp_ok s (psm_dropped (\<lambda>i. clk (Suc i)) p ?s)"
    unfolding cp_ok_def
  proof
    assume inv: "cp_inv s"
    then have "cp_inv ?s" by (simp add: cp_inv_set_peer)
    moreover from cp_psm [OF this] obtain ps
      where "psm_dropped (\<lambda>i. clk (Suc i)) p ?s = Inr (?s\<lparr>cp_peerset := ps\<rparr>)" "psm_inv ps"
      by (rule psm_dropped_ok)
    ultimately show "\<exists>t. psm_dropped (\<lambda>i. clk (Suc i)) p ?s = Inr t \<and> cp_inv t"
      by (auto intro: cp_inv_frame)
  qed
  then show ?thesis
    by (simp add: inject_dial_failure_def Let_def split: option.split peer_state.split) (simp add: cp_ok_def)
qed

lemma node_open_ok: "cp_inv s \<Longrightarrow> cp_inv (node_open p v s)"
  by (simp add: node_open_def cp_inv_set_peer split: option.split peer_state.split bool.split)

lemma inject_disconnected_ok: "cp_ok s (inject_disconnected clk dur p s)"
  unfolding cp_ok_def
proof
  assume inv: "cp_inv s"
  let ?s = "remove_peer p s"
  have rem: "cp_inv ?s" by (rule cp_inv_remove_peer [OF inv])
  have drop: "\<exists>t. try_bind (psm_dropped clk p ?s) (\<lambda>s. Inr (report_closed p op (set_peer p (Banned u) s))) = Inr t \<and> cp_inv t"
    for op u
    using dropped_set_ok [of "Banned u" "\<lambda>s. report_closed p op (set_peer p (Banned u) s)" p ?s clk] rem
    by (simp add: cp_ok_def)
  show "\<exists>t. inject_disconnected clk dur p s = Inr t \<and> cp_inv t"
  proof (cases "map_of (cp_peers s) p")
    case None
    with rem show ?thesis by (simp add: inject_disconnected_def)
  next
    case (Some st)
    show ?thesis
    proof (cases st)
      case (Incoming c)
      show ?thesis
      proof (cases "kill_first (\<lambda>i. ip_peer_id i = p) (cp_incoming s)")
        case None
        with Some Incoming rem show ?thesis by (simp add: inject_disconnected_def)
      next
        case k: (Some js)
        note kf = kill_first_Some [OF k, of p]
        have "live q js" if "map_of (cp_peers ?s) q = Some (Incoming c)" for q c
          using that cp_incoming_live [OF inv, of q c] kf(2) by (auto simp: delete_conv' split: if_splits)
        moreover have "\<forall>i \<in> set js. incoming_id i < next_incoming_index s"
          using inv kf(1) unfolding cp_inv_def by (metis (no_types, lifting) imageE image_eqI list.set_map)
        ultimately have "cp_inv (?s\<lparr>cp_incoming := js\<rparr>)"
          using rem kf(1) by (simp add: cp_inv_def)
        with Some Incoming k show ?thesis by (simp add: inject_disconnected_def)
      qed
    next
      case (Disabled c op b)
      with Some rem show ?thesis
        by (cases b) (simp_all add: inject_disconnected_def cp_inv_set_peer)
    qed (use Some rem drop in \<open>simp_all add: inject_disconnected_def\<close>)
  qed
qed

lemma node_closed_ok:
  assumes "is_open s p"
  shows "cp_ok s (node_closed clk p reason s)"
proof -
  obtain st where st: "map_of (cp_peers s) p = Some st" "peer_state_is_open st"
    using assms by (auto simp: is_open_def split: option.splits)
  let ?s = "emit (GenerateEvent (CustomProtocolClosed p reason)) s"
  show ?thesis
  proof (cases st)
    case (Enabled c op)
    have "cp_ok ?s (try_bind (psm_dropped clk p ?s) (\<lambda>s.
        Inr (set_peer p (Disabled c False None) (emit (SendEvent p HandlerDisable) s))))"
      by (rule dropped_set_ok [where st = "Disabled c False None"]) simp_all
    with st Enabled show ?thesis by (simp add: node_closed_def cp_ok_def)
  qed (use st in \<open>simp_all add: node_closed_def cp_ok_def cp_inv_set_emit\<close>)
qed

lemma report_peer_psm: "psm_inv ps \<Longrightarrow> psm_inv (report_peer p c ps)"
  by (auto simp: report_peer_def send_action_def psm_inv_def)

text \<open>What the behaviour may assume of a handler: it reports closing, messages and clogging only
  for a protocol that is open (see \<open>alternates\<close>).\<close>

definition node_event_ok :: "'p \<Rightarrow> handler_out \<Rightarrow> ('p, 'c) custom_proto \<Rightarrow> bool" where
  "node_event_ok p ev s \<longleftrightarrow>
     (case ev of HandlerOpen _ \<Rightarrow> True | ProtocolError _ _ \<Rightarrow> True | _ \<Rightarrow> is_open s p)"

lemma inject_node_event_ok:
  assumes "node_event_ok p ev s"
  shows "cp_ok s (inject_node_event clk p ev s)"
proof (cases ev)
  case (ProtocolError sev err)
  let ?s = "s\<lparr>cp_peerset := report_peer p (reputation_change_new i32_min ''Protocol error'') (cp_peerset s)\<rparr>"
  have "cp_inv s \<Longrightarrow> cp_inv ?s" by (simp add: cp_inv_def report_peer_psm)
  with ProtocolError disconnect_peer_inner_ok [of ?s clk p "Some (from_secs 5)"] show ?thesis
    by (simp add: inject_node_event_def cp_ok_def)
next
  case (HandlerClosed r)
  with assms show ?thesis
    by (simp add: inject_node_event_def node_event_ok_def node_closed_ok)
qed (simp_all add: inject_node_event_def cp_ok_def node_open_ok)

lemma poll_peerset_ok: "cp_ok s (poll_peerset now clk s)"
proof (induction now clk s rule: poll_peerset.induct)
  case (1 now clk s)
  show ?case
    unfolding cp_ok_def
  proof
    assume inv: "cp_inv s"
    obtain m ps where ps: "poll_next (now 0) (cp_peerset s) = Inr (m, ps)" "psm_inv ps"
      using poll_next_safe [OF cp_psm [OF inv], of "now 0"] by blast
    have inv': "cp_inv (s\<lparr>cp_peerset := ps\<rparr>)" using inv ps(2) by (simp add: cp_inv_def)
    show "\<exists>t. poll_peerset now clk s = Inr t \<and> cp_inv t"
    proof (cases m)
      case None
      with ps inv' show ?thesis by (simp add: poll_peerset.simps [of now])
    next
      case (Some msg)
      obtain t where t: "peerset_report (clk 0) msg (s\<lparr>cp_peerset := ps\<rparr>) = Inr t" "cp_inv t"
        using peerset_report_ok [of "s\<lparr>cp_peerset := ps\<rparr>" "clk 0" msg] inv' by (auto simp: cp_ok_def)
      from 1 [OF ps(1) refl Some t(1)] t ps Some show ?thesis
        by (auto simp: poll_peerset.simps [of now] cp_ok_def)
    qed
  qed
qed

definition timed :: "(nat \<Rightarrow> timer_poll) \<Rightarrow> 'c peer_state \<Rightarrow> 'c peer_state" where
  "timed timer st =
     (case st of
        PendingRequest d \<Rightarrow> if timer d = TimerNotReady then st else Requested
      | DisabledPendingEnable c op d \<Rightarrow> if timer d = TimerNotReady then st else Enabled c op
      | _ \<Rightarrow> st)"

lemma timed_iff:
  "timed timer st = Poisoned \<longleftrightarrow> st = Poisoned" "timed timer st = Incoming c \<longleftrightarrow> st = Incoming c"
  by (cases st; simp add: timed_def)+

lemma poll_timers_map:
  "map fst (fst (poll_timers timer ps)) = map fst ps"
  "map_of (fst (poll_timers timer ps)) p = map_option (timed timer) (map_of ps p)"
  by (induction ps) (auto simp: timed_def split: prod.splits peer_state.splits)

lemma poll_work_ok: "cp_ok s (poll_work now clk timer s)"
  unfolding cp_ok_def
proof
  assume "cp_inv s"
  with poll_peerset_ok [of s now clk] obtain t where t: "poll_peerset now clk s = Inr t" "cp_inv t"
    by (auto simp: cp_ok_def)
  obtain ps es where ps: "poll_timers timer (cp_peers t) = (ps, es)" by (cases "poll_timers timer (cp_peers t)")
  have "map fst ps = map fst (cp_peers t)" "\<And>p. map_of ps p = map_option (timed timer) (map_of (cp_peers t) p)"
    using poll_timers_map [of timer "cp_peers t"] ps by simp_all
  then have "cp_inv (t\<lparr>cp_peers := ps, cp_events := cp_events t @ es\<rparr>)"
    using t(2) by (simp add: cp_inv_def timed_iff del: map_of_eq_Some_iff)
  with t(1) ps show "\<exists>t. poll_work now clk timer s = Inr t \<and> cp_inv t" by (simp add: poll_work_def)
qed

end
