(* ===== verification/Custom_Proto_Events.thy ===== *)
theory Custom_Proto_Events
  imports Custom_Proto Peerset_Correct
begin

text \<open>
  What the behaviour of the custom protocol tells the outside: the opened and closed events of
  each peer alternate and follow its state, and the handler of each connection is told to enable
  or disable itself exactly as the state of the peer says. Reachable states, and a reachable state
  in which an incoming connection is never answered.
\<close>

section \<open>Reading the queued actions\<close>

fun act_peer :: "('p, 'c) cp_action \<Rightarrow> 'p" where
  "act_peer (DialPeer p) = p"
| "act_peer (SendEvent p _) = p"
| "act_peer (GenerateEvent (CustomProtocolOpen _ p _)) = p"
| "act_peer (GenerateEvent (CustomProtocolClosed p _)) = p"
| "act_peer (GenerateEvent (CustomMessage p _)) = p"
| "act_peer (GenerateEvent (Clogged p _)) = p"

definition evs :: "'p \<Rightarrow> ('p, 'c) cp_action list \<Rightarrow> ('p, 'c) cp_action list" where
  "evs p es = filter (\<lambda>e. act_peer e = p) es"

text \<open>Whether the protocol is open with a peer after an action that concerns it, and whether the
  actions are consistent: open and closed alternate; messages are delivered, clogging is
  reported and packets are sent only while open.\<close>

fun open_after :: "('p, 'c) cp_action \<Rightarrow> bool \<Rightarrow> bool" where
  "open_after (GenerateEvent (CustomProtocolOpen _ _ _)) b = True"
| "open_after (GenerateEvent (CustomProtocolClosed _ _)) b = False"
| "open_after _ b = b"

fun open_ok :: "bool \<Rightarrow> ('p, 'c) cp_action list \<Rightarrow> bool" where
  "open_ok b [] = True"
| "open_ok b (GenerateEvent (CustomProtocolOpen v p c) # es) = (\<not> b \<and> open_ok True es)"
| "open_ok b (GenerateEvent (CustomProtocolClosed p r) # es) = (b \<and> open_ok False es)"
| "open_ok b (GenerateEvent (CustomMessage p m) # es) = (b \<and> open_ok b es)"
| "open_ok b (GenerateEvent (Clogged p ms) # es) = (b \<and> open_ok b es)"
| "open_ok b (SendEvent p (SendCustomMessage m) # es) = (b \<and> open_ok b es)"
| "open_ok b (SendEvent p HandlerEnable # es) = open_ok b es"
| "open_ok b (SendEvent p HandlerDisable # es) = open_ok b es"
| "open_ok b (DialPeer p # es) = open_ok b es"

text \<open>The mode of a connection handler, \<open>None\<close> without a connection, as its peer's state has it
  and as the actions sent to it leave it.\<close>

datatype handler_mode = ModeInit | ModeEnabled | ModeDisabled

fun st_mode :: "'c peer_state option \<Rightarrow> handler_mode option" where
  "st_mode (Some (Enabled _ _)) = Some ModeEnabled"
| "st_mode (Some (Disabled _ _ _)) = Some ModeDisabled"
| "st_mode (Some (DisabledPendingEnable _ _ _)) = Some ModeDisabled"
| "st_mode (Some (Incoming _)) = Some ModeInit"
| "st_mode _ = None"

definition mode :: "('p, 'c) custom_proto \<Rightarrow> 'p \<Rightarrow> handler_mode option" where
  "mode s p = st_mode (map_of (cp_peers s) p)"

fun mode_after :: "('p, 'c) cp_action \<Rightarrow> handler_mode option \<Rightarrow> handler_mode option" where
  "mode_after (SendEvent _ HandlerEnable) m = map_option (\<lambda>_. ModeEnabled) m"
| "mode_after (SendEvent _ HandlerDisable) m = map_option (\<lambda>_. ModeDisabled) m"
| "mode_after _ m = m"

lemma open_ok_append:
  "open_ok b (xs @ ys) \<longleftrightarrow> open_ok b xs \<and> open_ok (fold open_after xs b) ys"
  by (induction b xs rule: open_ok.induct) auto

text \<open>The actions queued between \<open>s\<close> and \<open>t\<close> account for every change of what is open, and turn the
  handler modes \<open>m0\<close> into those of \<open>t\<close>.\<close>

definition follows ::
  "('p \<Rightarrow> handler_mode option) \<Rightarrow> ('p, 'c) custom_proto \<Rightarrow> ('p, 'c) custom_proto \<Rightarrow> bool" where
  "follows m0 s t \<longleftrightarrow> (\<exists>es. cp_events t = cp_events s @ es \<and>
     (\<forall>p. open_ok (is_open s p) (evs p es) \<and>
          is_open t p = fold open_after (evs p es) (is_open s p) \<and>
          mode t p = fold mode_after (evs p es) (m0 p)))"

lemma follows_refl [intro]: "follows (mode s) s s"
  by (simp add: follows_def evs_def)

lemma follows_trans:
  assumes "follows m0 s t" "follows (mode t) t u"
  shows "follows m0 s u"
proof -
  obtain es where es: "cp_events t = cp_events s @ es"
    "\<And>p. open_ok (is_open s p) (evs p es)" "\<And>p. is_open t p = fold open_after (evs p es) (is_open s p)"
    "\<And>p. mode t p = fold mode_after (evs p es) (m0 p)"
    using assms(1) unfolding follows_def by blast
  obtain fs where fs: "cp_events u = cp_events t @ fs"
    "\<And>p. open_ok (is_open t p) (evs p fs)" "\<And>p. is_open u p = fold open_after (evs p fs) (is_open t p)"
    "\<And>p. mode u p = fold mode_after (evs p fs) (mode t p)"
    using assms(2) unfolding follows_def by blast
  have "evs p (es @ fs) = evs p es @ evs p fs" for p by (simp add: evs_def)
  with es fs show ?thesis
    unfolding follows_def by (intro exI [of _ "es @ fs"]) (simp add: open_ok_append)
qed

text \<open>An operation that touches a single peer.\<close>

lemma follows_one:
  fixes s t :: "('p, 'c) custom_proto" and p :: 'p
  assumes ev: "cp_events t = cp_events s @ es"
    and other: "\<And>q. q \<noteq> p \<Longrightarrow> map_of (cp_peers t) q = map_of (cp_peers s) q \<and> m0 q = mode s q"
    and peer: "list_all (\<lambda>e. act_peer e = p) es"
    and rep: "open_ok (is_open s p) es" "is_open t p = fold open_after es (is_open s p)"
      "mode t p = fold mode_after es (m0 p)"
  shows "follows m0 s t"
proof -
  have evs: "evs q es = (if q = p then es else [])" for q
    using peer by (auto simp: evs_def list_all_iff filter_id_conv filter_empty_conv)
  show ?thesis
    unfolding follows_def using ev evs other rep
    by (intro exI [of _ es]) (auto simp: is_open_def mode_def)
qed

lemma follows_frame:
  assumes "cp_events t = cp_events s" "cp_peers t = cp_peers s"
  shows "follows (mode s) s t"
  unfolding follows_def using assms by (intro exI [of _ "[]"]) (simp add: evs_def is_open_def mode_def)

lemma psm_dropped_frame:
  "psm_dropped clk p s = Inr t \<Longrightarrow> cp_events t = cp_events s \<and> cp_peers t = cp_peers s"
  by (auto simp: psm_dropped_Inr)

text \<open>Setting the state of one peer after queueing the actions \<open>es\<close> for it.\<close>

lemma follows_set:
  fixes s t :: "('p, 'c) custom_proto"
  assumes "cp_events t = cp_events s @ es" "cp_peers t = AList.update p st (cp_peers s)"
    and "map_of (cp_peers s) p = st0" "list_all (\<lambda>e. act_peer e = p) es"
    and "open_ok (case st0 of None \<Rightarrow> False | Some x \<Rightarrow> peer_state_is_open x) es"
    and "peer_state_is_open st = fold open_after es (case st0 of None \<Rightarrow> False | Some x \<Rightarrow> peer_state_is_open x)"
    and "st_mode (Some st) = fold mode_after es (m0 p)" "\<And>q. q \<noteq> p \<Longrightarrow> m0 q = mode s q"
  shows "follows m0 s t"
  using assms by (intro follows_one [where p = p and es = es]) (auto simp: is_open_def mode_def)

lemma follows_delete:
  fixes s t :: "('p, 'c) custom_proto"
  assumes "cp_events t = cp_events s @ es" "cp_peers t = AList.delete p (cp_peers s)"
    and "map_of (cp_peers s) p = st0" "list_all (\<lambda>e. act_peer e = p) es"
    and "open_ok (case st0 of None \<Rightarrow> False | Some x \<Rightarrow> peer_state_is_open x) es"
    and "\<not> fold open_after es (case st0 of None \<Rightarrow> False | Some x \<Rightarrow> peer_state_is_open x)"
    and "fold mode_after es (m0 p) = None" "\<And>q. q \<noteq> p \<Longrightarrow> m0 q = mode s q"
  shows "follows m0 s t"
  using assms
  by (intro follows_one [where p = p and es = es]) (auto simp: is_open_def mode_def delete_conv')

section \<open>Each operation is reported\<close>

lemma disconnect_peer_inner_follows:
  assumes "cp_inv s" "disconnect_peer_inner clk p ban s = Inr t"
  shows "follows (mode s) s t"
proof (cases "map_of (cp_peers s) p")
  case None
  with assms(2) show ?thesis by (auto simp: disconnect_peer_inner_def)
next
  case (Some st)
  show ?thesis
  proof (cases st)
    case (Incoming c)
    from kill_live [OF cp_incoming_live [OF assms(1) Some [unfolded Incoming]]] obtain js
      where "kill_first (\<lambda>i. ip_peer_id i = p \<and> alive i) (cp_incoming s) = Some js" ..
    then have t: "t = set_peer p (Disabled c False (map_option (\<lambda>b. clk 2 + b) ban))
        (emit (SendEvent p HandlerDisable) (s\<lparr>cp_incoming := js\<rparr>))"
      using assms(2) Some Incoming by (simp add: disconnect_peer_inner_def)
    show ?thesis
      unfolding t
      by (rule follows_set [where p = p and es = "[SendEvent p HandlerDisable]" and
            st = "Disabled c False (map_option (\<lambda>b. clk 2 + b) ban)", OF _ _ Some])
         (simp_all add: Incoming mode_def Some)
  next
    case (Enabled c op)
    obtain u where u: "psm_dropped clk p s = Inr u"
      "t = set_peer p (Disabled c op (map_option (\<lambda>b. clk 2 + b) ban)) (emit (SendEvent p HandlerDisable) u)"
      using assms(2) Some Enabled by (auto simp: disconnect_peer_inner_def try_iffs)
    show ?thesis
      by (rule follows_set [where p = p and es = "[SendEvent p HandlerDisable]" and
            st = "Disabled c op (map_option (\<lambda>b. clk 2 + b) ban)", OF _ _ Some])
         (use psm_dropped_frame [OF u(1)] u(2) Enabled Some in \<open>simp_all add: mode_def\<close>)
  next
    case (DisabledPendingEnable c op dl)
    then obtain u b where u: "psm_dropped clk p s = Inr u" "t = set_peer p (Disabled c op b) u"
      using assms(2) Some by (auto simp: disconnect_peer_inner_def try_iffs Let_def)
    show ?thesis
      by (rule follows_set [where p = p and es = "[]" and st = "Disabled c op b", OF _ _ Some])
         (use psm_dropped_frame [OF u(1)] u(2) DisabledPendingEnable Some in \<open>simp_all add: mode_def\<close>)
  qed (use assms(2) Some in \<open>auto simp: disconnect_peer_inner_def\<close>)
qed

text \<open>The three shapes of the operations, for a peer found in state \<open>st0\<close>: a state change alone, a
  state change with one action, and the removal of the peer.\<close>

lemma follows_set_peer:
  assumes "map_of (cp_peers s) p = st0" "peer_state_is_open st = (case st0 of None \<Rightarrow> False | Some x \<Rightarrow> peer_state_is_open x)"
    and "st_mode (Some st) = st_mode st0"
  shows "follows (mode s) s (set_peer p st s)"
  by (rule follows_set [where p = p and es = "[]" and st = st, OF _ _ assms(1)]) (simp_all add: assms mode_def)

lemma follows_set_emit:
  assumes "map_of (cp_peers s) p = st0" "act_peer e = p"
    and "open_ok (case st0 of None \<Rightarrow> False | Some x \<Rightarrow> peer_state_is_open x) [e]"
    and "peer_state_is_open st = open_after e (case st0 of None \<Rightarrow> False | Some x \<Rightarrow> peer_state_is_open x)"
    and "st_mode (Some st) = mode_after e (st_mode st0)"
  shows "follows (mode s) s (set_peer p st (emit e s))"
  by (rule follows_set [where p = p and es = "[e]" and st = st, OF _ _ assms(1)]) (simp_all add: assms mode_def)

lemma follows_incoming [simp]: "follows m0 (s\<lparr>cp_incoming := is\<rparr>) t = follows m0 s t"
  by (simp add: follows_def is_open_def)

lemma mode_frame [simp]: "mode (s\<lparr>cp_incoming := is\<rparr>) = mode s" "mode (s\<lparr>cp_peerset := ps\<rparr>) = mode s"
  by (simp_all add: mode_def fun_eq_iff)

lemma peerset_report_connect_follows: "follows (mode s) s (peerset_report_connect clk p s)"
proof (cases "map_of (cp_peers s) p")
  case None
  then show ?thesis
    by (simp add: peerset_report_connect_def follows_set_emit)
next
  case (Some st)
  note step = follows_set_peer [OF Some] follows_set_emit [OF Some]
  show ?thesis
  proof (cases st)
    case (Incoming c)
    have "follows (mode s) (s\<lparr>cp_incoming := js\<rparr>) (set_peer p (Enabled c False) (emit (SendEvent p HandlerEnable) (s\<lparr>cp_incoming := js\<rparr>)))" for js
      using follows_set_emit [of "s\<lparr>cp_incoming := js\<rparr>" p "Some st" "SendEvent p HandlerEnable" "Enabled c False"] Some Incoming
      by simp
    then show ?thesis using Some Incoming by (simp add: peerset_report_connect_def)
  next
    case (Disabled c op b)
    then show ?thesis using Some by (cases b) (simp_all add: peerset_report_connect_def step)
  qed (use Some in \<open>simp_all add: peerset_report_connect_def step follows_refl\<close>)
qed

lemma peerset_report_disconnect_follows: "follows (mode s) s (peerset_report_disconnect p s)"
proof (cases "map_of (cp_peers s) p")
  case None
  then show ?thesis by (simp add: peerset_report_disconnect_def follows_refl)
next
  case (Some st)
  have "follows (mode s) s (remove_peer p s)" if "st = Requested"
    by (rule follows_delete [where p = p and es = "[]", OF _ _ Some]) (simp_all add: that mode_def Some)
  with Some show ?thesis
    by (cases st) (simp_all add: peerset_report_disconnect_def follows_refl
        follows_set_peer [OF Some] follows_set_emit [OF Some])
qed

text \<open>A state reached by changing only the peer set and the incoming list.\<close>

lemma follows_incoming_frame: "follows (mode s) s (s\<lparr>cp_incoming := is\<rparr>)"
  by (rule follows_frame) simp_all

lemma follows_incoming_set:
  assumes "map_of (cp_peers s) p = Some (Incoming c)" "e = SendEvent p HandlerEnable \<and> st = Enabled c False \<or>
      e = SendEvent p HandlerDisable \<and> st = Disabled c False b"
  shows "follows (mode s) s (set_peer p st (emit e (s\<lparr>cp_incoming := is\<rparr>)))"
proof -
  have "follows (mode s) (s\<lparr>cp_incoming := is\<rparr>) (set_peer p st (emit e (s\<lparr>cp_incoming := is\<rparr>)))"
    using follows_set_emit [of "s\<lparr>cp_incoming := is\<rparr>" p "Some (Incoming c)" e st] assms by auto
  then show ?thesis by simp
qed

lemma peerset_report_accept_follows:
  assumes "peerset_report_accept clk index s = Inr t"
  shows "follows (mode s) s t"
proof (cases "take_incoming index (cp_incoming s)")
  case None
  with assms show ?thesis by (auto simp: peerset_report_accept_def)
next
  case (Some x)
  obtain i "is" where x: "x = (i, is)" by (cases x)
  show ?thesis
  proof (cases "alive i")
    case False
    with assms Some x have "psm_dropped clk (ip_peer_id i) (s\<lparr>cp_incoming := is\<rparr>) = Inr t"
      by (simp add: peerset_report_accept_def)
    from psm_dropped_frame [OF this] show ?thesis by (intro follows_frame) simp_all
  next
    case True
    show ?thesis
    proof (cases "\<exists>c. map_of (cp_peers s) (ip_peer_id i) = Some (Incoming c)")
      case inc: True
      then obtain c where c: "map_of (cp_peers s) (ip_peer_id i) = Some (Incoming c)" ..
      with assms Some x True have "t = set_peer (ip_peer_id i) (Enabled c False)
          (emit (SendEvent (ip_peer_id i) HandlerEnable) (s\<lparr>cp_incoming := is\<rparr>))"
        by (simp add: peerset_report_accept_def)
      with follows_incoming_set [OF c] show ?thesis by simp
    next
      case False
      with assms Some x True have "t = s\<lparr>cp_incoming := is\<rparr>"
        by (auto simp: peerset_report_accept_def Let_def split: option.splits peer_state.splits)
      then show ?thesis by (simp add: follows_incoming_frame)
    qed
  qed
qed

lemma peerset_report_reject_follows: "follows (mode s) s (peerset_report_reject index s)"
proof (cases "take_incoming index (cp_incoming s)")
  case None
  then show ?thesis by (auto simp: peerset_report_reject_def)
next
  case (Some x)
  obtain i "is" where x: "x = (i, is)" by (cases x)
  show ?thesis
  proof (cases "alive i \<and> (\<exists>c. map_of (cp_peers s) (ip_peer_id i) = Some (Incoming c))")
    case True
    then obtain c where "map_of (cp_peers s) (ip_peer_id i) = Some (Incoming c)" by blast
    with True Some x show ?thesis
      using follows_incoming_set [of s "ip_peer_id i" c] by (simp add: peerset_report_reject_def)
  next
    case False
    with Some x have "peerset_report_reject index s = s\<lparr>cp_incoming := is\<rparr>"
      by (auto simp: peerset_report_reject_def Let_def split: option.splits peer_state.splits)
    then show ?thesis by (simp add: follows_incoming_frame)
  qed
qed

lemma peerset_report_follows:
  "peerset_report clk m s = Inr t \<Longrightarrow> follows (mode s) s t"
  using peerset_report_accept_follows [of clk _ s t] peerset_report_connect_follows [of s clk]
    peerset_report_disconnect_follows [of s] peerset_report_reject_follows [of s]
  by (cases m) (auto simp: peerset_report_def)

lemma send_packet_follows: "follows (mode s) s (send_packet p m s)"
  by (cases "is_open s p", rule follows_one [where p = p and es = "[SendEvent p (SendCustomMessage m)]"])
     (simp_all add: send_packet_def is_open_def mode_def follows_refl)

lemma inject_connected_follows:
  assumes "next_incoming_index s \<noteq> - 1" "cp_inv s" "mode s p = None"
    and "inject_connected lis clk p c s = Inr t"
  shows "follows ((mode s)(p := Some ModeInit)) s t"
proof -
  define st where "st = (case map_of (cp_peers s) p of None \<Rightarrow> Poisoned | Some st \<Rightarrow> st)"
  have closed: "\<not> is_open s p" using assms(3) unfolding mode_def is_open_def
    by (cases "map_of (cp_peers s) p" rule: st_mode.cases) auto
  have one: "follows ((mode s)(p := Some ModeInit)) s t"
    if "cp_events t = cp_events s @ es" "cp_peers t = AList.update p st' (AList.update p st (cp_peers s))"
      "list_all (\<lambda>e. act_peer e = p) es" "open_ok False es" "\<not> peer_state_is_open st'" "\<not> fold open_after es False"
      "st_mode (Some st') = fold mode_after es (Some ModeInit)" for es st'
    by (rule follows_one [where p = p and es = es]) (use that closed in \<open>simp_all add: is_open_def mode_def\<close>)
  consider (connect) "st = Requested \<or> (\<exists>d. st = PendingRequest d)"
    | (arrive) "st = Poisoned \<or> (\<exists>u. st = Banned u)" "lis c" "\<not> (st = Requested \<or> (\<exists>d. st = PendingRequest d))"
    | (idle) "st = Poisoned \<or> (\<exists>u. st = Banned u)" "\<not> lis c" "\<not> (st = Requested \<or> (\<exists>d. st = PendingRequest d))"
    using assms(3) unfolding st_def mode_def by (cases "map_of (cp_peers s) p" rule: st_mode.cases) auto
  then show ?thesis
  proof cases
    case connect
    with assms(4) show ?thesis
      by (intro one [where es = "[SendEvent p HandlerEnable]" and st' = "Enabled c False"])
         (auto simp: inject_connected_cases Let_def st_def [symmetric])
  next
    case idle
    with assms(4) show ?thesis
      by (intro one [where es = "[SendEvent p HandlerDisable]" and
            st' = "Disabled c False (case st of Banned u \<Rightarrow> Some u | _ \<Rightarrow> None)"])
         (auto simp: inject_connected_cases Let_def st_def [symmetric])
  next
    case arrive
    with assms(1,4) show ?thesis
      by (intro one [where es = "[]" and st' = "Incoming c"])
         (auto simp: inject_connected_cases Let_def st_def [symmetric] try_iffs)
  qed
qed

text \<open>Leaving: the state that remains has no connection.\<close>

lemma inject_disconnected_peer:
  assumes "inject_disconnected clk dur p s = Inr t"
  shows "q \<noteq> p \<Longrightarrow> map_of (cp_peers t) q = map_of (cp_peers s) q"
    and "mode t p = None" "\<not> is_open t p"
    and "cp_events t = cp_events s @ (if is_open s p
           then [GenerateEvent (CustomProtocolClosed p ''Disconnected by libp2p'')] else [])"
proof -
  note defs = inject_disconnected_def try_iffs psm_dropped_Inr delete_conv' mode_def is_open_def report_closed_def
  have "(\<forall>q. q \<noteq> p \<longrightarrow> map_of (cp_peers t) q = map_of (cp_peers s) q) \<and> mode t p = None \<and> \<not> is_open t p \<and>
    cp_events t = cp_events s @ (if is_open s p
           then [GenerateEvent (CustomProtocolClosed p ''Disconnected by libp2p'')] else [])"
  proof (cases "map_of (cp_peers s) p")
    case None
    with assms show ?thesis by (auto simp: defs)
  next
    case (Some st)
    show ?thesis
    proof (cases st)
      case (Disabled c op b)
      with assms Some show ?thesis by (cases b) (auto simp: defs)
    next
      case (Incoming c)
      with assms Some show ?thesis
        by (cases "kill_first (\<lambda>i. ip_peer_id i = p) (cp_incoming s)") (auto simp: defs)
    qed (use assms Some in \<open>auto simp: defs\<close>)
  qed
  then show "q \<noteq> p \<Longrightarrow> map_of (cp_peers t) q = map_of (cp_peers s) q"
    "mode t p = None" "\<not> is_open t p"
    "cp_events t = cp_events s @ (if is_open s p
           then [GenerateEvent (CustomProtocolClosed p ''Disconnected by libp2p'')] else [])" by simp_all
qed

lemma inject_disconnected_follows:
  assumes "inject_disconnected clk dur p s = Inr t"
  shows "follows ((mode s)(p := None)) s t"
  by (rule follows_one [where p = p and es = "if is_open s p
        then [GenerateEvent (CustomProtocolClosed p ''Disconnected by libp2p'')] else []"])
     (use inject_disconnected_peer [OF assms] in \<open>auto simp: mode_def\<close>)

lemma inject_dial_failure_follows:
  assumes "inject_dial_failure clk p s = Inr t"
  shows "follows (mode s) s t"
proof -
  let ?s = "set_peer p (Banned (clk 0 + from_secs 5)) s"
  have fail: "follows (mode s) s t" if "map_of (cp_peers s) p = Some st" "st = Requested \<or> st = PendingRequest d"
    "psm_dropped (\<lambda>i. clk (Suc i)) p ?s = Inr t" for st d
  proof -
    have "follows (mode s) s ?s" using follows_set_peer [OF that(1), of "Banned (clk 0 + from_secs 5)"] that(2) by auto
    then show ?thesis by (rule follows_trans) (use psm_dropped_frame [OF that(3)] in \<open>intro follows_frame, simp_all\<close>)
  qed
  from assms show ?thesis
    by (auto simp: inject_dial_failure_def Let_def intro: fail split: option.splits peer_state.splits)
qed

lemma node_open_follows: "follows (mode s) s (node_open p v s)"
proof (cases "map_of (cp_peers s) p")
  case (Some st)
  have emit_set: "emit e (set_peer p st s) = set_peer p st (emit e s)" for e st by (simp add: emit_def set_peer_def)
  show ?thesis
  proof (cases st)
    case (Disabled c op b)
    then show ?thesis using Some by (cases op) (simp_all add: node_open_def emit_set follows_set_emit [OF Some] follows_refl)
  next
    case (DisabledPendingEnable c op b)
    then show ?thesis using Some by (cases op) (simp_all add: node_open_def emit_set follows_set_emit [OF Some] follows_refl)
  next
    case (Enabled c op)
    then show ?thesis using Some by (cases op) (simp_all add: node_open_def emit_set follows_set_emit [OF Some] follows_refl)
  qed (use Some in \<open>simp_all add: node_open_def follows_refl\<close>)
qed (simp add: node_open_def follows_refl)

lemma node_closed_follows:
  assumes "is_open s p" "node_closed clk p reason s = Inr t"
  shows "follows (mode s) s t"
proof -
  obtain st where st: "map_of (cp_peers s) p = Some st" "peer_state_is_open st"
    using assms(1) by (auto simp: is_open_def split: option.splits)
  show ?thesis
  proof (cases st)
    case (Enabled c op)
    with st assms(2) show ?thesis
      by (intro follows_set [where p = p and st = "Disabled c False None" and
            es = "[GenerateEvent (CustomProtocolClosed p reason), SendEvent p HandlerDisable]", OF _ _ st(1)])
         (auto simp: node_closed_def try_iffs psm_dropped_Inr mode_def)
  qed (use st assms(2) in \<open>auto simp: node_closed_def intro: follows_set_emit\<close>)
qed

lemma inject_node_event_follows:
  assumes "cp_inv s" "node_event_ok p ev s" "inject_node_event clk p ev s = Inr t"
  shows "follows (mode s) s t"
proof (cases ev)
  case (ProtocolError sev err)
  let ?s = "s\<lparr>cp_peerset := report_peer p (reputation_change_new i32_min ''Protocol error'') (cp_peerset s)\<rparr>"
  have "cp_inv ?s" using assms(1) by (simp add: cp_inv_def report_peer_psm)
  moreover have "follows (mode s) s ?s" by (rule follows_frame) simp_all
  ultimately show ?thesis
    using ProtocolError assms(3) disconnect_peer_inner_follows [of ?s clk p _ t] follows_trans [of "mode s" s ?s t]
    by (auto simp: inject_node_event_def split: if_splits)
next
  case (HandlerClosed r)
  with assms(2,3) node_closed_follows show ?thesis
    by (auto simp: inject_node_event_def node_event_ok_def)
next
  case (HandlerOpen v)
  with assms(3) node_open_follows [of s p v] show ?thesis by (auto simp: inject_node_event_def)
next
  case (HandlerMessage m)
  with assms(2,3) show ?thesis
    by (intro follows_one [where p = p and es = "[GenerateEvent (CustomMessage p m)]"])
       (auto simp: inject_node_event_def node_event_ok_def is_open_def mode_def)
next
  case (HandlerClogged ms)
  with assms(2,3) show ?thesis
    by (intro follows_one [where p = p and es = "[GenerateEvent (Clogged p ms)]"])
       (auto simp: inject_node_event_def node_event_ok_def is_open_def mode_def)
qed

lemma poll_peerset_follows:
  "poll_peerset now clk s = Inr t \<Longrightarrow> follows (mode s) s t"
proof (induction now clk s rule: poll_peerset.induct)
  case (1 now clk s)
  from 1(2) obtain m ps where ps: "poll_next (now 0) (cp_peerset s) = Inr (m, ps)"
    by (auto simp: poll_peerset.simps [of now] split: sum.splits)
  have frame: "follows (mode s) s (s\<lparr>cp_peerset := ps\<rparr>)" by (rule follows_frame) simp_all
  show ?case
  proof (cases m)
    case None
    with 1(2) ps frame show ?thesis by (simp add: poll_peerset.simps [of now])
  next
    case (Some msg)
    with 1(2) ps obtain u where u: "peerset_report (clk 0) msg (s\<lparr>cp_peerset := ps\<rparr>) = Inr u"
      "poll_peerset (\<lambda>i. now (Suc i)) (\<lambda>i. clk (Suc i)) u = Inr t"
      by (auto simp: poll_peerset.simps [of now] split: sum.splits)
    from frame peerset_report_follows [OF u(1)] have "follows (mode s) s u" by (rule follows_trans)
    then show ?thesis using 1(1) [OF ps refl Some u] by (rule follows_trans)
  qed
qed

text \<open>The actions of the timers: at most one for each peer.\<close>

fun timer_events :: "(nat \<Rightarrow> timer_poll) \<Rightarrow> 'p \<Rightarrow> 'c peer_state option \<Rightarrow> ('p, 'c) cp_action list" where
  "timer_events timer p (Some (PendingRequest d)) = (if timer d = TimerNotReady then [] else [DialPeer p])"
| "timer_events timer p (Some (DisabledPendingEnable c op d)) =
     (if timer d = TimerNotReady then [] else [SendEvent p HandlerEnable])"
| "timer_events timer p _ = []"

lemma poll_timers_evs:
  "distinct (map fst ps) \<Longrightarrow> evs p (snd (poll_timers timer ps)) = timer_events timer p (map_of ps p)"
proof (induction ps)
  case (Cons x ps)
  obtain q st where x: "x = (q, st)" by (cases x)
  have "map_of ps q = None" using Cons.prems x by (simp add: map_of_eq_None_iff)
  with Cons x show ?case
    by (cases st) (auto simp: evs_def split: prod.splits)
qed (simp add: evs_def)

lemma timer_events_ok:
  "open_ok b (timer_events timer p st)" "fold open_after (timer_events timer p st) b = b"
  "st_mode (map_option (timed timer) st) = fold mode_after (timer_events timer p st) (st_mode st)"
  by (cases "(timer, p, st)" rule: timer_events.cases; simp add: timed_def)+

lemma timed_open: "peer_state_is_open (timed timer st) = peer_state_is_open st"
  by (cases st) (simp_all add: timed_def)

lemma poll_work_follows:
  assumes "cp_inv s" "poll_work now clk timer s = Inr t"
  shows "follows (mode s) s t"
proof -
  from assms(2) obtain u where u: "poll_peerset now clk s = Inr u"
    "t = u\<lparr>cp_peers := fst (poll_timers timer (cp_peers u)), cp_events := cp_events u @ snd (poll_timers timer (cp_peers u))\<rparr>"
    by (auto simp: poll_work_def try_iffs case_prod_beta)
  have "distinct (map fst (cp_peers u))"
    using poll_peerset_ok [of s now clk] assms(1) u(1) by (auto simp: cp_ok_def cp_inv_def)
  then have "follows (mode u) u t"
    unfolding follows_def u(2)
    by (intro exI [of _ "snd (poll_timers timer (cp_peers u))"])
       (simp add: is_open_def mode_def poll_timers_evs poll_timers_map timer_events_ok timed_open split: option.split)
  with poll_peerset_follows [OF u(1)] show ?thesis by (rule follows_trans)
qed

section \<open>Reachable states\<close>

text \<open>The behaviour with the actions it has handed to libp2p. A step is a call of the public
  interface, an event of libp2p, an event of a handler that respects its own protocol, a poll, an
  action sent through a handle of the peer set manager, or a reordering of a hash table. libp2p
  reports a connection only for a peer without one, and the index counter is assumed not to be
  exhausted: it takes \<open>2 ^ 64 - 1\<close> incoming connections.\<close>

type_synonym ('p, 'c) network = "('p, 'c) custom_proto \<times> ('p, 'c) cp_action list"

definition cp_init :: "('p, 'c) network \<Rightarrow> bool" where
  "cp_init n \<longleftrightarrow> (\<exists>protocol versions ps. psm_init ps \<and> n = (custom_proto_new protocol versions ps, []))"

inductive cp_step :: "('c \<Rightarrow> bool) \<Rightarrow> ('p, 'c) network \<Rightarrow> ('p, 'c) network \<Rightarrow> bool" for lis where
  cp_disconnect: "disconnect_peer clk p s = Inr t \<Longrightarrow> cp_step lis (s, h) (t, h)"
| cp_send: "cp_step lis (s, h) (send_packet p m s, h)"
| cp_discovered: "add_discovered_nodes clk ps s = Inr t \<Longrightarrow> cp_step lis (s, h) (t, h)"
| cp_connected: "mode s p = None \<Longrightarrow> next_incoming_index s \<noteq> - 1 \<Longrightarrow>
    inject_connected lis clk p c s = Inr t \<Longrightarrow> cp_step lis (s, h) (t, h)"
| cp_disconnected: "inject_disconnected clk dur p s = Inr t \<Longrightarrow> cp_step lis (s, h) (t, h)"
| cp_dial_failure: "inject_dial_failure clk p s = Inr t \<Longrightarrow> cp_step lis (s, h) (t, h)"
| cp_node: "node_event_ok p ev s \<Longrightarrow> inject_node_event clk p ev s = Inr t \<Longrightarrow> cp_step lis (s, h) (t, h)"
| cp_polled: "cp_poll now tm timer s = Inr (a, t) \<Longrightarrow>
    cp_step lis (s, h) (t, h @ (case a of None \<Rightarrow> [] | Some e \<Rightarrow> [e]))"
| cp_handle: "action_wf a \<Longrightarrow> cp_step lis (s, h) (s\<lparr>cp_peerset := send_action a (cp_peerset s)\<rparr>, h)"
| cp_rehash: "rehash (data (cp_peerset s)) d \<Longrightarrow>
    cp_step lis (s, h) (s\<lparr>cp_peerset := (cp_peerset s)\<lparr>data := d\<rparr>\<rparr>, h)"
| cp_reorder: "mset ps = mset (cp_peers s) \<Longrightarrow> cp_step lis (s, h) (s\<lparr>cp_peers := ps\<rparr>, h)"

text \<open>What has been said so far, delivered or still queued.\<close>

definition said :: "('p, 'c) network \<Rightarrow> ('p, 'c) cp_action list" where
  "said n = snd n @ cp_events (fst n)"

definition net_inv :: "('p, 'c) network \<Rightarrow> bool" where
  "net_inv n \<longleftrightarrow> cp_inv (fst n) \<and>
     (\<forall>p. open_ok False (evs p (said n)) \<and> is_open (fst n) p = fold open_after (evs p (said n)) False)"

lemma net_inv_follows:
  assumes "net_inv (s, h)" "follows m0 s t" "cp_inv t"
  shows "net_inv (t, h)"
proof -
  obtain es where es: "cp_events t = cp_events s @ es" "\<And>p. open_ok (is_open s p) (evs p es)"
    "\<And>p. is_open t p = fold open_after (evs p es) (is_open s p)"
    using assms(2) unfolding follows_def by blast
  have "evs p (said (t, h)) = evs p (said (s, h)) @ evs p es" for p by (simp add: said_def evs_def es(1))
  with assms(1,3) es(2,3) show ?thesis by (simp add: net_inv_def open_ok_append)
qed

lemma cp_ok_Inr_inv: "cp_ok s r \<Longrightarrow> cp_inv s \<Longrightarrow> r = Inr t \<Longrightarrow> cp_inv t"
  by (auto simp: cp_ok_def)

lemma cp_inv_peerset: "cp_inv s \<Longrightarrow> psm_inv ps \<Longrightarrow> cp_inv (s\<lparr>cp_peerset := ps\<rparr>)"
  by (rule cp_inv_frame [of s]) simp_all

lemma net_inv_peerset: "net_inv (s, h) \<Longrightarrow> psm_inv ps \<Longrightarrow> net_inv (s\<lparr>cp_peerset := ps\<rparr>, h)"
  by (rule net_inv_follows [OF _ follows_frame]) (auto simp: net_inv_def cp_inv_peerset)

lemma cp_poll_eq:
  "cp_poll now clk timer s = Inr (a, t) \<longleftrightarrow> (\<exists>u. poll_work now clk timer s = Inr u \<and>
     (a = None \<and> cp_events u = [] \<and> t = u \<or>
      (\<exists>e es. a = Some e \<and> cp_events u = e # es \<and> t = u\<lparr>cp_events := es\<rparr>)))"
proof -
  have "(case cp_events u of [] \<Rightarrow> (Inr (None, u) :: psm_panic + _) | e # rest \<Rightarrow> Inr (Some e, u\<lparr>cp_events := rest\<rparr>)) = Inr (a, t) \<longleftrightarrow>
    a = None \<and> cp_events u = [] \<and> t = u \<or> (\<exists>e es. a = Some e \<and> cp_events u = e # es \<and> t = u\<lparr>cp_events := es\<rparr>)" for u
    by (cases "cp_events u") auto
  then show ?thesis by (simp add: cp_poll_def try_iffs)
qed

lemma cp_step_inv:
  assumes inv: "net_inv n" and step: "cp_step lis n n'"
  shows "net_inv n'"
  using step
proof cases
  case (cp_disconnect clk p s t h)
  then have s: "cp_inv s" and d: "disconnect_peer_inner clk p None s = Inr t"
    using inv by (simp_all add: net_inv_def disconnect_peer_def)
  from cp_ok_Inr_inv [OF disconnect_peer_inner_ok s d] show ?thesis
    using inv cp_disconnect net_inv_follows [OF _ disconnect_peer_inner_follows [OF s d]] by simp
next
  case (cp_send s h p m)
  have "cp_inv (send_packet p m s)" using inv cp_send by (simp add: net_inv_def send_packet_def)
  with cp_send inv net_inv_follows [OF _ send_packet_follows] show ?thesis by simp
next
  case (cp_discovered clk ps s t h)
  then obtain d where d: "discovered (clk 0) ps (cp_peerset s) = Inr d" "t = s\<lparr>cp_peerset := d\<rparr>"
    by (auto simp: add_discovered_nodes_def try_iffs)
  have "psm_inv (cp_peerset s)" using inv cp_discovered by (simp add: net_inv_def cp_psm)
  with discovered_safe [of "clk 0" ps] d(1) have "psm_inv d" by (auto simp: safe_def)
  with cp_discovered d inv net_inv_peerset [of s h d] show ?thesis by simp
next
  case (cp_connected s p clk c t h)
  then have s: "cp_inv s" using inv by (simp add: net_inv_def)
  from inject_connected_follows [OF cp_connected(4) s cp_connected(3,5)]
    cp_ok_Inr_inv [OF inject_connected_ok [OF cp_connected(4)] s cp_connected(5)]
  show ?thesis using inv cp_connected by (auto intro: net_inv_follows)
next
  case (cp_disconnected clk dur p s t h)
  then have "cp_inv s" using inv by (simp add: net_inv_def)
  from cp_ok_Inr_inv [OF inject_disconnected_ok this cp_disconnected(3)] show ?thesis
    using inv cp_disconnected net_inv_follows [OF _ inject_disconnected_follows [OF cp_disconnected(3)]] by simp
next
  case (cp_dial_failure clk p s t h)
  then have "cp_inv s" using inv by (simp add: net_inv_def)
  from cp_ok_Inr_inv [OF inject_dial_failure_ok this cp_dial_failure(3)] show ?thesis
    using inv cp_dial_failure net_inv_follows [OF _ inject_dial_failure_follows [OF cp_dial_failure(3)]] by simp
next
  case (cp_node p ev s clk t h)
  then have s: "cp_inv s" using inv by (simp add: net_inv_def)
  from cp_ok_Inr_inv [OF inject_node_event_ok [OF cp_node(3)] s cp_node(4)] show ?thesis
    using inv cp_node net_inv_follows [OF _ inject_node_event_follows [OF s cp_node(3,4)]] by simp
next
  case (cp_polled now tm timer s a t h)
  then obtain u where u: "poll_work now tm timer s = Inr u" "a = None \<and> cp_events u = [] \<and> t = u \<or>
      (\<exists>e es. a = Some e \<and> cp_events u = e # es \<and> t = u\<lparr>cp_events := es\<rparr>)"
    unfolding cp_poll_eq by blast
  have s: "cp_inv s" using inv cp_polled by (simp add: net_inv_def)
  have "net_inv (u, h)"
    using inv cp_polled net_inv_follows [OF _ poll_work_follows [OF s u(1)] cp_ok_Inr_inv [OF poll_work_ok s u(1)]]
    by simp
  moreover have "said n' = said (u, h)" using u(2) cp_polled by (auto simp: said_def)
  moreover have "cp_inv t = cp_inv u" "is_open t = is_open u"
    using u(2) by (auto simp: cp_inv_def is_open_def fun_eq_iff simp del: map_of_eq_Some_iff)
  ultimately show ?thesis using cp_polled by (simp add: net_inv_def)
next
  case (cp_handle a s h)
  then have "psm_inv (send_action a (cp_peerset s))"
    using inv by (auto simp: net_inv_def intro!: psm_step_inv [OF cp_psm psm_step.step_send])
  with cp_handle inv net_inv_peerset show ?thesis by simp
next
  case (cp_rehash s d h)
  then have "psm_inv ((cp_peerset s)\<lparr>data := d\<rparr>)"
    using inv by (auto simp: net_inv_def intro!: psm_step_inv [OF cp_psm psm_step.step_rehash])
  with cp_rehash inv net_inv_peerset show ?thesis by simp
next
  case (cp_reorder ps s h)
  have "distinct (map fst (cp_peers s))" using inv cp_reorder by (simp add: net_inv_def cp_inv_def)
  from map_of_mset [OF this cp_reorder(3)] show ?thesis
    using inv cp_reorder by (simp add: net_inv_def cp_inv_def is_open_def said_def)
qed

interpretation network: inductive_invariant cp_init "cp_step lis" net_inv for lis
proof unfold_locales
  show "net_inv n" if "cp_init n" for n :: "('a, 'b) network"
    using that psm.reach_inv [OF reach_init]
    by (auto simp: cp_init_def net_inv_def cp_inv_def custom_proto_new_def said_def evs_def is_open_def)
qed (rule cp_step_inv)

section \<open>Bans\<close>

text \<open>The deadline before which a peer is neither dialed nor enabled.\<close>

fun banned_until :: "'c peer_state option \<Rightarrow> nat option" where
  "banned_until (Some (Banned u)) = Some u"
| "banned_until (Some (PendingRequest u)) = Some u"
| "banned_until (Some (Disabled _ _ u)) = u"
| "banned_until (Some (DisabledPendingEnable _ _ u)) = Some u"
| "banned_until _ = None"

definition ban_of :: "('p, 'c) custom_proto \<Rightarrow> 'p \<Rightarrow> nat option" where
  "ban_of s p = banned_until (map_of (cp_peers s) p)"

text \<open>Nothing was queued for the peer and its ban stands.\<close>

definition silent :: "'p \<Rightarrow> ('p, 'c) custom_proto \<Rightarrow> ('p, 'c) custom_proto \<Rightarrow> bool" where
  "silent p s t \<longleftrightarrow> ban_of t p = ban_of s p \<and> (\<exists>es. cp_events t = cp_events s @ es \<and> evs p es = [])"

lemma silent_refl: "silent p s s"
  by (simp add: silent_def evs_def)

lemma silent_trans: "silent p s t \<Longrightarrow> silent p t u \<Longrightarrow> silent p s u"
proof -
  assume st: "silent p s t" "silent p t u"
  then obtain es fs where "cp_events t = cp_events s @ es" "evs p es = []" "cp_events u = cp_events t @ fs" "evs p fs = []"
    unfolding silent_def by blast
  with st show ?thesis unfolding silent_def by (auto intro!: exI [of _ "es @ fs"] simp: evs_def)
qed

lemma silent_same: "cp_events t = cp_events s \<Longrightarrow> cp_peers t = cp_peers s \<Longrightarrow> silent p s t"
  by (simp add: silent_def ban_of_def evs_def)

lemma silent_other:
  "q \<noteq> p \<Longrightarrow> act_peer e = q \<Longrightarrow> silent p s (set_peer q st (emit e (s\<lparr>cp_incoming := is\<rparr>)))"
  "q \<noteq> p \<Longrightarrow> act_peer e = q \<Longrightarrow> silent p s (set_peer q st (emit e s))"
  "q \<noteq> p \<Longrightarrow> silent p s (set_peer q st s)" "q \<noteq> p \<Longrightarrow> silent p s (remove_peer q s)"
  by (auto simp: silent_def ban_of_def evs_def delete_conv')

lemma silent_incoming: "silent p s (s\<lparr>cp_incoming := is\<rparr>)"
  by (rule silent_same) simp_all

lemma silent_set: "map_of (cp_peers s) p = Some st0 \<Longrightarrow> banned_until (Some st) = banned_until (Some st0) \<Longrightarrow> silent p s (set_peer p st s)"
  by (simp add: silent_def ban_of_def evs_def)

lemma connect_silent:
  assumes "ban_of s p = Some u" "clk 0 < u"
  shows "silent p s (peerset_report_connect clk q s)"
proof (cases "q = p")
  case True
  obtain st where st: "map_of (cp_peers s) p = Some st" using assms(1) by (cases "map_of (cp_peers s) p") (auto simp: ban_of_def)
  with assms True show ?thesis
    by (cases st) (simp_all add: ban_of_def peerset_report_connect_def silent_refl silent_set [OF st])
next
  case False
  then show ?thesis
    by (simp add: peerset_report_connect_def Let_def silent_refl silent_other split: option.split peer_state.split)
qed

lemma disconnect_silent:
  assumes "ban_of s p = Some u"
  shows "silent p s (peerset_report_disconnect q s)"
proof (cases "q = p")
  case True
  obtain st where st: "map_of (cp_peers s) p = Some st" using assms(1) by (cases "map_of (cp_peers s) p") (auto simp: ban_of_def)
  with assms True show ?thesis
    by (cases st) (simp_all add: ban_of_def peerset_report_disconnect_def silent_refl silent_set [OF st])
next
  case False
  then show ?thesis
    by (simp add: peerset_report_disconnect_def silent_refl silent_other split: option.split peer_state.split)
qed

lemma ban_not_incoming: "ban_of s p = Some u \<Longrightarrow> map_of (cp_peers s) q = Some (Incoming c) \<Longrightarrow> q \<noteq> p"
  by (auto simp: ban_of_def simp del: map_of_eq_Some_iff)

lemma accept_silent:
  assumes "ban_of s p = Some u" "peerset_report_accept clk index s = Inr t"
  shows "silent p s t"
proof (cases "take_incoming index (cp_incoming s)")
  case None
  with assms(2) show ?thesis by (simp add: peerset_report_accept_def silent_refl)
next
  case (Some x)
  obtain i "is" where x: "x = (i, is)" by (cases x)
  show ?thesis
  proof (cases "alive i")
    case False
    with assms(2) Some x have "psm_dropped clk (ip_peer_id i) (s\<lparr>cp_incoming := is\<rparr>) = Inr t"
      by (simp add: peerset_report_accept_def)
    from psm_dropped_frame [OF this] show ?thesis by (intro silent_same) simp_all
  next
    case True
    with assms(2) Some x show ?thesis
      using ban_not_incoming [OF assms(1), of "ip_peer_id i"]
      by (auto simp: peerset_report_accept_def Let_def silent_incoming silent_other
          simp del: map_of_eq_Some_iff split: option.splits peer_state.splits)
  qed
qed

lemma reject_silent:
  assumes "ban_of s p = Some u"
  shows "silent p s (peerset_report_reject index s)"
  using ban_not_incoming [OF assms]
  by (simp add: peerset_report_reject_def Let_def silent_refl silent_incoming silent_other
      del: map_of_eq_Some_iff split: option.split prod.split peer_state.split)

lemma peerset_report_silent:
  assumes "ban_of s p = Some u" "clk 0 < u" "peerset_report clk m s = Inr t"
  shows "silent p s t"
  using assms connect_silent [of s p u clk] disconnect_silent [OF assms(1)] reject_silent [OF assms(1)]
    accept_silent [OF assms(1)]
  by (cases m) (auto simp: peerset_report_def)

lemma poll_peerset_silent:
  "ban_of s p = Some u \<Longrightarrow> (\<And>i. clk i 0 < u) \<Longrightarrow> poll_peerset now clk s = Inr t \<Longrightarrow> silent p s t"
proof (induction now clk s rule: poll_peerset.induct)
  case (1 now clk s)
  from 1(4) obtain m ps where ps: "poll_next (now 0) (cp_peerset s) = Inr (m, ps)"
    by (auto simp: poll_peerset.simps [of now] split: sum.splits)
  have frame: "silent p s (s\<lparr>cp_peerset := ps\<rparr>)" by (rule silent_same) simp_all
  have ban: "ban_of (s\<lparr>cp_peerset := ps\<rparr>) p = Some u" using 1(2) by (simp add: ban_of_def)
  show ?case
  proof (cases m)
    case None
    with 1(4) ps frame show ?thesis by (simp add: poll_peerset.simps [of now])
  next
    case (Some msg)
    with 1(4) ps obtain v where v: "peerset_report (clk 0) msg (s\<lparr>cp_peerset := ps\<rparr>) = Inr v"
      "poll_peerset (\<lambda>i. now (Suc i)) (\<lambda>i. clk (Suc i)) v = Inr t"
      by (auto simp: poll_peerset.simps [of now] split: sum.splits)
    from frame peerset_report_silent [of _ p u "clk 0", OF ban 1(3) v(1)] have sv: "silent p s v" by (rule silent_trans)
    then have "ban_of v p = Some u" using 1(2) by (simp add: silent_def)
    from sv 1(1) [OF ps refl Some v(1) this 1(3) v(2)] show ?thesis by (rule silent_trans)
  qed
qed

section \<open>Properties\<close>

text \<open>C4. In every reachable state of the behaviour, no peer is left in the poisoned state, every peer
  in the incoming state has a live entry in the list of incoming connections, the ids of the
  entries are pairwise different, and no call panics: each operation, and polling with its loops,
  returns.\<close>

theorem network_safe:
  assumes "reach cp_init (cp_step lis) (s, h)"
  shows "(\<forall>p. map_of (cp_peers s) p \<noteq> Some Poisoned) \<and>
    (\<forall>p c. map_of (cp_peers s) p = Some (Incoming c) \<longrightarrow> live p (cp_incoming s)) \<and>
    distinct (map incoming_id (cp_incoming s)) \<and>
    (\<exists>t. disconnect_peer clk p s = Inr t) \<and> (\<exists>t. inject_disconnected clk dur p s = Inr t) \<and>
    (\<exists>t. inject_dial_failure clk p s = Inr t) \<and>
    (next_incoming_index s \<noteq> - 1 \<longrightarrow> (\<exists>t. inject_connected lis clk p c s = Inr t)) \<and>
    (node_event_ok p ev s \<longrightarrow> (\<exists>t. inject_node_event clk p ev s = Inr t)) \<and>
    (\<exists>a t. cp_poll now tm timer s = Inr (a, t))"
proof -
  have inv: "cp_inv s" using network.reach_inv [OF assms] by (simp add: net_inv_def)
  have "\<exists>a t. cp_poll now tm timer s = Inr (a, t)"
    using poll_work_ok [of s now tm timer] inv
    by (cases "poll_work now tm timer s") (auto simp: cp_poll_def cp_ok_def split: list.split)
  moreover have "distinct (map incoming_id (cp_incoming s))" using inv by (simp add: cp_inv_def)
  ultimately show ?thesis
    using inv disconnect_peer_inner_ok [of s clk p None] inject_disconnected_ok [of s clk dur p]
      inject_dial_failure_ok [of s clk p] inject_connected_ok [of s lis clk p c]
      inject_node_event_ok [of p ev s clk] cp_incoming_live [OF inv] cp_not_poisoned [OF inv]
    unfolding cp_ok_def disconnect_peer_def by blast
qed

definition example_net :: "(nat, bool) custom_proto" where
  "example_net = custom_proto_new [] [] \<lparr>data = \<lparr>nodes = [], num_in = 0, num_out = 0, max_in = 1, max_out = 0,
     priority_nodes = [(RESERVED_NODES, [])], priority_only = False\<rparr>, reserved_only = False, rx = [],
     message_queue = [], created = 0, latest_time_update = 0\<rparr>"

definition example_in_config :: "nat peerset_config" where
  "example_in_config = \<lparr>in_peers = 1, out_peers = 0, bootnodes = [], cfg_reserved_only = False, reserved_nodes = []\<rparr>"

lemma example_net_reach: "reach cp_init (cp_step lis) (example_net, [])"
proof -
  have "from_config 0 0 0 example_in_config = Inr (cp_peerset example_net)"
    by (simp add: from_config_def example_in_config_def peers_state_new_def run_simps example_net_def custom_proto_new_def)
  then show ?thesis
    by (intro reach_init) (auto simp: cp_init_def psm_init_def example_net_def custom_proto_new_def)
qed

theorem network_safe_witness:
  "\<exists>t. disconnect_peer (\<lambda>_. 0) 7 example_net = Inr t"
  using network_safe [OF example_net_reach] by blast


text \<open>C20. Every operation of the behaviour tells the handler of a connection exactly what the state of
  its peer says: the actions queued turn the mode of each handler (initial, enabled or
  disabled) into the mode the new state stands for, and account for every change of what is open.
  A new connection starts in the initial mode and a lost one has none.\<close>

theorem handlers_follow_state:
  assumes "reach cp_init (cp_step lis) (s, h)"
  shows "(disconnect_peer clk p s = Inr t \<longrightarrow> follows (mode s) s t) \<and>
    (mode s p = None \<longrightarrow> next_incoming_index s \<noteq> - 1 \<longrightarrow> inject_connected lis clk p c s = Inr t \<longrightarrow>
       follows ((mode s)(p := Some ModeInit)) s t) \<and>
    (inject_disconnected clk dur p s = Inr t \<longrightarrow> follows ((mode s)(p := None)) s t) \<and>
    (inject_dial_failure clk p s = Inr t \<longrightarrow> follows (mode s) s t) \<and>
    (node_event_ok p ev s \<longrightarrow> inject_node_event clk p ev s = Inr t \<longrightarrow> follows (mode s) s t) \<and>
    (poll_work now tm timer s = Inr t \<longrightarrow> follows (mode s) s t)"
proof -
  have inv: "cp_inv s" using network.reach_inv [OF assms] by (simp add: net_inv_def)
  show ?thesis
    using disconnect_peer_inner_follows [OF inv, of clk p None t] inject_connected_follows [OF _ inv, of p lis clk c t]
      inject_disconnected_follows [of clk dur p s t] inject_dial_failure_follows [of clk p s t]
      inject_node_event_follows [OF inv, of p ev clk t] poll_work_follows [OF inv, of now tm timer t]
    by (simp add: disconnect_peer_def)
qed

text \<open>C30. While the ban of a peer runs, polling neither dials it nor enables its handler, whatever the
  peer set manager asks for in between: nothing is queued for the peer and its deadline stands.
  Timers are assumed not to fire before their deadline.\<close>

theorem ban_respected:
  assumes "reach cp_init (cp_step lis) (s, h)" "ban_of s p = Some u" "\<And>i. tm i 0 < u" "timer u = TimerNotReady"
    and "poll_work now tm timer s = Inr t"
  shows "silent p s t"
proof -
  have inv: "cp_inv s" using network.reach_inv [OF assms(1)] by (simp add: net_inv_def)
  from assms(5) obtain v where v: "poll_peerset now tm s = Inr v"
    "t = v\<lparr>cp_peers := fst (poll_timers timer (cp_peers v)), cp_events := cp_events v @ snd (poll_timers timer (cp_peers v))\<rparr>"
    by (auto simp: poll_work_def try_iffs case_prod_beta)
  have sv: "silent p s v" by (rule poll_peerset_silent [OF assms(2,3) v(1)])
  have keys: "distinct (map fst (cp_peers v))"
    using poll_peerset_ok [of s now tm] inv v(1) by (auto simp: cp_ok_def cp_inv_def)
  obtain st where st: "map_of (cp_peers v) p = Some st" "banned_until (Some st) = Some u"
    using sv assms(2) by (cases "map_of (cp_peers v) p") (auto simp: silent_def ban_of_def)
  have "timer_events timer p (Some st) = []" "timed timer st = st"
    using st(2) assms(4) by (cases st; auto simp: timed_def)+
  then have "silent p v t"
    unfolding silent_def ban_of_def v(2) using st(1) keys
    by (auto simp: poll_timers_map poll_timers_evs intro!: exI [of _ "snd (poll_timers timer (cp_peers v))"])
  with sv show ?thesis by (rule silent_trans)
qed

section \<open>Runs of the behaviour\<close>

text \<open>One incoming slot and no outgoing slot. Peer 7 connects as a dialer.\<close>

definition example_state ::
  "connection_state \<Rightarrow> int \<Rightarrow> u32 \<Rightarrow> nat message list \<Rightarrow> (nat \<times> bool peer_state) list \<Rightarrow> nat incoming_peer list \<Rightarrow>
     incoming_index \<Rightarrow> (nat, bool) custom_proto" where
  "example_state c r k q ps is n = example_net\<lparr>
     cp_peerset := \<lparr>data = \<lparr>nodes = [(7, \<lparr>conn = c, reputation = r\<rparr>)], num_in = k, num_out = 0, max_in = 1, max_out = 0,
       priority_nodes = [(RESERVED_NODES, [])], priority_only = False\<rparr>, reserved_only = False, rx = [],
       message_queue = q, created = 0, latest_time_update = 0\<rparr>,
     cp_peers := ps, cp_incoming := is, next_incoming_index := n\<rparr>"

lemmas net_simps = example_state_def example_net_def custom_proto_new_def incoming_def incoming_adjust_def answer_incoming_def
  peer_try_accept_incoming_def try_accept_incoming_def inject_connected_def inject_disconnected_def set_peer_def
  remove_peer_def run_simps

lemma run_connected:
  "inject_connected id (\<lambda>_. 0) 7 True example_net =
     Inr (example_state In 0 1 [Accept 0] [(7, Incoming True)] [\<lparr>ip_peer_id = 7, alive = True, incoming_id = 0\<rparr>] 1)"
  by (simp add: net_simps)

lemma run_disconnected:
  "inject_disconnected (\<lambda>_. 0) 5 7
     (example_state In 0 1 [Accept 0] [(7, Incoming True)] [\<lparr>ip_peer_id = 7, alive = True, incoming_id = 0\<rparr>] 1) =
     Inr (example_state In 0 1 [Accept 0] [] [\<lparr>ip_peer_id = 7, alive = False, incoming_id = 0\<rparr>] 1)"
  by (simp add: net_simps)

lemma run_reconnected:
  "inject_connected id (\<lambda>_. 0) 7 True
     (example_state In 0 1 [Accept 0] [] [\<lparr>ip_peer_id = 7, alive = False, incoming_id = 0\<rparr>] 1) =
     Inr (example_state In 0 1 [Accept 0] [(7, Incoming True)]
       [\<lparr>ip_peer_id = 7, alive = False, incoming_id = 0\<rparr>, \<lparr>ip_peer_id = 7, alive = True, incoming_id = 1\<rparr>] 2)"
  by (simp add: net_simps)

lemmas poll_simps = cp_poll_def poll_work_def poll_peerset.simps poll_next.simps peerset_report_def
  peerset_report_accept_def psm_dropped_def dropped_def dropped_adjust_def add_reputation_def disconnect_def
  DISCONNECT_REPUTATION_CHANGE_def saturating_add_def sat_i32_def

lemma run_polled:
  "cp_poll (\<lambda>_ _. 0) (\<lambda>_ _. 0) (\<lambda>_. TimerNotReady) (example_state In 0 1 [Accept 0] [(7, Incoming True)]
       [\<lparr>ip_peer_id = 7, alive = False, incoming_id = 0\<rparr>, \<lparr>ip_peer_id = 7, alive = True, incoming_id = 1\<rparr>] 2) =
     Inr (None, example_state NotConnected (- 10) 0 [] [(7, Incoming True)]
       [\<lparr>ip_peer_id = 7, alive = True, incoming_id = 1\<rparr>] 2)"
  by (simp add: poll_simps net_simps)

lemma run_stable:
  "cp_poll now tm timer (example_state NotConnected (- 10) 0 [] [(7, Incoming True)]
       [\<lparr>ip_peer_id = 7, alive = True, incoming_id = 1\<rparr>] 2) =
     Inr (None, example_state NotConnected (- 10) 0 [] [(7, Incoming True)]
       [\<lparr>ip_peer_id = 7, alive = True, incoming_id = 1\<rparr>] 2)"
  by (simp add: poll_simps net_simps)

lemma run_accepted:
  "cp_poll (\<lambda>_ _. 0) (\<lambda>_ _. 0) (\<lambda>_. TimerNotReady) (example_state In 0 1 [Accept 0] [(7, Incoming True)]
       [\<lparr>ip_peer_id = 7, alive = True, incoming_id = 0\<rparr>] 1) =
     Inr (Some (SendEvent 7 HandlerEnable), example_state In 0 1 [] [(7, Enabled True False)] [] 1)"
  by (simp add: poll_simps net_simps emit_def)

text \<open>Peer 7 is accepted and its protocol opens; the opening is still queued.\<close>

definition example_open :: "(nat, bool) custom_proto" where
  "example_open = node_open 7 1 (example_state In 0 1 [] [(7, Enabled True False)] [] 1)"

lemma example_open_reach:
  "reach cp_init (cp_step id) (example_open, [SendEvent 7 HandlerEnable])"
proof -
  let ?s1 = "example_state In 0 1 [Accept 0] [(7, Incoming True)] [\<lparr>ip_peer_id = 7, alive = True, incoming_id = 0\<rparr>] 1"
  let ?s2 = "example_state In 0 1 [] [(7, Enabled True False)] [] 1"
  have "mode example_net 7 = None" "next_incoming_index example_net \<noteq> - 1"
    by (simp_all add: example_net_def custom_proto_new_def mode_def)
  from reach_step [OF example_net_reach cp_connected [OF this run_connected]]
  have "reach cp_init (cp_step id) (?s1, [])" .
  from reach_step [OF this cp_polled [OF run_accepted]]
  have r: "reach cp_init (cp_step id) (?s2, [SendEvent 7 HandlerEnable])" by (simp only: option.simps append_Nil)
  have "node_event_ok 7 (HandlerOpen 1) ?s2" "inject_node_event (\<lambda>_. 0) 7 (HandlerOpen 1) ?s2 = Inr example_open"
    by (simp_all add: node_event_ok_def inject_node_event_def example_open_def)
  from reach_step [OF r cp_node [OF this]] show ?thesis .
qed

lemma example_open_events: "cp_events example_open = [GenerateEvent (CustomProtocolOpen 1 7 True)]"
  by (simp add: example_open_def node_open_def example_state_def example_net_def custom_proto_new_def)


theorem handlers_follow_state_witness:
  "\<exists>t. disconnect_peer (\<lambda>_. 0) 7 example_open = Inr t \<and> follows (mode example_open) example_open t"
proof -
  obtain t where "disconnect_peer_inner (\<lambda>_. 0) 7 None example_open = Inr t"
    using disconnect_peer_inner_ok [of example_open "\<lambda>_. 0" 7 None] network.reach_inv [OF example_open_reach]
    by (auto simp: cp_ok_def net_inv_def)
  then show ?thesis
    using handlers_follow_state [OF example_open_reach, of "\<lambda>_. 0" 7 t] by (auto simp: disconnect_peer_def)
qed

text \<open>C31. The answer to an incoming connection can be lost: when a peer connects, disconnects and
  connects again before the peer set manager is polled, the manager takes the second connection
  for the first and does not answer it, the acceptance of the first is dropped as obsolete, and the
  behaviour reaches a state in which the peer waits in the incoming state, its handler neither
  enabled nor disabled, and polling at any time changes nothing.\<close>

theorem incoming_never_answered:
  "\<exists>s h. reach cp_init (cp_step id) (s, h) \<and> map_of (cp_peers s) (7 :: nat) = Some (Incoming True) \<and>
     mode s 7 = Some ModeInit \<and> cp_events s = [] \<and>
     (\<forall>now tm timer. cp_poll now tm timer s = Inr (None, s))"
proof -
  let ?s = "example_state NotConnected (- 10) 0 [] [(7, Incoming True)] [\<lparr>ip_peer_id = 7, alive = True, incoming_id = 1\<rparr>] 2"
  have "mode example_net 7 = None" "next_incoming_index example_net \<noteq> - 1"
    by (simp_all add: example_net_def custom_proto_new_def mode_def)
  note r1 = reach_step [OF example_net_reach cp_connected [OF this run_connected]]
  note r2 = reach_step [OF r1 cp_disconnected [OF run_disconnected]]
  have "mode (example_state In 0 1 [Accept 0] [] [\<lparr>ip_peer_id = 7, alive = False, incoming_id = 0\<rparr>] 1) 7 = None"
    "next_incoming_index (example_state In 0 1 [Accept 0] [] [\<lparr>ip_peer_id = 7, alive = False, incoming_id = 0\<rparr>] 1) \<noteq> - 1"
    by (simp_all add: example_state_def mode_def)
  note r3 = reach_step [OF r2 cp_connected [OF this run_reconnected]]
  note r4 = reach_step [OF r3 cp_polled [OF run_polled]]
  have "map_of (cp_peers ?s) 7 = Some (Incoming True)" "mode ?s 7 = Some ModeInit" "cp_events ?s = []"
    by (simp_all add: example_state_def mode_def example_net_def custom_proto_new_def)
  with r4 run_stable show ?thesis by blast
qed

text \<open>A ban: the accepted peer commits a severe protocol error.\<close>

lemma example_banned:
  "\<exists>s h. reach cp_init (cp_step id) (s, h) \<and> ban_of s (7 :: nat) = Some 5000000000"
proof -
  obtain t where t: "inject_node_event (\<lambda>_. 0) 7 (ProtocolError True ''bad'') example_open = Inr t"
    using inject_node_event_ok [of 7 "ProtocolError True ''bad''" example_open "\<lambda>_. 0"] network.reach_inv [OF example_open_reach]
    by (auto simp: cp_ok_def net_inv_def node_event_ok_def)
  have "map_of (cp_peers example_open) 7 = Some (Enabled True True)"
    by (simp add: example_open_def node_open_def example_state_def)
  with t have "ban_of t 7 = Some 5000000000"
    by (auto simp: inject_node_event_def disconnect_peer_inner_def try_iffs psm_dropped_Inr ban_of_def from_secs_def)
  moreover have "node_event_ok 7 (ProtocolError True ''bad'') example_open" by (simp add: node_event_ok_def)
  note reach_step [OF example_open_reach cp_node [OF this t]]
  ultimately show ?thesis by blast
qed

theorem ban_respected_witness:
  "\<exists>s t. ban_of s (7 :: nat) = Some 5000000000 \<and>
     poll_work (\<lambda>_ _. 0) (\<lambda>_ _. 1) (\<lambda>_. TimerNotReady) s = Inr t \<and> silent 7 (s :: (nat, bool) custom_proto) t"
proof -
  obtain s :: "(nat, bool) custom_proto" and h
    where s: "reach cp_init (cp_step id) (s, h)" "ban_of s 7 = Some 5000000000" using example_banned by blast
  obtain t where t: "poll_work (\<lambda>_ _. 0) (\<lambda>_ _. 1) (\<lambda>_. TimerNotReady) s = Inr t"
    using poll_work_ok [of s "\<lambda>_ _. 0" "\<lambda>_ _. 1" "\<lambda>_. TimerNotReady"] network.reach_inv [OF s(1)]
    by (auto simp: cp_ok_def net_inv_def)
  have "silent 7 s t" by (rule ban_respected [OF s _ _ t]) simp_all
  with s t show ?thesis by blast
qed

end
