(* ===== verification/Btree_Map.thy ===== *)
theory Btree_Map
  imports Stargate_Prelude "HOL-Library.List_Lexorder"
begin

text \<open>
  Ordered maps of the Rust standard library (\<open>BTreeMap\<close>, \<open>BTreeSet\<close>) as association lists in
  strictly increasing key order, which is their iteration order. Byte strings are ordered
  lexicographically.
\<close>

fun bt_insert :: "'k::linorder \<Rightarrow> 'v \<Rightarrow> ('k \<times> 'v) list \<Rightarrow> ('k \<times> 'v) list" where
  "bt_insert k v [] = [(k, v)]"
| "bt_insert k v ((k', v') # m) =
     (if k < k' then (k, v) # (k', v') # m
      else if k = k' then (k, v) # m
      else (k', v') # bt_insert k v m)"

definition bt_contains :: "('k \<times> 'v) list \<Rightarrow> 'k \<Rightarrow> bool" where
  "bt_contains m k \<longleftrightarrow> map_of m k \<noteq> None"

text \<open>\<open>BTreeMap::append\<close>: the entries of the second map replace those of the first.\<close>

definition bt_append :: "('k::linorder \<times> 'v) list \<Rightarrow> ('k \<times> 'v) list \<Rightarrow> ('k \<times> 'v) list" where
  "bt_append m n = fold (\<lambda>(k, v). bt_insert k v) n m"

definition bt_of_list :: "('k::linorder \<times> 'v) list \<Rightarrow> ('k \<times> 'v) list" where
  "bt_of_list xs = bt_append [] xs"

definition bt_wf :: "('k::linorder \<times> 'v) list \<Rightarrow> bool" where
  "bt_wf m \<longleftrightarrow> sorted_wrt (<) (map fst m)"

lemma map_of_bt_insert [simp]: "map_of (bt_insert k v m) = (map_of m)(k \<mapsto> v)"
  by (induction k v m rule: bt_insert.induct) (auto simp: fun_eq_iff)

lemma keys_bt_insert: "fst ` set (bt_insert k v m) = insert k (fst ` set m)"
  by (induction k v m rule: bt_insert.induct) auto

lemma bt_wf_Nil [simp]: "bt_wf []"
  by (simp add: bt_wf_def)

lemma bt_wf_Cons [simp]: "bt_wf ((k, v) # m) \<longleftrightarrow> (\<forall>k' \<in> fst ` set m. k < k') \<and> bt_wf m"
  by (simp add: bt_wf_def)

lemma bt_wf_insert [simp, intro]: "bt_wf m \<Longrightarrow> bt_wf (bt_insert k v m)"
  by (induction k v m rule: bt_insert.induct) (auto simp: keys_bt_insert)

lemma bt_wf_distinct: "bt_wf m \<Longrightarrow> distinct (map fst m)"
  by (simp add: bt_wf_def strict_sorted_iff)

lemma bt_append_Nil [simp]: "bt_append m [] = m"
  by (simp add: bt_append_def)

lemma bt_append_Cons [simp]: "bt_append m ((k, v) # n) = bt_append (bt_insert k v m) n"
  by (simp add: bt_append_def)

lemma bt_wf_append [simp, intro]: "bt_wf m \<Longrightarrow> bt_wf (bt_append m n)"
  by (induction n arbitrary: m) auto

lemma bt_wf_of_list [simp, intro]: "bt_wf (bt_of_list xs)"
  by (simp add: bt_of_list_def bt_wf_append)

lemma map_of_bt_append:
  "distinct (map fst n) \<Longrightarrow> map_of (bt_append m n) = map_of m ++ map_of n"
proof (induction n arbitrary: m)
  case (Cons x n)
  obtain k v where x: "x = (k, v)" by (cases x)
  have "k \<notin> dom (map_of n)" using Cons.prems x by (simp add: dom_alist)
  then show ?case
    using Cons x by (auto simp: fun_eq_iff map_add_def split: option.splits)
qed simp

lemma keys_bt_append: "fst ` set (bt_append m n) = fst ` set m \<union> fst ` set n"
proof (induction n arbitrary: m)
  case (Cons x n)
  obtain k v where "x = (k, v)" by (cases x)
  then show ?case by (simp add: Cons.IH keys_bt_insert)
qed simp

text \<open>Two ordered maps with the same entries are equal.\<close>

lemma bt_ext:
  assumes "bt_wf m" "bt_wf n" "map_of m = map_of n"
  shows "m = n"
proof -
  have d: "distinct (map fst m)" "distinct (map fst n)" using assms(1,2) by (simp_all add: bt_wf_distinct)
  have set: "set m = set n" using map_of_inject_set [OF d] assms(3) by simp
  have "sorted (map fst m)" "sorted (map fst n)"
    using assms(1,2) by (simp_all add: bt_wf_def strict_sorted_iff)
  moreover have "inj_on fst (set m \<union> set n)" using d(1) set by (simp add: distinct_map)
  ultimately show ?thesis using map_sorted_distinct_set_unique [of fst m n] d set by simp
qed

lemma bt_insert_last:
  "(\<And>k'. k' \<in> fst ` set m \<Longrightarrow> k' < k) \<Longrightarrow> bt_insert k v m = m @ [(k, v)]"
proof (induction m)
  case (Cons x m)
  obtain k' v' where x: "x = (k', v')" by (cases x)
  have "k' < k" using Cons.prems [of k'] x by simp
  moreover have "bt_insert k v m = m @ [(k, v)]" by (rule Cons.IH) (use Cons.prems in simp)
  ultimately show ?case using x by auto
qed simp

lemma bt_insert_same: "bt_wf m \<Longrightarrow> map_of m k = Some v \<Longrightarrow> bt_insert k v m = m"
  by (intro bt_ext) (auto simp: fun_upd_idem)

lemma bt_of_list_id: "bt_wf m \<Longrightarrow> bt_of_list m = m"
  by (intro bt_ext) (simp_all add: bt_of_list_def map_of_bt_append bt_wf_distinct)

lemma length_bt: "bt_wf m \<Longrightarrow> length m = card (dom (map_of m))"
  using bt_wf_distinct [of m] distinct_card [of "map fst m"] by (simp add: dom_alist)

lemma set_bt_insert: "set (bt_insert k v m) \<subseteq> insert (k, v) (set m)"
  by (induction k v m rule: bt_insert.induct) auto

end
