(* ===== verification/Channel_Types.thy ===== *)
theory Channel_Types
  imports Btree_Map
begin

text \<open>
  The data of a payment channel (\<open>sgtypes\<close>): channel transactions and proposals, the signatures
  of the participants, the pending transaction with its life cycle, applied transactions, and
  the local state of a channel. Addresses, keys, signatures and hash values of libra are byte
  strings. Of libra's own structures, the records below have the fields that the code sets and
  reads.
\<close>

section \<open>Errors\<close>

datatype sg_error_code = UNKNOWN | SEQUENCE_NUMBER_WRONG | TIMEOUT | CHANNEL_NOT_EXIST | INVALID_CHANNEL_STAGE
  | REJECT | NOT_PATH | BALANCE_NOT_ENOUGH

record sg_error =
  error_code :: sg_error_code
  sg_message :: string

text \<open>An \<open>anyhow\<close> error that is returned, one that wraps an \<open>SgError\<close>, or a panic.\<close>

datatype chan_error = Bail string | BailSg sg_error | Panic string

section \<open>Values of libra\<close>

type_synonym account_address = bytes
type_synonym public_key = bytes
type_synonym signature = bytes
type_synonym hash_value = bytes

record access_path =
  ap_address :: account_address
  ap_path :: bytes

datatype write_op = WriteValue bytes | WriteDeletion

type_synonym write_set = "(access_path \<times> write_op) list"

record witness_data =
  wd_channel_sequence_number :: u64
  wd_write_set :: write_set

record witness =
  w_data :: witness_data
  w_signatures :: "signature list"

abbreviation witness_seq :: "witness \<Rightarrow> u64" where
  "witness_seq w \<equiv> wd_channel_sequence_number (w_data w)"

abbreviation witness_write_set :: "witness \<Rightarrow> write_set" where
  "witness_write_set w \<equiv> wd_write_set (w_data w)"

definition witness_default :: witness where
  "witness_default = \<lparr>w_data = \<lparr>wd_channel_sequence_number = 0, wd_write_set = []\<rparr>, w_signatures = []\<rparr>"

datatype transaction_argument = ArgU64 u64 | ArgAddress account_address | ArgByteArray bytes | ArgString string

datatype script_action =
    ScriptCall account_address string string "transaction_argument list"
  | ScriptCode bytes "transaction_argument list"

record transaction_output =
  out_write_set :: write_set
  out_events :: "bytes list"
  out_gas_used :: u64
  out_major_status :: u64
  is_travel_txn :: bool

text \<open>\<open>std::time::Duration\<close>.\<close>

record duration =
  d_secs :: u64
  d_nanos :: u32

definition duration_from_secs :: "u64 \<Rightarrow> duration" where
  "duration_from_secs s = \<lparr>d_secs = s, d_nanos = 0\<rparr>"

section \<open>Channel transactions\<close>

datatype channel_op =
    OpOpen
  | OpExecute string string
  | OpAction account_address string string
  | OpClose

fun op_is_open :: "channel_op \<Rightarrow> bool" where
  "op_is_open OpOpen = True"
| "op_is_open _ = False"

record channel_transaction =
  ct_version :: u64
  ct_channel_address :: account_address
  ct_channel_sequence_number :: u64
  ct_operator :: channel_op
  ct_args :: "transaction_argument list"
  ct_proposer :: account_address
  ct_sequence_number :: u64
  ct_expiration_time :: duration

record channel_transaction_proposal =
  channel_txn :: channel_transaction
  proposer_public_key :: public_key
  proposer_signature :: signature

record channel_transaction_sigs =
  sig_address :: account_address
  sig_public_key :: public_key
  channel_payload_signature :: signature
  witness_data_hash :: hash_value
  witness_data_signature :: signature
  travel_output_witness_signature :: "signature option"

section \<open>Transactions on the chain\<close>

record payload_body =
  pb_channel_address :: account_address
  pb_proposer :: account_address
  pb_action :: script_action
  pb_witness :: witness

record channel_payload =
  cpl_body :: payload_body
  cpl_public_keys :: "public_key list"
  cpl_signatures :: "signature option list"

datatype transaction_payload = PayloadChannel channel_payload | PayloadOther

record raw_transaction =
  rt_sender :: account_address
  rt_sequence_number :: u64
  rt_payload :: transaction_payload
  rt_max_gas_amount :: u64
  rt_gas_unit_price :: u64
  rt_expiration_time :: duration

record signed_transaction =
  st_raw_txn :: raw_transaction
  st_public_key :: public_key
  st_signature :: signature

record signed_channel_transaction =
  raw_tx :: channel_transaction
  sct_signatures :: "(account_address \<times> channel_transaction_sigs) list"

datatype applied_channel_txn = Offchain signed_channel_transaction | Travel signed_transaction

fun applied_travel :: "applied_channel_txn \<Rightarrow> bool" where
  "applied_travel (Travel _) = True"
| "applied_travel _ = False"

text \<open>\<open>payload_seq\<close> is libra's \<open>ChannelTransactionPayload::channel_sequence_number\<close>.\<close>

fun applied_seq :: "(channel_payload \<Rightarrow> u64) \<Rightarrow> applied_channel_txn \<Rightarrow> chan_error + u64" where
  "applied_seq payload_seq (Offchain t) = Inr (ct_channel_sequence_number (raw_tx t))"
| "applied_seq payload_seq (Travel t) =
     (case rt_payload (st_raw_txn t) of
        PayloadChannel d \<Rightarrow> Inr (payload_seq d)
      | PayloadOther \<Rightarrow> Inl (Panic ''should be channel txn''))"

fun applied_keys :: "applied_channel_txn \<Rightarrow> chan_error + public_key list" where
  "applied_keys (Offchain t) = Inr (map (\<lambda>(_, s). sig_public_key s) (sct_signatures t))"
| "applied_keys (Travel t) =
     (case rt_payload (st_raw_txn t) of
        PayloadChannel d \<Rightarrow> Inr (cpl_public_keys d)
      | PayloadOther \<Rightarrow> Inl (Panic ''should be channel txn''))"

fun applied_proposer :: "applied_channel_txn \<Rightarrow> chan_error + account_address" where
  "applied_proposer (Offchain t) = Inr (ct_proposer (raw_tx t))"
| "applied_proposer (Travel t) =
     (case rt_payload (st_raw_txn t) of
        PayloadChannel d \<Rightarrow> Inr (pb_proposer (cpl_body d))
      | PayloadOther \<Rightarrow> Inl (Panic ''should be channel txn''))"

record transaction_to_commit =
  tc_txn :: applied_channel_txn
  tc_write_set :: write_set
  tc_events :: "bytes list"
  tc_major_status :: u64
  tc_gas_used :: u64

section \<open>The pending transaction\<close>

datatype proposal_lifecycle = Created | Negotiating | Agreed | Applying | Traveling

text \<open>The derived order: the order of the variants.\<close>

fun lifecycle_rank :: "proposal_lifecycle \<Rightarrow> nat" where
  "lifecycle_rank Created = 0"
| "lifecycle_rank Negotiating = 1"
| "lifecycle_rank Agreed = 2"
| "lifecycle_rank Applying = 3"
| "lifecycle_rank Traveling = 4"

lemma lifecycle_rank_inj: "lifecycle_rank a = lifecycle_rank b \<longleftrightarrow> a = b"
  by (cases a; cases b) simp_all

instantiation proposal_lifecycle :: linorder
begin

definition less_eq_proposal_lifecycle :: "proposal_lifecycle \<Rightarrow> proposal_lifecycle \<Rightarrow> bool" where
  "less_eq_proposal_lifecycle a b \<longleftrightarrow> lifecycle_rank a \<le> lifecycle_rank b"

definition less_proposal_lifecycle :: "proposal_lifecycle \<Rightarrow> proposal_lifecycle \<Rightarrow> bool" where
  "less_proposal_lifecycle a b \<longleftrightarrow> lifecycle_rank a < lifecycle_rank b"

instance
  by standard (auto simp: less_eq_proposal_lifecycle_def less_proposal_lifecycle_def
      lifecycle_rank_inj [symmetric])

end

lemmas lifecycle_order = less_eq_proposal_lifecycle_def less_proposal_lifecycle_def

record pending_transaction =
  pt_proposal :: channel_transaction_proposal
  pt_output :: transaction_output
  pt_signatures :: "(account_address \<times> channel_transaction_sigs) list"
  pt_lifecycle :: proposal_lifecycle

definition pending_new ::
  "channel_transaction_proposal \<Rightarrow> transaction_output \<Rightarrow>
     (account_address \<times> channel_transaction_sigs) list \<Rightarrow> pending_transaction" where
  "pending_new proposal output signatures =
     \<lparr>pt_proposal = proposal, pt_output = output, pt_signatures = signatures, pt_lifecycle = Negotiating\<rparr>"

definition add_signature :: "channel_transaction_sigs \<Rightarrow> pending_transaction \<Rightarrow> pending_transaction" where
  "add_signature sig p =
     (if \<not> bt_contains (pt_signatures p) (sig_address sig)
      then p\<lparr>pt_signatures := bt_insert (sig_address sig) sig (pt_signatures p)\<rparr> else p)"

definition get_signature ::
  "account_address \<Rightarrow> pending_transaction \<Rightarrow> channel_transaction_sigs option" where
  "get_signature a p = map_of (pt_signatures p) a"

definition newer_than :: "pending_transaction \<Rightarrow> pending_transaction \<Rightarrow> bool" where
  "newer_than p q \<longleftrightarrow> pt_lifecycle q < pt_lifecycle p"

definition is_negotiating :: "pending_transaction \<Rightarrow> bool" where
  "is_negotiating p \<longleftrightarrow> pt_lifecycle p = Negotiating"

definition consensus_reached :: "pending_transaction \<Rightarrow> bool" where
  "consensus_reached p \<longleftrightarrow> Agreed \<le> pt_lifecycle p"

definition try_reach_consensus ::
  "account_address list \<Rightarrow> pending_transaction \<Rightarrow> bool \<times> pending_transaction" where
  "try_reach_consensus participants p =
     (let p = (if pt_lifecycle p = Negotiating \<and> length (pt_signatures p) = length participants
               then (if list_all (bt_contains (pt_signatures p)) participants
                     then p\<lparr>pt_lifecycle := Agreed\<rparr> else p)
               else p)
      in (consensus_reached p, p))"

section \<open>Local state of a channel\<close>

text \<open>\<open>ChannelState\<close>: the account state of the channel address at a version of the chain.\<close>

record channel_state =
  cs_address :: account_address
  cs_version :: u64
  cs_state :: "(bytes \<times> bytes) list"

definition channel_state_empty :: "account_address \<Rightarrow> channel_state" where
  "channel_state_empty a = \<lparr>cs_address = a, cs_version = 0, cs_state = []\<rparr>"

definition access_local ::
  "write_set \<Rightarrow> channel_state \<Rightarrow> access_path \<Rightarrow> chan_error + bytes option" where
  "access_local latest_write_set cs ap =
     (case map_of latest_write_set ap of
        Some op \<Rightarrow> (case op of WriteValue v \<Rightarrow> Inr (Some v) | WriteDeletion \<Rightarrow> Inr None)
      | None \<Rightarrow>
          if cs_address cs \<noteq> ap_address ap then Inl (Bail ''Unexpected access_path'')
          else Inr (map_of (cs_state cs) (ap_path ap)))"

section \<open>Script packages\<close>

record script_code =
  sc_name :: string
  sc_source_code :: string
  sc_byte_code :: bytes

record script_package =
  package_name :: string
  scripts :: "script_code list"

definition package_get_script :: "string \<Rightarrow> script_package \<Rightarrow> script_code option" where
  "package_get_script n p = find (\<lambda>s. sc_name s = n) (scripts p)"

type_synonym package_registry = "(string \<times> script_package) list"

definition get_script :: "package_registry \<Rightarrow> string \<Rightarrow> string \<Rightarrow> script_code option" where
  "get_script r pn sn = (case map_of r pn of None \<Rightarrow> None | Some p \<Rightarrow> package_get_script sn p)"

definition install_package :: "script_package \<Rightarrow> package_registry \<Rightarrow> chan_error + package_registry" where
  "install_package p r =
     (if map_of r (package_name p) \<noteq> None then Inl (Bail ''package with name exist'')
      else Inr (AList.update (package_name p) p r))"

end
