(* ===== verification/Channel_Stm.thy ===== *)
theory Channel_Stm
  imports Channel_Types "HOL-Library.Log_Nat"
begin

text \<open>
  The channel state machine (\<open>sgwallet/src/channel/channel_stm.rs\<close>): it has no mutable state of
  its own besides the channel state, the latest witness and the participants' keys, and decides
  how a proposal is executed, signed, verified and applied. The view of the chain
  (\<open>sgchain/src/client_state_view.rs\<close>, \<open>sgwallet/src/channel_state_view.rs\<close>) is here too.

  What libra provides is the record \<open>libra\<close>: hashes, signatures, the Move VM and the decoding of
  resources. What the chain answers is the function \<open>chain\<close>.
\<close>

section \<open>The environment\<close>

record account_state =
  as_version :: u64
  as_state :: "(bytes \<times> bytes) list"

type_synonym chain = "account_address \<Rightarrow> u64 option \<Rightarrow> chan_error + account_state option"

type_synonym state_view = "access_path \<Rightarrow> chan_error + bytes option"

datatype transaction_status = Discard u64 | Keep u64

record channel_resource =
  cr_channel_sequence_number :: u64
  cr_opened :: bool
  cr_locked :: bool
  cr_closed :: bool
  cr_event_count :: u64

record libra =
  hash_channel_txn :: "channel_transaction \<Rightarrow> hash_value"
  hash_payload_body :: "payload_body \<Rightarrow> hash_value"
  hash_witness_data :: "witness_data \<Rightarrow> hash_value"
  hash_raw_txn :: "raw_transaction \<Rightarrow> hash_value"
  sign_message :: "bytes \<Rightarrow> hash_value \<Rightarrow> signature"
  verify_signature :: "public_key \<Rightarrow> hash_value \<Rightarrow> signature \<Rightarrow> bool"
  sign_raw :: "bytes \<Rightarrow> public_key \<Rightarrow> raw_transaction \<Rightarrow> chan_error + signed_transaction"
  mirror_resource_path :: "account_address \<Rightarrow> bytes"
  channel_resource_path :: bytes
  locked_by_path :: bytes
  account_resource_path :: bytes
  read_mirror :: "bytes \<Rightarrow> u64 option"
  read_channel_resource :: "bytes \<Rightarrow> channel_resource option"
  read_locked_by :: "bytes \<Rightarrow> u64 option"
  read_account_sequence_number :: "bytes \<Rightarrow> u64 option"
  data_path_participant :: "access_path \<Rightarrow> account_address option"
  is_channel_resource :: "access_path \<Rightarrow> bool"
  identifier_ok :: "string \<Rightarrow> bool"
  execute_block :: "state_view \<Rightarrow> signed_transaction \<Rightarrow>
    chan_error + (transaction_status \<times> transaction_output) list"
  executed :: u64
  default_address :: account_address
  core_code_address :: account_address
  account_module_name :: string
  payload_sequence_number :: "channel_payload \<Rightarrow> u64"
  is_authorized :: "channel_payload \<Rightarrow> bool"

section \<open>Views of the chain\<close>

record client_state_view =
  cv_version :: "u64 option"
  cv_cache :: "(account_address \<times> account_state option) list"

definition client_view_new :: "u64 option \<Rightarrow> client_state_view" where
  "client_view_new v = \<lparr>cv_version = v, cv_cache = []\<rparr>"

definition client_view_new_with_account_state ::
  "account_address \<Rightarrow> account_state \<Rightarrow> client_state_view" where
  "client_view_new_with_account_state a st =
     \<lparr>cv_version = Some (as_version st), cv_cache = [(a, Some st)]\<rparr>"

text \<open>The argument of \<open>or_insert\<close> is evaluated before the cache is consulted.\<close>

definition client_view_get ::
  "chain \<Rightarrow> access_path \<Rightarrow> client_state_view \<Rightarrow> chan_error + (bytes option \<times> client_state_view)" where
  "client_view_get chain ap v =
     try_bind (chain (ap_address ap) (cv_version v)) (\<lambda>fetched.
       (let v = (case map_of (cv_cache v) (ap_address ap) of
                   Some _ \<Rightarrow> v
                 | None \<Rightarrow> v\<lparr>cv_cache := AList.update (ap_address ap) fetched (cv_cache v)\<rparr>);
            st = (case map_of (cv_cache v) (ap_address ap) of Some st \<Rightarrow> st | None \<Rightarrow> None)
        in Inr (case st of None \<Rightarrow> None | Some s \<Rightarrow> map_of (as_state s) (ap_path ap), v)))"

record channel_state_view =
  csv_channel_state :: channel_state
  csv_latest_write_set :: write_set
  csv_client :: client_state_view

definition get_account_state :: "chain \<Rightarrow> account_address \<Rightarrow> u64 option \<Rightarrow> chan_error + account_state" where
  "get_account_state chain a v =
     try_bind (chain a v) (\<lambda>st. ok_or st (Bail ''can not find account state''))"

definition channel_state_view_new ::
  "chain \<Rightarrow> account_address \<Rightarrow> channel_state \<Rightarrow> write_set \<Rightarrow> u64 option \<Rightarrow> chan_error + channel_state_view" where
  "channel_state_view_new chain a cs ws v =
     try_bind (case v of
                 None \<Rightarrow> try_bind (get_account_state chain a v) (\<lambda>st. Inr (client_view_new_with_account_state a st))
               | Some n \<Rightarrow> Inr (client_view_new (Some n)))
       (\<lambda>c. Inr \<lparr>csv_channel_state = cs, csv_latest_write_set = ws, csv_client = c\<rparr>)"

definition csv_version :: "channel_state_view \<Rightarrow> chan_error + u64" where
  "csv_version v =
     ok_or (cv_version (csv_client v)) (Panic ''client_state_view in ChannelStateView must lock version.'')"

definition csv_get ::
  "libra \<Rightarrow> chain \<Rightarrow> access_path \<Rightarrow> channel_state_view \<Rightarrow> chan_error + (bytes option \<times> channel_state_view)" where
  "csv_get L chain ap v =
     (if is_channel_resource L ap
      then try_bind (access_local (csv_latest_write_set v) (csv_channel_state v) ap) (\<lambda>d. Inr (d, v))
      else try_bind (client_view_get chain ap (csv_client v)) (\<lambda>(d, c). Inr (d, v\<lparr>csv_client := c\<rparr>)))"

text \<open>The view as the VM reads it. Filling the cache does not change what it answers (see
  \<open>csv_get_again\<close>), so each read starts from the same view.\<close>

definition view_of :: "libra \<Rightarrow> chain \<Rightarrow> channel_state_view \<Rightarrow> state_view" where
  "view_of L chain v ap = try_bind (csv_get L chain ap v) (\<lambda>(d, _). Inr d)"

definition execute_transaction ::
  "libra \<Rightarrow> state_view \<Rightarrow> signed_transaction \<Rightarrow> chan_error + transaction_output" where
  "execute_transaction L view txn =
     try_bind (execute_block L view txn) (\<lambda>outs.
       (if outs = [] then Inl (Panic ''at least return 1 output.'')
        else (case last outs of
                (Discard _, _) \<Rightarrow> Inl (Bail ''transaction execute fail'')
              | (Keep status, out) \<Rightarrow>
                  if status = executed L then Inr out else Inl (Bail ''transaction execute fail''))))"

section \<open>Data\<close>

record channel_stm =
  channel_address :: account_address
  account_address :: account_address
  participant_addresses :: "account_address list"
  participant_keys :: "(account_address \<times> public_key) list"
  stm_channel_state :: channel_state
  stm_witness :: witness
  stm_private_key :: bytes
  stm_public_key :: public_key
  script_registry :: package_registry

definition channel_stm_new ::
  "account_address \<Rightarrow> account_address \<Rightarrow> account_address list \<Rightarrow> bytes \<Rightarrow> public_key \<Rightarrow> package_registry \<Rightarrow> channel_stm" where
  "channel_stm_new ca aa ps sk pk reg =
     \<lparr>channel_address = ca, account_address = aa, participant_addresses = ps, participant_keys = [],
      stm_channel_state = channel_state_empty ca, stm_witness = witness_default,
      stm_private_key = sk, stm_public_key = pk, script_registry = reg\<rparr>"

section \<open>Reading the local state\<close>

text \<open>\<open>get_local\<close> followed by \<open>unwrap\<close>: an error in reading or decoding panics.\<close>

definition get_local :: "channel_stm \<Rightarrow> bytes \<Rightarrow> (bytes \<Rightarrow> 'r option) \<Rightarrow> chan_error + 'r option" where
  "get_local m path decode =
     (case access_local (witness_write_set (stm_witness m)) (stm_channel_state m)
             \<lparr>ap_address = channel_address m, ap_path = path\<rparr> of
        Inl _ \<Rightarrow> Inl (Panic ''get_local'')
      | Inr None \<Rightarrow> Inr None
      | Inr (Some d) \<Rightarrow> (case decode d of None \<Rightarrow> Inl (Panic ''make_resource'') | Some r \<Rightarrow> Inr (Some r)))"

definition channel_sequence_number :: "libra \<Rightarrow> channel_stm \<Rightarrow> chan_error + u64" where
  "channel_sequence_number L m =
     try_bind (get_local m (mirror_resource_path L (channel_address m)) (read_mirror L)) (\<lambda>r.
       Inr (case r of None \<Rightarrow> 0 | Some n \<Rightarrow> n))"

definition channel_resource_of :: "libra \<Rightarrow> channel_stm \<Rightarrow> chan_error + channel_resource option" where
  "channel_resource_of L m = get_local m (channel_resource_path L) (read_channel_resource L)"

definition channel_lock_by_resource :: "libra \<Rightarrow> channel_stm \<Rightarrow> chan_error + u64 option" where
  "channel_lock_by_resource L m = get_local m (locked_by_path L) (read_locked_by L)"

definition advance_state ::
  "channel_state option \<Rightarrow> witness \<Rightarrow> (account_address \<times> public_key) list \<Rightarrow> channel_stm \<Rightarrow> channel_stm" where
  "advance_state cs w keys m =
     m\<lparr>stm_channel_state := (case cs of Some s \<Rightarrow> s | None \<Rightarrow> stm_channel_state m),
       stm_witness := w, participant_keys := bt_append (participant_keys m) keys\<rparr>"

section \<open>Building transactions\<close>

definition channel_op_to_action ::
  "libra \<Rightarrow> channel_stm \<Rightarrow> channel_op \<Rightarrow> transaction_argument list \<Rightarrow> chan_error + script_action" where
  "channel_op_to_action L m op args =
     (case op of
        OpOpen \<Rightarrow>
          try_bind (ensure (identifier_ok L ''ChannelScript'') (Bail ''identifier'')) (\<lambda>_.
          try_bind (ensure (identifier_ok L ''open'') (Bail ''identifier'')) (\<lambda>_.
            Inr (ScriptCall (default_address L) ''ChannelScript'' ''open'' args)))
      | OpClose \<Rightarrow>
          try_bind (ensure (identifier_ok L ''LibraAccount'') (Bail ''identifier'')) (\<lambda>_.
          try_bind (ensure (identifier_ok L ''close'') (Bail ''identifier'')) (\<lambda>_.
            Inr (ScriptCall (default_address L) ''LibraAccount'' ''close'' args)))
      | OpExecute pn sn \<Rightarrow>
          try_bind (ok_or (get_script (script_registry m) pn sn) (Bail ''Can not find script'')) (\<lambda>code.
            Inr (ScriptCode (sc_byte_code code) args))
      | OpAction a mn fn \<Rightarrow>
          try_bind (ensure (identifier_ok L mn) (Bail ''identifier'')) (\<lambda>_.
          try_bind (ensure (identifier_ok L fn) (Bail ''identifier'')) (\<lambda>_.
            Inr (ScriptCall a mn fn args))))"

definition build_and_sign_channel_txn_payload_body ::
  "libra \<Rightarrow> channel_stm \<Rightarrow> channel_transaction \<Rightarrow> chan_error + (payload_body \<times> signature)" where
  "build_and_sign_channel_txn_payload_body L m ct =
     try_bind (channel_op_to_action L m (ct_operator ct) (ct_args ct)) (\<lambda>action.
       (let body = \<lparr>pb_channel_address = channel_address m, pb_proposer = ct_proposer ct,
                    pb_action = action, pb_witness = stm_witness m\<rparr>
        in Inr (body, sign_message L (stm_private_key m) (hash_payload_body L body))))"

definition MAX_GAS_AMOUNT_OFFCHAIN :: u64 where "MAX_GAS_AMOUNT_OFFCHAIN = - 1"
definition MAX_GAS_AMOUNT_ONCHAIN :: u64 where "MAX_GAS_AMOUNT_ONCHAIN = 1000000"
definition GAS_UNIT_PRICE :: u64 where "GAS_UNIT_PRICE = 1"

text \<open>The loop over the participants: known keys are overridden by those of the signatures, and
  a missing signature leaves a gap.\<close>

definition build_chain_txn ::
  "libra \<Rightarrow> channel_stm \<Rightarrow> payload_body \<Rightarrow> (account_address \<times> public_key \<times> signature) list option \<Rightarrow>
     account_address \<Rightarrow> u64 \<Rightarrow> u64 \<Rightarrow> duration \<Rightarrow> chan_error + signed_transaction" where
  "build_chain_txn L m body txn_signatures txn_sender seq max_gas expiration =
     (let (keys, sigs) =
        (case txn_signatures of
           None \<Rightarrow> (participant_keys m, [])
         | Some signatures \<Rightarrow>
             fold (\<lambda>a (keys, sigs).
                (case map_of signatures a of
                   Some (pk, s) \<Rightarrow> (bt_insert a pk keys, sigs @ [Some s])
                 | None \<Rightarrow> (keys, sigs @ [None])))
              (participant_addresses m) (participant_keys m, []));
        payload = PayloadChannel \<lparr>cpl_body = body, cpl_public_keys = map snd keys, cpl_signatures = sigs\<rparr>
      in sign_raw L (stm_private_key m) (stm_public_key m)
           \<lparr>rt_sender = txn_sender, rt_sequence_number = seq, rt_payload = payload,
            rt_max_gas_amount = max_gas, rt_gas_unit_price = GAS_UNIT_PRICE,
            rt_expiration_time = expiration\<rparr>)"

definition build_raw_txn_from_channel_txn ::
  "libra \<Rightarrow> channel_stm \<Rightarrow> payload_body \<Rightarrow> channel_transaction \<Rightarrow>
     (account_address \<times> channel_transaction_sigs) list option \<Rightarrow> u64 \<Rightarrow> chan_error + signed_transaction" where
  "build_raw_txn_from_channel_txn L m body ct txn_signatures max_gas =
     build_chain_txn L m body
       (map_option (map (\<lambda>(k, v). (k, sig_public_key v, channel_payload_signature v))) txn_signatures)
       (ct_proposer ct) (ct_sequence_number ct) max_gas (ct_expiration_time ct)"

text \<open>\<open>x as f64 * 1.1\<close>: conversion and product are rounded to 53 significant bits, ties to even;
  \<open>1.1\<close> is \<open>4953959590107546 / 2 ^ 52\<close>. The cast back truncates and saturates.\<close>

definition round_f64 :: "nat \<Rightarrow> nat" where
  "round_f64 n =
     (if n < 2 ^ 53 then n
      else (let u = 2 ^ (floorlog 2 n - 53); q = n div u; r = n mod u
            in (if 2 * r < u \<or> 2 * r = u \<and> even q then q else q + 1) * u))"

definition gas_with_margin :: "u64 \<Rightarrow> u64" where
  "gas_with_margin g =
     of_nat (min (2 ^ 64 - 1) (round_f64 (round_f64 (unat g) * 4953959590107546) div 2 ^ 52))"

definition build_signed_txn ::
  "libra \<Rightarrow> channel_stm \<Rightarrow> pending_transaction \<Rightarrow> chan_error + signed_transaction" where
  "build_signed_txn L m p =
     (let ct = channel_txn (pt_proposal p)
      in try_bind (build_and_sign_channel_txn_payload_body L m ct) (\<lambda>(body, _).
           build_raw_txn_from_channel_txn L m body ct (Some (pt_signatures p))
             (min (gas_with_margin (out_gas_used (pt_output p))) MAX_GAS_AMOUNT_ONCHAIN)))"

section \<open>Proposals and signatures\<close>

definition channel_view :: "chain \<Rightarrow> channel_stm \<Rightarrow> u64 option \<Rightarrow> chan_error + channel_state_view" where
  "channel_view chain m v =
     channel_state_view_new chain (account_address m) (stm_channel_state m)
       (witness_write_set (stm_witness m)) v"

text \<open>\<open>expiration\<close> is the value of \<open>txn_expiration()\<close>.\<close>

definition generate_proposal ::
  "libra \<Rightarrow> chain \<Rightarrow> duration \<Rightarrow> channel_stm \<Rightarrow> channel_op \<Rightarrow> transaction_argument list \<Rightarrow>
     chan_error + channel_transaction_proposal" where
  "generate_proposal L chain expiration m op args =
     try_bind (channel_view chain m None) (\<lambda>view.
     try_bind (csv_get L chain \<lparr>ap_address = account_address m, ap_path = account_resource_path L\<rparr> view) (\<lambda>(blob, view).
     try_bind (ok_or blob (Bail ''account resource not exists on chain'')) (\<lambda>blob.
     try_bind (ok_or (read_account_sequence_number L blob) (Bail ''account resource'')) (\<lambda>account_seq.
     try_bind (csv_version view) (\<lambda>chain_version.
     try_bind (channel_sequence_number L m) (\<lambda>channel_seq.
       (let ct = \<lparr>ct_version = chain_version, ct_channel_address = channel_address m,
                  ct_channel_sequence_number = channel_seq, ct_operator = op, ct_args = args,
                  ct_proposer = account_address m, ct_sequence_number = account_seq,
                  ct_expiration_time = expiration\<rparr>
        in Inr \<lparr>channel_txn = ct, proposer_public_key = stm_public_key m,
                proposer_signature = sign_message L (stm_private_key m) (hash_channel_txn L ct)\<rparr>)))))))"

definition execute_proposal ::
  "libra \<Rightarrow> chain \<Rightarrow> channel_stm \<Rightarrow> channel_transaction_proposal \<Rightarrow>
     chan_error + (payload_body \<times> signature \<times> transaction_output)" where
  "execute_proposal L chain m proposal =
     (let ct = channel_txn proposal
      in try_bind (build_and_sign_channel_txn_payload_body L m ct) (\<lambda>(body, sig).
         try_bind (build_raw_txn_from_channel_txn L m body ct None MAX_GAS_AMOUNT_OFFCHAIN) (\<lambda>txn.
         try_bind (channel_view chain m (Some (ct_version ct))) (\<lambda>view.
         try_bind (execute_transaction L (view_of L chain view) txn) (\<lambda>out.
           Inr (body, sig, out))))))"

definition output_write_set :: "transaction_output \<Rightarrow> write_set" where
  "output_write_set out = (if is_travel_txn out then [] else out_write_set out)"

definition generate_txn_sigs ::
  "libra \<Rightarrow> channel_stm \<Rightarrow> channel_transaction \<Rightarrow> transaction_output \<Rightarrow> chan_error + channel_transaction_sigs" where
  "generate_txn_sigs L m ct out =
     try_bind (build_and_sign_channel_txn_payload_body L m ct) (\<lambda>(_, body_sig).
     try_bind (channel_sequence_number L m) (\<lambda>seq.
       (let sign = sign_message L (stm_private_key m);
            h = hash_witness_data L \<lparr>wd_channel_sequence_number = seq + 1, wd_write_set = output_write_set out\<rparr>
        in Inr \<lparr>sig_address = account_address m, sig_public_key = stm_public_key m,
                channel_payload_signature = body_sig, witness_data_hash = h,
                witness_data_signature = sign h,
                travel_output_witness_signature =
                  (if is_travel_txn out
                   then Some (sign (hash_witness_data L
                     \<lparr>wd_channel_sequence_number = seq + 1, wd_write_set = out_write_set out\<rparr>))
                   else None)\<rparr>)))"

definition verify :: "libra \<Rightarrow> public_key \<Rightarrow> hash_value \<Rightarrow> signature \<Rightarrow> chan_error + unit" where
  "verify L pk h s = ensure (verify_signature L pk h s) (Bail ''signature'')"

definition verify_proposal ::
  "libra \<Rightarrow> channel_stm \<Rightarrow> channel_transaction_proposal \<Rightarrow> chan_error + unit" where
  "verify_proposal L m proposal =
     (let ct = channel_txn proposal
      in try_bind (ensure (channel_address m = ct_channel_address ct) (Bail ''invalid channel address'')) (\<lambda>_.
         try_bind (channel_sequence_number L m) (\<lambda>seq.
         try_bind (ensure ((if seq = 0 then 0 else seq - 1) \<le> ct_channel_sequence_number ct \<and>
                           ct_channel_sequence_number ct \<le> seq) (Bail ''check channel_sequence_number fail.'')) (\<lambda>_.
         try_bind (verify L (proposer_public_key proposal) (hash_channel_txn L ct) (proposer_signature proposal)) (\<lambda>_.
           if \<not> op_is_open (ct_operator ct)
           then ensure (ct_proposer ct \<in> set (participant_addresses m)) (Bail ''proposer does not belong to the channel'')
           else Inr ())))))"

definition verify_txn_sigs ::
  "libra \<Rightarrow> channel_stm \<Rightarrow> pending_transaction \<Rightarrow> channel_transaction_sigs \<Rightarrow> chan_error + unit" where
  "verify_txn_sigs L m p sigs =
     try_bind (build_and_sign_channel_txn_payload_body L m (channel_txn (pt_proposal p))) (\<lambda>(body, _).
     try_bind (verify L (sig_public_key sigs) (hash_payload_body L body) (channel_payload_signature sigs)) (\<lambda>_.
     try_bind (channel_sequence_number L m) (\<lambda>seq.
       (let out = pt_output p;
            h = hash_witness_data L \<lparr>wd_channel_sequence_number = seq + 1, wd_write_set = output_write_set out\<rparr>
        in try_bind (ensure (h = witness_data_hash sigs) (Bail ''next witness hash mismatched'')) (\<lambda>_.
           try_bind (verify L (sig_public_key sigs) (witness_data_hash sigs) (witness_data_signature sigs)) (\<lambda>_.
             if is_travel_txn out
             then (case travel_output_witness_signature sigs of
                     None \<Rightarrow> Inl (Bail ''travel txn should have signer's signature on output'')
                   | Some s \<Rightarrow> verify L (sig_public_key sigs) (hash_witness_data L
                       \<lparr>wd_channel_sequence_number = seq + 1, wd_write_set = out_write_set out\<rparr>) s)
             else Inr ()))))))"

section \<open>Handling proposals\<close>

definition handle_new_proposal ::
  "libra \<Rightarrow> chain \<Rightarrow> channel_stm \<Rightarrow> pending_transaction option \<Rightarrow> channel_transaction_proposal \<Rightarrow>
     chan_error + pending_transaction option" where
  "handle_new_proposal L chain m pending proposal =
     try_bind (channel_sequence_number L m) (\<lambda>seq.
       if ct_channel_sequence_number (channel_txn proposal) < seq
       then Inl (Bail ''invalid channel proposal'')
       else (case pending of
               None \<Rightarrow>
                 try_bind (verify_proposal L m proposal) (\<lambda>_.
                 try_bind (execute_proposal L chain m proposal) (\<lambda>(_, _, out).
                   Inr (Some ((pending_new proposal out [])\<lparr>pt_lifecycle := Created\<rparr>))))
             | Some p \<Rightarrow>
                 if hash_channel_txn L (channel_txn (pt_proposal p)) \<noteq> hash_channel_txn L (channel_txn proposal)
                 then Inl (Bail ''already exists a different pending proposal'')
                 else Inr pending))"

definition handle_proposal_signature ::
  "libra \<Rightarrow> channel_stm \<Rightarrow> pending_transaction \<Rightarrow> hash_value \<Rightarrow> channel_transaction_sigs \<Rightarrow>
     chan_error + pending_transaction" where
  "handle_proposal_signature L m p proposal_id sigs =
     try_bind (ensure (hash_channel_txn L (channel_txn (pt_proposal p)) = proposal_id)
                 (Bail ''proposal txn hash mismatched'')) (\<lambda>_.
       if get_signature (sig_address sigs) p = None
       then try_bind (verify_txn_sigs L m p sigs) (\<lambda>_.
              (let q = add_signature sigs p
               in case pt_lifecycle p of
                    Created \<Rightarrow> Inr (q\<lparr>pt_lifecycle := Negotiating\<rparr>)
                  | Negotiating \<Rightarrow> Inr (snd (try_reach_consensus (participant_addresses m) q))
                  | _ \<Rightarrow> Inl (Panic ''unreachable'')))
       else Inr p)"

definition handle_apply_proposal :: "pending_transaction \<Rightarrow> pending_transaction" where
  "handle_apply_proposal p =
     (if consensus_reached p \<and> \<not> is_travel_txn (pt_output p)
      then p\<lparr>pt_lifecycle := Applying\<rparr> else p\<lparr>pt_lifecycle := Traveling\<rparr>)"

text \<open>The old write set collected in a map: the last of equal paths counts.\<close>

definition is_participant_channel_resource_modified ::
  "libra \<Rightarrow> write_set \<Rightarrow> write_set \<Rightarrow> account_address \<Rightarrow> bool" where
  "is_participant_channel_resource_modified L old_write_set new_write_set participant =
     list_ex (\<lambda>(ap, op). data_path_participant L ap = Some participant \<and>
                map_of (rev old_write_set) ap \<noteq> Some op) new_write_set"

definition can_auto_sign_pending_proposal :: "libra \<Rightarrow> channel_stm \<Rightarrow> pending_transaction \<Rightarrow> bool" where
  "can_auto_sign_pending_proposal L m p =
     (\<not> is_participant_channel_resource_modified L (witness_write_set (stm_witness m))
          (out_write_set (pt_output p)) (account_address m))"

end
