(* ===== verification/Channel_Store.thy ===== *)
theory Channel_Store
  imports Channel_Types "HOL-Library.Product_Lexorder"
begin

text \<open>
  The local ledger of a channel: the typed tables of the database and their stores
  (\<open>sgstorage/src\<close>), \<open>ChannelStore\<close> with its in-memory caches, and \<open>TxApplier\<close>, which appends
  applied transactions (\<open>sgwallet/src/tx_applier.rs\<close>). A table is an ordered map: the key codecs
  keep the numeric order. A write batch is committed as a whole or, when the database refuses
  it, not at all.

  The Merkle accumulators and hashes of libra are the record \<open>ledger_lib\<close>; \<open>pseq\<close> is libra's
  sequence number of a channel payload.
\<close>

section \<open>The environment\<close>

record transaction_info =
  ti_signed_transaction_hash :: hash_value
  ti_write_set_root_hash :: hash_value
  ti_event_root_hash :: hash_value
  ti_major_status :: u64
  ti_travel :: bool
  ti_gas_used :: u64

text \<open>\<open>acc_append reader num_leaves hashes\<close> is \<open>MerkleAccumulator::append\<close> over the stored positions:
  the new root and the positions to write. The \<open>mem_\<close> operations are \<open>InMemoryAccumulator\<close>.\<close>

record 'm ledger_lib =
  acc_append :: "(u64 \<Rightarrow> hash_value option) \<Rightarrow> u64 \<Rightarrow> hash_value list \<Rightarrow>
    chan_error + (hash_value \<times> (u64 \<times> hash_value) list)"
  acc_proof :: "(u64 \<Rightarrow> hash_value option) \<Rightarrow> u64 \<Rightarrow> u64 \<Rightarrow> chan_error + hash_value list"
  acc_frozen :: "(u64 \<Rightarrow> hash_value option) \<Rightarrow> u64 \<Rightarrow> chan_error + hash_value list"
  mem_new :: "hash_value list \<Rightarrow> u64 \<Rightarrow> chan_error + 'm"
  mem_default :: 'm
  mem_append :: "'m \<Rightarrow> hash_value list \<Rightarrow> 'm"
  mem_root_hash :: "'m \<Rightarrow> hash_value"
  mem_num_leaves :: "'m \<Rightarrow> u64"
  hash_applied_txn :: "applied_channel_txn \<Rightarrow> hash_value"
  hash_txn_info :: "transaction_info \<Rightarrow> hash_value"
  hash_write_set_item :: "access_path \<times> write_op \<Rightarrow> hash_value"
  hash_default :: hash_value
  freeze_write_set :: "write_set \<Rightarrow> chan_error + write_set"

section \<open>Data\<close>

record ledger_info =
  li_version :: u64
  li_accumulator_hash :: hash_value
  li_epoch :: u64
  li_timestamp_usecs :: u64

record channel_db =
  db_txns :: "(u64 \<times> applied_channel_txn) list"
  db_txn_by_account :: "((account_address \<times> u64) \<times> u64) list"
  db_infos :: "(u64 \<times> transaction_info) list"
  db_accumulator :: "(u64 \<times> hash_value) list"
  db_ledger :: "(u64 \<times> ledger_info) list"
  db_write_sets :: "((u64 \<times> u64) \<times> access_path \<times> write_op) list"
  db_write_set_accumulator :: "((u64 \<times> u64) \<times> hash_value) list"
  db_keys :: "(account_address \<times> public_key option) list"
  db_pending :: "pending_transaction option"

definition channel_db_empty :: channel_db where
  "channel_db_empty = \<lparr>db_txns = [], db_txn_by_account = [], db_infos = [], db_accumulator = [],
     db_ledger = [], db_write_sets = [], db_write_set_accumulator = [], db_keys = [], db_pending = None\<rparr>"

datatype db_write =
    PutTxn u64 applied_channel_txn
  | PutTxnByAccount "account_address \<times> u64" u64
  | PutInfo u64 transaction_info
  | PutPosition u64 hash_value
  | PutLedger u64 ledger_info
  | PutWriteSetItem "u64 \<times> u64" "access_path \<times> write_op"
  | PutWriteSetPosition "u64 \<times> u64" hash_value
  | PutKey account_address "public_key option"
  | PutPending pending_transaction
  | DeletePending

fun db_write1 :: "db_write \<Rightarrow> channel_db \<Rightarrow> channel_db" where
  "db_write1 (PutTxn v t) d = d\<lparr>db_txns := bt_insert v t (db_txns d)\<rparr>"
| "db_write1 (PutTxnByAccount k v) d = d\<lparr>db_txn_by_account := bt_insert k v (db_txn_by_account d)\<rparr>"
| "db_write1 (PutInfo v i) d = d\<lparr>db_infos := bt_insert v i (db_infos d)\<rparr>"
| "db_write1 (PutPosition p h) d = d\<lparr>db_accumulator := bt_insert p h (db_accumulator d)\<rparr>"
| "db_write1 (PutLedger e l) d = d\<lparr>db_ledger := bt_insert e l (db_ledger d)\<rparr>"
| "db_write1 (PutWriteSetItem k i) d = d\<lparr>db_write_sets := bt_insert k i (db_write_sets d)\<rparr>"
| "db_write1 (PutWriteSetPosition k h) d =
     d\<lparr>db_write_set_accumulator := bt_insert k h (db_write_set_accumulator d)\<rparr>"
| "db_write1 (PutKey a k) d = d\<lparr>db_keys := bt_insert a k (db_keys d)\<rparr>"
| "db_write1 (PutPending p) d = d\<lparr>db_pending := Some p\<rparr>"
| "db_write1 DeletePending d = d\<lparr>db_pending := None\<rparr>"

text \<open>\<open>write_schemas\<close>; \<open>ok\<close> says whether RocksDB accepts the batch.\<close>

definition write_schemas :: "bool \<Rightarrow> db_write list \<Rightarrow> channel_db \<Rightarrow> chan_error + channel_db" where
  "write_schemas ok batch d =
     (if ok then Inr (fold db_write1 batch d) else Inl (Bail ''RocksDB internal error''))"

record channel_store =
  s_db :: channel_db
  s_latest_ledger_info :: "ledger_info option"
  s_latest_witness :: "witness option"
  s_pending_txn :: "pending_transaction option"
  s_participant_keys :: "(account_address \<times> public_key option) list"

section \<open>The single stores\<close>

definition put_transaction ::
  "(channel_payload \<Rightarrow> u64) \<Rightarrow> u64 \<Rightarrow> applied_channel_txn \<Rightarrow> chan_error + db_write list" where
  "put_transaction pseq version t =
     try_bind (applied_seq pseq t) (\<lambda>seq.
     try_bind (applied_proposer t) (\<lambda>proposer.
       Inr [PutTxnByAccount (proposer, seq) version, PutTxn version t]))"

definition get_transaction :: "channel_db \<Rightarrow> u64 \<Rightarrow> chan_error + applied_channel_txn" where
  "get_transaction d version = ok_or (map_of (db_txns d) version) (Bail ''Txn not found'')"

definition lookup_transaction_by_account ::
  "channel_db \<Rightarrow> account_address \<Rightarrow> u64 \<Rightarrow> u64 \<Rightarrow> u64 option" where
  "lookup_transaction_by_account d a seq ledger_version =
     (case map_of (db_txn_by_account d) (a, seq) of
        Some version \<Rightarrow> if version \<le> ledger_version then Some version else None
      | None \<Rightarrow> None)"

definition put_write_set ::
  "'m ledger_lib \<Rightarrow> u64 \<Rightarrow> write_set \<Rightarrow> chan_error + (hash_value \<times> db_write list)" where
  "put_write_set A version ws =
     try_bind (acc_append A (\<lambda>_. None) 0 (map (hash_write_set_item A) ws)) (\<lambda>(root, writes).
       Inr (root, map (\<lambda>(pos, h). PutWriteSetPosition (version, pos) h) writes @
                  map (\<lambda>(i, item). PutWriteSetItem (version, of_nat i) item) (enumerate 0 ws)))"

definition get_write_set_by_version :: "'m ledger_lib \<Rightarrow> channel_db \<Rightarrow> u64 \<Rightarrow> chan_error + write_set" where
  "get_write_set_by_version A d version =
     (let from_seek = dropWhile (\<lambda>(k, _). k < (version, 0)) (db_write_sets d)
      in freeze_write_set A (map snd (takeWhile (\<lambda>((v, _), _). v = version) from_seek)))"

definition put_tx_info ::
  "'m ledger_lib \<Rightarrow> channel_db \<Rightarrow> u64 \<Rightarrow> transaction_info \<Rightarrow> chan_error + (hash_value \<times> db_write list)" where
  "put_tx_info A d version info =
     try_bind (acc_append A (map_of (db_accumulator d)) version [hash_txn_info A info]) (\<lambda>(root, writes).
       Inr (root, PutInfo version info # map (\<lambda>(pos, h). PutPosition pos h) writes))"

text \<open>\<open>seek_to_last\<close> and \<open>next\<close> on a table: the entry with the greatest key.\<close>

definition last_entry :: "('k \<times> 'v) list \<Rightarrow> ('k \<times> 'v) option" where
  "last_entry t = (if t = [] then None else Some (last t))"

definition get_latest_transaction_info :: "channel_db \<Rightarrow> chan_error + (u64 \<times> transaction_info)" where
  "get_latest_transaction_info d = ok_or (last_entry (db_infos d)) (Bail ''Genesis TransactionInfo.'')"

definition get_transaction_info_with_proof ::
  "'m ledger_lib \<Rightarrow> channel_db \<Rightarrow> u64 \<Rightarrow> u64 \<Rightarrow> chan_error + (transaction_info \<times> hash_value list)" where
  "get_transaction_info_with_proof A d version ledger_version =
     try_bind (ok_or (map_of (db_infos d) version) (Bail ''No TransactionInfo at version'')) (\<lambda>info.
     try_bind (acc_proof A (map_of (db_accumulator d)) (ledger_version + 1) version) (\<lambda>proof.
       Inr (info, proof)))"

section \<open>ChannelStore\<close>

definition generate_witness ::
  "(channel_payload \<Rightarrow> u64) \<Rightarrow> applied_channel_txn \<Rightarrow> write_set \<Rightarrow> chan_error + witness" where
  "generate_witness pseq t ws =
     try_bind (applied_seq pseq t) (\<lambda>seq.
       Inr \<lparr>w_data = \<lparr>wd_channel_sequence_number = seq + 1, wd_write_set = ws\<rparr>,
            w_signatures = (case t of
               Offchain s \<Rightarrow> map (\<lambda>(_, s). witness_data_signature s) (sct_signatures s)
             | Travel _ \<Rightarrow> [])\<rparr>)"

definition load_witness ::
  "'m ledger_lib \<Rightarrow> (channel_payload \<Rightarrow> u64) \<Rightarrow> channel_db \<Rightarrow> ledger_info option \<Rightarrow> chan_error + witness option" where
  "load_witness A pseq d li =
     (case li of
        None \<Rightarrow> Inr None
      | Some l \<Rightarrow>
          try_bind (get_write_set_by_version A d (li_version l)) (\<lambda>ws.
          try_bind (get_transaction d (li_version l)) (\<lambda>t.
          try_bind (generate_witness pseq t ws) (\<lambda>w. Inr (Some w)))))"

definition panicking :: "chan_error + 'a \<Rightarrow> chan_error + 'a" where
  "panicking r = (case r of Inl (Bail m) \<Rightarrow> Inl (Panic m) | Inl (BailSg e) \<Rightarrow> Inl (Panic (sg_message e)) | _ \<Rightarrow> r)"

text \<open>\<open>new\<close> with \<open>bootstrap\<close>. \<open>ok\<close> is whether the database takes the initial participants.\<close>

definition channel_store_new ::
  "'m ledger_lib \<Rightarrow> (channel_payload \<Rightarrow> u64) \<Rightarrow> bool \<Rightarrow> account_address list \<Rightarrow> channel_db \<Rightarrow>
     chan_error + channel_store" where
  "channel_store_new A pseq ok participants d =
     (let li = map_option snd (last_entry (db_ledger d))
      in try_bind (panicking (load_witness A pseq d li)) (\<lambda>w.
           (let s = \<lparr>s_db = d, s_latest_ledger_info = li, s_latest_witness = w,
                     s_pending_txn = db_pending d, s_participant_keys = db_keys d\<rparr>
            in if s_participant_keys s = []
               then try_bind (write_schemas ok (map (\<lambda>a. PutKey a None) participants) d) (\<lambda>d.
                      Inr (s\<lparr>s_db := d, s_participant_keys := db_keys d\<rparr>))
               else Inr s)))"

definition store_participant_addresses :: "channel_store \<Rightarrow> account_address list" where
  "store_participant_addresses s = map fst (s_participant_keys s)"

definition get_participant_keys :: "channel_store \<Rightarrow> (account_address \<times> public_key) list" where
  "get_participant_keys s =
     List.map_filter (\<lambda>(a, k). map_option (Pair a) k) (s_participant_keys s)"

text \<open>The keys that a transaction changes: the participants in order, zipped with its keys.\<close>

definition updated_keys ::
  "(account_address \<times> public_key option) list \<Rightarrow> public_key list \<Rightarrow> (account_address \<times> public_key option) list" where
  "updated_keys old new =
     List.map_filter (\<lambda>((a, k), n). if k = Some n then None else Some (a, Some n)) (zip old new)"

definition save_tx_impl ::
  "'m ledger_lib \<Rightarrow> (channel_payload \<Rightarrow> u64) \<Rightarrow> channel_db \<Rightarrow> transaction_to_commit \<Rightarrow> u64 \<Rightarrow>
     chan_error + (hash_value \<times> db_write list)" where
  "save_tx_impl A pseq d tx version =
     try_bind (put_write_set A version (tc_write_set tx)) (\<lambda>(ws_root, ws_writes).
     try_bind (put_transaction pseq version (tc_txn tx)) (\<lambda>txn_writes.
     try_bind (put_tx_info A d version
        \<lparr>ti_signed_transaction_hash = hash_applied_txn A (tc_txn tx), ti_write_set_root_hash = ws_root,
         ti_event_root_hash = hash_default A, ti_major_status = tc_major_status tx,
         ti_travel = applied_travel (tc_txn tx), ti_gas_used = tc_gas_used tx\<rparr>) (\<lambda>(root, info_writes).
       Inr (root, ws_writes @ txn_writes @ info_writes))))"

definition save_tx ::
  "'m ledger_lib \<Rightarrow> (channel_payload \<Rightarrow> u64) \<Rightarrow> bool \<Rightarrow> transaction_to_commit \<Rightarrow> u64 \<Rightarrow> ledger_info option \<Rightarrow>
     bool \<Rightarrow> channel_store \<Rightarrow> chan_error + channel_store" where
  "save_tx A pseq ok tx version ledger_info clear_pending s =
     try_bind (case ledger_info of
        Some l \<Rightarrow> ensure (li_version l = version) (Bail ''Transaction batch not applicable'')
      | None \<Rightarrow> Inr ()) (\<lambda>_.
     try_bind (generate_witness pseq (tc_txn tx) (tc_write_set tx)) (\<lambda>witness.
     try_bind (applied_keys (tc_txn tx)) (\<lambda>new_keys.
       (let updated = updated_keys (s_participant_keys s) new_keys
        in try_bind (save_tx_impl A pseq (s_db s) tx version) (\<lambda>(root, writes).
           try_bind (case ledger_info of
              Some l \<Rightarrow> try_bind (ensure (root = li_accumulator_hash l) (Bail ''Root hash calculated doesn't match expected''))
                          (\<lambda>_. Inr [PutLedger (li_epoch l) l])
            | None \<Rightarrow> Inr []) (\<lambda>ledger_writes.
           try_bind (write_schemas ok
              (map (\<lambda>(a, k). PutKey a k) updated @ writes @ ledger_writes @
               (if clear_pending then [DeletePending] else [])) (s_db s)) (\<lambda>d.
             Inr \<lparr>s_db = d,
                  s_latest_ledger_info = (case ledger_info of Some l \<Rightarrow> Some l | None \<Rightarrow> s_latest_ledger_info s),
                  s_latest_witness = Some witness,
                  s_pending_txn = (if clear_pending then None else s_pending_txn s),
                  s_participant_keys = bt_append (s_participant_keys s) updated\<rparr>)))))))"

definition store_save_pending_txn ::
  "bool \<Rightarrow> pending_transaction \<Rightarrow> bool \<Rightarrow> channel_store \<Rightarrow> chan_error + channel_store" where
  "store_save_pending_txn ok p persist s =
     try_bind (if persist then write_schemas ok [PutPending p] (s_db s) else Inr (s_db s)) (\<lambda>d.
       Inr (s\<lparr>s_db := d, s_pending_txn := Some p\<rparr>))"

definition store_clear_pending_txn :: "bool \<Rightarrow> channel_store \<Rightarrow> chan_error + channel_store" where
  "store_clear_pending_txn ok s =
     try_bind (write_schemas ok [DeletePending] (s_db s)) (\<lambda>d.
       Inr (s\<lparr>s_db := d, s_pending_txn := None\<rparr>))"

record startup_info =
  si_ledger_info :: ledger_info
  si_latest_version :: u64
  si_frozen_subtree_hashes :: "hash_value list"

definition get_startup_info :: "'m ledger_lib \<Rightarrow> channel_store \<Rightarrow> chan_error + startup_info option" where
  "get_startup_info A s =
     (case s_latest_ledger_info s of
        None \<Rightarrow> Inr None
      | Some l \<Rightarrow>
          try_bind (get_latest_transaction_info (s_db s)) (\<lambda>(version, _).
          try_bind (acc_frozen A (map_of (db_accumulator (s_db s))) (version + 1)) (\<lambda>frozen.
            Inr (Some \<lparr>si_ledger_info = l, si_latest_version = version, si_frozen_subtree_hashes = frozen\<rparr>))))"

record txn_with_proof =
  tp_version :: u64
  tp_signed_transaction :: applied_channel_txn
  tp_info :: transaction_info
  tp_proof :: "hash_value list"

definition get_transaction_by_channel_seq_number ::
  "'m ledger_lib \<Rightarrow> channel_store \<Rightarrow> u64 \<Rightarrow> chan_error + txn_with_proof" where
  "get_transaction_by_channel_seq_number A s version =
     try_bind (ok_or (s_latest_ledger_info s) (Bail ''Genesis LedgerInfo'')) (\<lambda>l.
     try_bind (get_transaction_info_with_proof A (s_db s) version (li_version l)) (\<lambda>(info, proof).
     try_bind (get_transaction (s_db s) version) (\<lambda>t.
       Inr \<lparr>tp_version = version, tp_signed_transaction = t, tp_info = info, tp_proof = proof\<rparr>)))"

section \<open>TxApplier\<close>

record 'm tx_applier =
  ta_epoch :: u64
  ta_accumulator :: 'm

definition tx_applier_new :: "'m ledger_lib \<Rightarrow> channel_store \<Rightarrow> chan_error + 'm tx_applier" where
  "tx_applier_new A s =
     try_bind (panicking (get_startup_info A s)) (\<lambda>info.
       (case info of
          Some i \<Rightarrow>
            try_bind (panicking (mem_new A (si_frozen_subtree_hashes i) (si_latest_version i + 1))) (\<lambda>m.
              Inr \<lparr>ta_epoch = li_epoch (si_ledger_info i), ta_accumulator = m\<rparr>)
        | None \<Rightarrow>
            try_bind (panicking (mem_new A [] 0)) (\<lambda>m. Inr \<lparr>ta_epoch = 0, ta_accumulator = m\<rparr>)))"

definition tx_apply ::
  "'m ledger_lib \<Rightarrow> (channel_payload \<Rightarrow> u64) \<Rightarrow> bool \<Rightarrow> u64 \<Rightarrow> transaction_to_commit \<Rightarrow>
     'm tx_applier \<times> channel_store \<Rightarrow> chan_error + ('m tx_applier \<times> channel_store)" where
  "tx_apply A pseq ok timestamp tx = (\<lambda>(ta, s).
     try_bind (applied_seq pseq (tc_txn tx)) (\<lambda>seq.
     try_bind (ensure (seq = mem_num_leaves A (ta_accumulator ta)) (Bail ''tx channel seq number mismatched'')) (\<lambda>_.
       (let travel = applied_travel (tc_txn tx);
            info = \<lparr>ti_signed_transaction_hash = hash_applied_txn A (tc_txn tx),
              ti_write_set_root_hash =
                mem_root_hash A (mem_append A (mem_default A) (map (hash_write_set_item A) (tc_write_set tx))),
              ti_event_root_hash = hash_default A, ti_major_status = tc_major_status tx,
              ti_travel = travel, ti_gas_used = tc_gas_used tx\<rparr>;
            acc = mem_append A (ta_accumulator ta) [hash_txn_info A info];
            new_epoch = (if travel then seq else ta_epoch ta);
            l = \<lparr>li_version = seq, li_accumulator_hash = mem_root_hash A acc, li_epoch = new_epoch,
                 li_timestamp_usecs = timestamp\<rparr>
        in try_bind (save_tx A pseq ok tx seq (Some l) True s) (\<lambda>s.
             Inr (\<lparr>ta_epoch = new_epoch, ta_accumulator = acc\<rparr>, s))))))"

end
