(* ===== verification/Ledger_Correct.thy ===== *)
theory Ledger_Correct
  imports Channel_Store
begin

text \<open>
  The local ledger implements an append-only list of transactions. \<open>represents\<close> relates the
  tables, the caches and the applier to that list; applying appends to it, reading returns its
  entries, and a restart from the database alone rebuilds the caches and the applier.
\<close>

section \<open>What the accumulators are relied on for\<close>

text \<open>\<open>root\<close> is the root hash of a list of leaves; \<open>acc_rep\<close> and \<open>mem_rep\<close> say that stored positions,
  respectively an accumulator in memory, hold that list.\<close>

definition accumulator_ok ::
  "'m ledger_lib \<Rightarrow> (hash_value list \<Rightarrow> hash_value) \<Rightarrow> ((u64 \<Rightarrow> hash_value option) \<Rightarrow> hash_value list \<Rightarrow> bool) \<Rightarrow>
     ('m \<Rightarrow> hash_value list \<Rightarrow> bool) \<Rightarrow> bool" where
  "accumulator_ok A root acc_rep mem_rep \<longleftrightarrow>
     acc_rep (\<lambda>_. None) [] \<and>
     (\<forall>hs. \<exists>ws. acc_append A (\<lambda>_. None) 0 hs = Inr (root hs, ws)) \<and>
     (\<forall>t hs h. acc_rep t hs \<and> length hs < 2 ^ 64 - 1 \<longrightarrow>
        (\<exists>ws. acc_append A t (of_nat (length hs)) [h] = Inr (root (hs @ [h]), ws) \<and>
           acc_rep (fold (\<lambda>(p, x) t. t(p \<mapsto> x)) ws t) (hs @ [h]))) \<and>
     (\<forall>t hs i. acc_rep t hs \<and> i < length hs \<longrightarrow>
        (\<exists>p. acc_proof A t (of_nat (length hs)) (of_nat i) = Inr p)) \<and>
     (\<forall>t hs. acc_rep t hs \<and> hs \<noteq> [] \<longrightarrow>
        (\<exists>fs m. acc_frozen A t (of_nat (length hs)) = Inr fs \<and> mem_new A fs (of_nat (length hs)) = Inr m \<and> mem_rep m hs)) \<and>
     (\<exists>m. mem_new A [] 0 = Inr m \<and> mem_rep m []) \<and> mem_rep (mem_default A) [] \<and>
     (\<forall>m hs xs. mem_rep m hs \<longrightarrow> mem_rep (mem_append A m xs) (hs @ xs)) \<and>
     (\<forall>m hs. mem_rep m hs \<longrightarrow> mem_root_hash A m = root hs \<and> mem_num_leaves A m = of_nat (length hs)) \<and>
     (\<forall>ws. freeze_write_set A ws = Inr ws)"

lemma accumulator_proof:
  assumes "accumulator_ok A root acc_rep mem_rep" "acc_rep t hs" "i < length hs"
  obtains p where "acc_proof A t (of_nat (length hs)) (of_nat i) = Inr p"
proof -
  have "\<forall>t hs i. acc_rep t hs \<and> i < length hs \<longrightarrow> (\<exists>p. acc_proof A t (of_nat (length hs)) (of_nat i) = Inr p)"
    using assms(1) unfolding accumulator_ok_def by (elim conjE)
  with assms(2,3) that show thesis by blast
qed

lemma accumulator_frozen:
  assumes "accumulator_ok A root acc_rep mem_rep" "acc_rep t hs" "hs \<noteq> []"
  obtains fs m where "acc_frozen A t (of_nat (length hs)) = Inr fs" "mem_new A fs (of_nat (length hs)) = Inr m" "mem_rep m hs"
proof -
  have "\<forall>t hs. acc_rep t hs \<and> hs \<noteq> [] \<longrightarrow>
        (\<exists>fs m. acc_frozen A t (of_nat (length hs)) = Inr fs \<and> mem_new A fs (of_nat (length hs)) = Inr m \<and> mem_rep m hs)"
    using assms(1) unfolding accumulator_ok_def by (elim conjE)
  with assms(2,3) that show thesis by blast
qed

section \<open>The abstract ledger\<close>

definition info_of :: "'m ledger_lib \<Rightarrow> (hash_value list \<Rightarrow> hash_value) \<Rightarrow> transaction_to_commit \<Rightarrow> transaction_info" where
  "info_of A root tx =
     \<lparr>ti_signed_transaction_hash = hash_applied_txn A (tc_txn tx),
      ti_write_set_root_hash = root (map (hash_write_set_item A) (tc_write_set tx)),
      ti_event_root_hash = hash_default A, ti_major_status = tc_major_status tx,
      ti_travel = applied_travel (tc_txn tx), ti_gas_used = tc_gas_used tx\<rparr>"

definition leaf :: "'m ledger_lib \<Rightarrow> (hash_value list \<Rightarrow> hash_value) \<Rightarrow> transaction_to_commit \<Rightarrow> hash_value" where
  "leaf A root tx = hash_txn_info A (info_of A root tx)"

text \<open>The last synchronisation point: the version of the last transaction that travelled.\<close>

definition epoch_of :: "transaction_to_commit list \<Rightarrow> u64" where
  "epoch_of txs = fold (\<lambda>(i, tx) e. if applied_travel (tc_txn tx) then of_nat i else e) (enumerate 0 txs) 0"

text \<open>Tables indexed by version.\<close>

definition table :: "(transaction_to_commit \<Rightarrow> 'v) \<Rightarrow> transaction_to_commit list \<Rightarrow> (u64 \<times> 'v) list" where
  "table f txs = map (\<lambda>(i, tx). (of_nat i, f tx)) (enumerate 0 txs)"

definition items_at :: "nat \<Rightarrow> transaction_to_commit \<Rightarrow> ((u64 \<times> u64) \<times> access_path \<times> write_op) list" where
  "items_at i tx = map (\<lambda>(j, item). ((of_nat i, of_nat j), item)) (enumerate 0 (tc_write_set tx))"

definition items_table :: "transaction_to_commit list \<Rightarrow> ((u64 \<times> u64) \<times> access_path \<times> write_op) list" where
  "items_table txs = concat (map (\<lambda>(i, tx). items_at i tx) (enumerate 0 txs))"

definition latest_ok ::
  "'m ledger_lib \<Rightarrow> (hash_value list \<Rightarrow> hash_value) \<Rightarrow> transaction_to_commit list \<Rightarrow> ledger_info option \<Rightarrow> bool" where
  "latest_ok A root txs lo \<longleftrightarrow>
     (case lo of
        None \<Rightarrow> txs = []
      | Some l \<Rightarrow> txs \<noteq> [] \<and> li_version l = of_nat (length txs - 1) \<and>
          li_accumulator_hash l = root (map (leaf A root) txs) \<and> li_epoch l = epoch_of txs)"

definition witness_ok :: "(channel_payload \<Rightarrow> u64) \<Rightarrow> transaction_to_commit list \<Rightarrow> witness option \<Rightarrow> bool" where
  "witness_ok pseq txs wo \<longleftrightarrow>
     (if txs = [] then wo = None
      else \<exists>w. generate_witness pseq (tc_txn (last txs)) (tc_write_set (last txs)) = Inr w \<and> wo = Some w)"

definition represents ::
  "'m ledger_lib \<Rightarrow> (channel_payload \<Rightarrow> u64) \<Rightarrow> (hash_value list \<Rightarrow> hash_value) \<Rightarrow>
     ((u64 \<Rightarrow> hash_value option) \<Rightarrow> hash_value list \<Rightarrow> bool) \<Rightarrow> ('m \<Rightarrow> hash_value list \<Rightarrow> bool) \<Rightarrow>
     transaction_to_commit list \<Rightarrow> 'm tx_applier \<Rightarrow> channel_store \<Rightarrow> bool" where
  "represents A pseq root acc_rep mem_rep txs ta s \<longleftrightarrow>
     length txs < 2 ^ 64 \<and> (\<forall>tx \<in> set txs. length (tc_write_set tx) < 2 ^ 64) \<and>
     (\<forall>i < length txs. applied_seq pseq (tc_txn (txs ! i)) = Inr (of_nat i)) \<and>
     db_txns (s_db s) = table tc_txn txs \<and> db_infos (s_db s) = table (info_of A root) txs \<and>
     db_write_sets (s_db s) = items_table txs \<and>
     acc_rep (map_of (db_accumulator (s_db s))) (map (leaf A root) txs) \<and>
     mem_rep (ta_accumulator ta) (map (leaf A root) txs) \<and> ta_epoch ta = epoch_of txs \<and>
     bt_wf (db_ledger (s_db s)) \<and> (\<forall>e \<in> fst ` set (db_ledger (s_db s)). e \<le> epoch_of txs) \<and>
     s_latest_ledger_info s = map_option snd (last_entry (db_ledger (s_db s))) \<and>
     latest_ok A root txs (s_latest_ledger_info s) \<and> witness_ok pseq txs (s_latest_witness s) \<and>
     s_participant_keys s = db_keys (s_db s) \<and> bt_wf (db_keys (s_db s))"

lemma represents_pending:
  "represents A pseq root acc_rep mem_rep txs ta s \<Longrightarrow>
     represents A pseq root acc_rep mem_rep txs ta (s\<lparr>s_db := (s_db s)\<lparr>db_pending := x\<rparr>, s_pending_txn := y\<rparr>)"
  unfolding represents_def by auto

section \<open>Tables\<close>

lemma of_nat_less_u64: "i < n \<Longrightarrow> n < 2 ^ 64 \<Longrightarrow> (of_nat i :: u64) < of_nat n"
  by (simp add: of_nat_word_less_iff take_bit_nat_eq_self)

lemma of_nat_eq_u64: "i < 2 ^ 64 \<Longrightarrow> n < 2 ^ 64 \<Longrightarrow> (of_nat i :: u64) = of_nat n \<longleftrightarrow> i = n"
  by (simp add: word_of_nat_eq_iff take_bit_nat_eq_self)

lemma table_snoc: "table f (txs @ [tx]) = table f txs @ [(of_nat (length txs), f tx)]"
  by (simp add: table_def enumerate_append_eq)

lemma table_keys: "fst ` set (table f txs) = (\<lambda>i. of_nat i) ` {..<length txs}"
  by (force simp: table_def in_set_enumerate_eq image_iff)

lemma table_insert:
  assumes "length txs < 2 ^ 64"
  shows "bt_insert (of_nat (length txs)) (f tx) (table f txs) = table f (txs @ [tx])"
  unfolding table_snoc using assms by (intro bt_insert_last) (auto simp: table_keys of_nat_less_u64)

lemma map_of_table:
  assumes "length txs < 2 ^ 64" "i < length txs"
  shows "map_of (table f txs) (of_nat i) = Some (f (txs ! i))"
  using assms
proof (induction txs rule: rev_induct)
  case (snoc tx txs)
  have new: "map_of (table f txs) (of_nat (length txs)) = None"
    using snoc.prems(1) by (auto simp: map_of_eq_None_iff table_keys of_nat_eq_u64)
  show ?case
  proof (cases "i = length txs")
    case True
    with new show ?thesis by (simp add: table_snoc map_add_def)
  next
    case False
    then have "i < length txs" using snoc.prems(2) by simp
    with snoc show ?thesis by (auto simp: table_snoc map_add_def nth_append of_nat_eq_u64)
  qed
qed simp

lemma map_of_table_None:
  assumes "length txs < 2 ^ 64" "length txs \<le> i" "i < 2 ^ 64"
  shows "map_of (table f txs) (of_nat i) = None"
  using assms by (auto simp: map_of_eq_None_iff table_keys of_nat_eq_u64)

lemma last_table: "txs \<noteq> [] \<Longrightarrow> last_entry (table f txs) = Some (of_nat (length txs - 1), f (last txs))"
  by (induction txs rule: rev_induct) (simp_all add: table_snoc last_entry_def)

section \<open>Batches\<close>

lemma fold_PutKey: "fold db_write1 (map (\<lambda>(a, k). PutKey a k) us) d = d\<lparr>db_keys := bt_append (db_keys d) us\<rparr>"
  by (induction us arbitrary: d) (auto simp: bt_append_def)

lemma fold_PutPosition:
  "fold db_write1 (map (\<lambda>(p, h). PutPosition p h) ws) d = d\<lparr>db_accumulator := bt_append (db_accumulator d) ws\<rparr>"
  by (induction ws arbitrary: d) (auto simp: bt_append_def)

lemma fold_PutWriteSetPosition:
  "fold db_write1 (map (\<lambda>(p, h). PutWriteSetPosition (v, p) h) ws) d =
     d\<lparr>db_write_set_accumulator := bt_append (db_write_set_accumulator d) (map (\<lambda>(p, h). ((v, p), h)) ws)\<rparr>"
  by (induction ws arbitrary: d) (auto simp: bt_append_def)

lemma fold_PutWriteSetItem:
  "fold db_write1 (map (\<lambda>(i, item). PutWriteSetItem (v, of_nat i) item) ws) d =
     d\<lparr>db_write_sets := bt_append (db_write_sets d) (map (\<lambda>(i, item). ((v, of_nat i), item)) ws)\<rparr>"
  by (induction ws arbitrary: d) (auto simp: bt_append_def)

lemma map_of_bt_append_fold: "map_of (bt_append m ws) = fold (\<lambda>(p, x) t. t(p \<mapsto> x)) ws (map_of m)"
  by (induction ws arbitrary: m) (auto simp: bt_append_def)

lemma bt_append_last:
  "bt_wf n \<Longrightarrow> (\<And>k k'. k \<in> fst ` set m \<Longrightarrow> k' \<in> fst ` set n \<Longrightarrow> k < k') \<Longrightarrow> bt_append m n = m @ n"
proof (induction n arbitrary: m)
  case (Cons x n)
  obtain k v where x: "x = (k, v)" by (cases x)
  have "bt_insert k v m = m @ [(k, v)]" using Cons.prems(2) x by (intro bt_insert_last) simp
  moreover have "bt_append (m @ [(k, v)]) n = (m @ [(k, v)]) @ n"
    using Cons.prems x by (intro Cons.IH) auto
  ultimately show ?case using x by simp
qed simp

lemma items_at_wf: "length (tc_write_set tx) < 2 ^ 64 \<Longrightarrow> bt_wf (items_at i tx)"
  unfolding bt_wf_def sorted_wrt_iff_nth_less
  by (auto simp: items_at_def nth_enumerate_eq of_nat_less_u64)

lemma items_at_keys: "k \<in> fst ` set (items_at i tx) \<Longrightarrow> \<exists>j. k = (of_nat i, j)"
  by (auto simp: items_at_def)

lemma items_table_snoc: "items_table (txs @ [tx]) = items_table txs @ items_at (length txs) tx"
  by (simp add: items_table_def enumerate_append_eq)

lemma items_table_keys: "k \<in> fst ` set (items_table txs) \<Longrightarrow> \<exists>i < length txs. \<exists>j. k = (of_nat i, j)"
  by (fastforce simp: items_table_def in_set_enumerate_eq dest!: items_at_keys [OF imageI])

lemma items_table_insert:
  assumes "length txs < 2 ^ 64" "length (tc_write_set tx) < 2 ^ 64"
  shows "bt_append (items_table txs) (items_at (length txs) tx) = items_table (txs @ [tx])"
  unfolding items_table_snoc
proof (rule bt_append_last [OF items_at_wf [OF assms(2)]])
  fix k k'
  assume "k \<in> fst ` set (items_table txs)" "k' \<in> fst ` set (items_at (length txs) tx)"
  from items_table_keys [OF this(1)] items_at_keys [OF this(2)]
  obtain i j j' where "i < length txs" "k = (of_nat i, j)" "k' = (of_nat (length txs), j')" by blast
  with assms(1) show "k < k'" by (simp add: of_nat_less_u64)
qed

lemma epoch_of_snoc:
  "epoch_of (txs @ [tx]) = (if applied_travel (tc_txn tx) then of_nat (length txs) else epoch_of txs)"
  by (simp add: epoch_of_def enumerate_append_eq)

lemma epoch_of_bound: "length txs < 2 ^ 64 \<Longrightarrow> epoch_of txs \<le> of_nat (length txs)"
proof (induction txs rule: rev_induct)
  case (snoc tx txs)
  have "(of_nat (length txs) :: u64) < of_nat (Suc (length txs))"
    using snoc.prems by (intro of_nat_less_u64) simp_all
  moreover have "epoch_of txs \<le> of_nat (length txs)" using snoc by simp
  ultimately show ?case by (auto simp: epoch_of_snoc)
qed (simp add: epoch_of_def)

lemma epoch_mono: "length txs < 2 ^ 64 \<Longrightarrow> epoch_of txs \<le> epoch_of (txs @ [tx])"
  using epoch_of_bound by (simp add: epoch_of_snoc)

lemma bt_insert_greatest:
  "bt_wf m \<Longrightarrow> (\<And>k'. k' \<in> fst ` set m \<Longrightarrow> k' \<le> k) \<Longrightarrow> last_entry (bt_insert k v m) = Some (k, v)"
proof (induction m)
  case (Cons x m)
  obtain k' v' where x: "x = (k', v')" by (cases x)
  have le: "k' \<le> k" "\<And>k'. k' \<in> fst ` set m \<Longrightarrow> k' \<le> k" using Cons.prems x by auto
  show ?case
  proof (cases "k = k'")
    case True
    have "m = []"
    proof (rule ccontr)
      assume "m \<noteq> []"
      then obtain y where "y \<in> set m" by (cases m) auto
      with le(2) [of "fst y"] Cons.prems(1) x True show False by auto
    qed
    with True x show ?thesis by (simp add: last_entry_def)
  next
    case False
    have "last_entry (bt_insert k v m) = Some (k, v)" using Cons.prems(1) x le(2) by (intro Cons.IH) simp_all
    with False le(1) x show ?thesis by (auto simp: last_entry_def split: if_splits)
  qed
qed (simp add: last_entry_def)

section \<open>Applying a transaction\<close>

lemma applied_keys_ok: "applied_seq pseq t = Inr n \<Longrightarrow> \<exists>ks a. applied_keys t = Inr ks \<and> applied_proposer t = Inr a"
  by (cases t) (auto split: transaction_payload.splits)

text \<open>The batch that \<open>save_tx\<close> commits for the transaction at version \<open>length txs\<close>.\<close>

lemma save_tx_impl_eq:
  assumes "accumulator_ok A root acc_rep mem_rep" "represents A pseq root acc_rep mem_rep txs ta s"
    and "applied_seq pseq (tc_txn tx) = Inr (of_nat (length txs))" "length txs < 2 ^ 64 - 1"
  obtains wsp a ps where
    "save_tx_impl A pseq (s_db s) tx (of_nat (length txs)) = Inr (root (map (leaf A root) (txs @ [tx])),
       (map (\<lambda>(p, h). PutWriteSetPosition (of_nat (length txs), p) h) wsp @
        map (\<lambda>(i, item). PutWriteSetItem (of_nat (length txs), of_nat i) item) (enumerate 0 (tc_write_set tx))) @
       [PutTxnByAccount (a, of_nat (length txs)) (of_nat (length txs)), PutTxn (of_nat (length txs)) (tc_txn tx)] @
       PutInfo (of_nat (length txs)) (info_of A root tx) # map (\<lambda>(p, h). PutPosition p h) ps)"
    "acc_rep (map_of (bt_append (db_accumulator (s_db s)) ps)) (map (leaf A root) (txs @ [tx]))"
proof -
  obtain wsp where wsp: "acc_append A (\<lambda>_. None) 0 (map (hash_write_set_item A) (tc_write_set tx)) =
      Inr (root (map (hash_write_set_item A) (tc_write_set tx)), wsp)"
    using assms(1) unfolding accumulator_ok_def by blast
  have "acc_rep (map_of (db_accumulator (s_db s))) (map (leaf A root) txs)"
    "length (map (leaf A root) txs) < 2 ^ 64 - 1"
    using assms(2,4) by (simp_all add: represents_def)
  with assms(1) obtain ps where ps:
    "acc_append A (map_of (db_accumulator (s_db s))) (of_nat (length (map (leaf A root) txs))) [leaf A root tx] =
       Inr (root (map (leaf A root) txs @ [leaf A root tx]), ps)"
    "acc_rep (fold (\<lambda>(p, x) t. t(p \<mapsto> x)) ps (map_of (db_accumulator (s_db s)))) (map (leaf A root) txs @ [leaf A root tx])"
    unfolding accumulator_ok_def by blast
  obtain a where "applied_proposer (tc_txn tx) = Inr a" using applied_keys_ok [OF assms(3)] by blast
  with wsp ps(1) assms(3) have "save_tx_impl A pseq (s_db s) tx (of_nat (length txs)) = Inr (root (map (leaf A root) (txs @ [tx])),
       (map (\<lambda>(p, h). PutWriteSetPosition (of_nat (length txs), p) h) wsp @
        map (\<lambda>(i, item). PutWriteSetItem (of_nat (length txs), of_nat i) item) (enumerate 0 (tc_write_set tx))) @
       [PutTxnByAccount (a, of_nat (length txs)) (of_nat (length txs)), PutTxn (of_nat (length txs)) (tc_txn tx)] @
       PutInfo (of_nat (length txs)) (info_of A root tx) # map (\<lambda>(p, h). PutPosition p h) ps)"
    by (simp add: save_tx_impl_def put_write_set_def put_transaction_def put_tx_info_def info_of_def leaf_def)
  with ps(2) show ?thesis by (intro that [of wsp a ps]) (simp_all add: map_of_bt_append_fold)
qed

text \<open>The tables after the batch.\<close>

lemma batch_effect:
  assumes "d' = fold db_write1
     (map (\<lambda>(a, k). PutKey a k) us @
      ((map (\<lambda>(p, h). PutWriteSetPosition (v, p) h) wsp @
        map (\<lambda>(i, item). PutWriteSetItem (v, of_nat i) item) ws) @
       [PutTxnByAccount ka va, PutTxn v t] @ PutInfo v info # map (\<lambda>(p, h). PutPosition p h) ps) @
      [PutLedger e l] @ [DeletePending]) d"
  shows "db_txns d' = bt_insert v t (db_txns d)" "db_infos d' = bt_insert v info (db_infos d)"
    "db_write_sets d' = bt_append (db_write_sets d) (map (\<lambda>(i, item). ((v, of_nat i), item)) ws)"
    "db_accumulator d' = bt_append (db_accumulator d) ps" "db_ledger d' = bt_insert e l (db_ledger d)"
    "db_keys d' = bt_append (db_keys d) us" "db_pending d' = None"
  by (simp_all add: assms fold_PutKey fold_PutWriteSetPosition fold_PutWriteSetItem fold_PutPosition)

lemma save_tx_represents:
  assumes A: "accumulator_ok A root acc_rep mem_rep" and R: "represents A pseq root acc_rep mem_rep txs ta s"
    and seq: "applied_seq pseq (tc_txn tx) = Inr (of_nat (length txs))" and len: "length txs < 2 ^ 64 - 1"
    and ws: "length (tc_write_set tx) < 2 ^ 64"
    and l: "li_version l = of_nat (length txs)" "li_accumulator_hash l = root (map (leaf A root) (txs @ [tx]))"
      "li_epoch l = epoch_of (txs @ [tx])"
    and ta': "mem_rep (ta_accumulator ta') (map (leaf A root) (txs @ [tx]))" "ta_epoch ta' = epoch_of (txs @ [tx])"
  shows "\<exists>s'. save_tx A pseq True tx (of_nat (length txs)) (Some l) True s = Inr s' \<and>
    represents A pseq root acc_rep mem_rep (txs @ [tx]) ta' s' \<and> s_pending_txn s' = None \<and> db_pending (s_db s') = None"
proof -
  obtain wsp a ps where impl: "save_tx_impl A pseq (s_db s) tx (of_nat (length txs)) = Inr (root (map (leaf A root) (txs @ [tx])),
       (map (\<lambda>(p, h). PutWriteSetPosition (of_nat (length txs), p) h) wsp @
        map (\<lambda>(i, item). PutWriteSetItem (of_nat (length txs), of_nat i) item) (enumerate 0 (tc_write_set tx))) @
       [PutTxnByAccount (a, of_nat (length txs)) (of_nat (length txs)), PutTxn (of_nat (length txs)) (tc_txn tx)] @
       PutInfo (of_nat (length txs)) (info_of A root tx) # map (\<lambda>(p, h). PutPosition p h) ps)"
    and acc: "acc_rep (map_of (bt_append (db_accumulator (s_db s)) ps)) (map (leaf A root) (txs @ [tx]))"
    by (rule save_tx_impl_eq [OF A R seq len])
  obtain ks where ks: "applied_keys (tc_txn tx) = Inr ks" using applied_keys_ok [OF seq] by blast
  obtain w where w: "generate_witness pseq (tc_txn tx) (tc_write_set tx) = Inr w"
    using seq by (simp add: generate_witness_def)
  define us where "us = updated_keys (s_participant_keys s) ks"
  define d' where "d' = fold db_write1
     (map (\<lambda>(a, k). PutKey a k) us @
      ((map (\<lambda>(p, h). PutWriteSetPosition (of_nat (length txs), p) h) wsp @
        map (\<lambda>(i, item). PutWriteSetItem (of_nat (length txs), of_nat i) item) (enumerate 0 (tc_write_set tx))) @
       [PutTxnByAccount (a, of_nat (length txs)) (of_nat (length txs)), PutTxn (of_nat (length txs)) (tc_txn tx)] @
       PutInfo (of_nat (length txs)) (info_of A root tx) # map (\<lambda>(p, h). PutPosition p h) ps) @
      [PutLedger (li_epoch l) l] @ [DeletePending]) (s_db s)"
  let ?s = "\<lparr>s_db = d', s_latest_ledger_info = Some l, s_latest_witness = Some w, s_pending_txn = None,
     s_participant_keys = bt_append (s_participant_keys s) us\<rparr>"
  have run: "save_tx A pseq True tx (of_nat (length txs)) (Some l) True s = Inr ?s"
    by (simp add: save_tx_def l(1,2) w ks impl us_def [symmetric] write_schemas_def d'_def)
  note eff = batch_effect [OF d'_def]
  note r = R [unfolded represents_def]
  have n: "length txs < 2 ^ 64" using len by simp
  have greatest: "\<And>e. e \<in> fst ` set (db_ledger (s_db s)) \<Longrightarrow> e \<le> li_epoch l"
    using r epoch_mono [OF n, of tx] l(3) by fastforce
  have "represents A pseq root acc_rep mem_rep (txs @ [tx]) ta' ?s"
    unfolding represents_def
  proof (intro conjI)
    show "length (txs @ [tx]) < 2 ^ 64" using len by simp
    show "\<forall>tx \<in> set (txs @ [tx]). length (tc_write_set tx) < 2 ^ 64" using r ws by simp
    show "\<forall>i < length (txs @ [tx]). applied_seq pseq (tc_txn ((txs @ [tx]) ! i)) = Inr (of_nat i)"
      using r seq by (auto simp: nth_append less_Suc_eq)
    show "db_txns (s_db ?s) = table tc_txn (txs @ [tx])" using r table_insert [OF n, of tc_txn] eff by simp
    show "db_infos (s_db ?s) = table (info_of A root) (txs @ [tx])" using r table_insert [OF n, of "info_of A root"] eff by simp
    show "db_write_sets (s_db ?s) = items_table (txs @ [tx])"
      using r items_table_insert [OF n ws] eff by (simp add: items_at_def)
    show "acc_rep (map_of (db_accumulator (s_db ?s))) (map (leaf A root) (txs @ [tx]))" using acc eff by simp
    show "bt_wf (db_ledger (s_db ?s))" using r eff by simp
    show "\<forall>e \<in> fst ` set (db_ledger (s_db ?s)). e \<le> epoch_of (txs @ [tx])"
      using eff greatest l(3) by (auto simp: keys_bt_insert [of "li_epoch l" l, symmetric] dest!: subsetD [OF set_bt_insert])
    show "s_latest_ledger_info ?s = map_option snd (last_entry (db_ledger (s_db ?s)))"
      using eff bt_insert_greatest [of "db_ledger (s_db s)" "li_epoch l" l] r greatest by simp
    show "latest_ok A root (txs @ [tx]) (s_latest_ledger_info ?s)" using l by (simp add: latest_ok_def)
    show "witness_ok pseq (txs @ [tx]) (s_latest_witness ?s)" using w by (simp add: witness_ok_def)
    show "s_participant_keys ?s = db_keys (s_db ?s)" "bt_wf (db_keys (s_db ?s))" using r eff by (simp_all add: bt_wf_append)
  qed (use ta' eff in simp_all)
  with run eff show ?thesis by simp
qed

lemma tx_apply_step:
  assumes A: "accumulator_ok A root acc_rep mem_rep" and R: "represents A pseq root acc_rep mem_rep txs ta s"
    and len: "length txs < 2 ^ 64 - 1" and ws: "length (tc_write_set tx) < 2 ^ 64"
    and seq: "applied_seq pseq (tc_txn tx) = Inr (of_nat (length txs))"
  shows "\<exists>ta' s'. tx_apply A pseq True now tx (ta, s) = Inr (ta', s') \<and>
    represents A pseq root acc_rep mem_rep (txs @ [tx]) ta' s' \<and> s_pending_txn s' = None \<and> db_pending (s_db s') = None"
proof -
  have m: "mem_rep (ta_accumulator ta) (map (leaf A root) txs)" "ta_epoch ta = epoch_of txs"
    using R by (simp_all add: represents_def)
  have mem: "\<And>m hs xs. mem_rep m hs \<Longrightarrow> mem_rep (mem_append A m xs) (hs @ xs)" "mem_rep (mem_default A) []"
    "\<And>m hs. mem_rep m hs \<Longrightarrow> mem_root_hash A m = root hs \<and> mem_num_leaves A m = of_nat (length hs)"
    using A by (simp_all add: accumulator_ok_def)
  define acc where "acc = mem_append A (ta_accumulator ta) [leaf A root tx]"
  define ta' where "ta' = \<lparr>ta_epoch = epoch_of (txs @ [tx]), ta_accumulator = acc\<rparr>"
  define l where "l = \<lparr>li_version = of_nat (length txs), li_accumulator_hash = mem_root_hash A acc,
     li_epoch = epoch_of (txs @ [tx]), li_timestamp_usecs = now\<rparr>"
  have acc: "mem_rep acc (map (leaf A root) (txs @ [tx]))" using mem(1) [OF m(1)] by (simp add: acc_def)
  have wsr: "mem_root_hash A (mem_append A (mem_default A) (map (hash_write_set_item A) (tc_write_set tx)))
      = root (map (hash_write_set_item A) (tc_write_set tx))"
    using mem(3) [OF mem(1) [OF mem(2)]] by simp
  have "\<exists>s'. save_tx A pseq True tx (of_nat (length txs)) (Some l) True s = Inr s' \<and>
    represents A pseq root acc_rep mem_rep (txs @ [tx]) ta' s' \<and> s_pending_txn s' = None \<and> db_pending (s_db s') = None"
    by (rule save_tx_represents [OF A R seq len ws]) (use mem(3) [OF acc] acc in \<open>simp_all add: l_def ta'_def\<close>)
  then obtain s' where s': "save_tx A pseq True tx (of_nat (length txs)) (Some l) True s = Inr s'"
    "represents A pseq root acc_rep mem_rep (txs @ [tx]) ta' s'" "s_pending_txn s' = None \<and> db_pending (s_db s') = None" by blast
  have "tx_apply A pseq True now tx (ta, s) = Inr (ta', s')"
    using s'(1) mem(3) [OF m(1)] m(2) seq
    by (simp add: tx_apply_def Let_def wsr info_of_def [symmetric] leaf_def [symmetric] acc_def [symmetric]
        l_def ta'_def epoch_of_snoc cong: if_cong)
  with s'(2,3) show ?thesis by blast
qed

lemma tx_apply_mismatch:
  assumes "accumulator_ok A root acc_rep mem_rep" "represents A pseq root acc_rep mem_rep txs ta s"
    and "applied_seq pseq (tc_txn tx) = Inr n" "n \<noteq> of_nat (length txs)"
  shows "tx_apply A pseq ok now tx (ta, s) = Inl (Bail ''tx channel seq number mismatched'')"
proof -
  have "mem_num_leaves A (ta_accumulator ta) = of_nat (length txs)"
    using assms(1,2) by (auto simp: accumulator_ok_def represents_def)
  with assms(3,4) show ?thesis by (simp add: tx_apply_def ensure_def)
qed

lemma save_tx_refused:
  assumes "save_tx A pseq True tx v (Some l) c s = Inr s'"
  shows "save_tx A pseq False tx v (Some l) c s = Inl (Bail ''RocksDB internal error'')"
  using assms by (auto simp: save_tx_def write_schemas_def Let_def try_bind_Inr_iff)

lemma tx_apply_refused:
  assumes "accumulator_ok A root acc_rep mem_rep" "represents A pseq root acc_rep mem_rep txs ta s"
    and "length txs < 2 ^ 64 - 1" "length (tc_write_set tx) < 2 ^ 64"
    and "applied_seq pseq (tc_txn tx) = Inr (of_nat (length txs))"
  shows "\<exists>e. tx_apply A pseq False now tx (ta, s) = Inl (Bail e)"
proof -
  obtain r where "tx_apply A pseq True now tx (ta, s) = Inr r" using tx_apply_step [OF assms] by blast
  then show ?thesis by (auto simp: tx_apply_def Let_def try_bind_Inr_iff dest!: save_tx_refused)
qed

section \<open>Reading back\<close>

lemma dropWhile_none: "\<forall>x \<in> set xs. \<not> P x \<Longrightarrow> dropWhile P xs = xs"
  by (cases xs) simp_all

lemma items_split:
  assumes "i < length txs"
  shows "\<exists>pre post. items_table txs = pre @ items_at i (txs ! i) @ post \<and>
    (\<forall>k \<in> fst ` set pre. \<exists>i' j. i' < i \<and> k = (of_nat i', j)) \<and>
    (\<forall>k \<in> fst ` set post. \<exists>i' j. i < i' \<and> i' < length txs \<and> k = (of_nat i', j))"
proof -
  let ?f = "\<lambda>(i, tx). items_at i tx"
  have split: "enumerate 0 txs = enumerate 0 (take i txs) @ (i, txs ! i) # enumerate (Suc i) (drop (Suc i) txs)"
    using assms id_take_nth_drop [OF assms] enumerate_append_eq [of 0 "take i txs" "txs ! i # drop (Suc i) txs"]
    by (simp add: enumerate_simps)
  have "items_table txs = concat (map ?f (enumerate 0 (take i txs))) @ items_at i (txs ! i) @
      concat (map ?f (enumerate (Suc i) (drop (Suc i) txs)))"
    unfolding items_table_def split by simp
  moreover have "\<exists>i' j. i' < i \<and> k = (of_nat i', j)" if "k \<in> fst ` set (concat (map ?f (enumerate 0 (take i txs))))" for k
    using that assms by (fastforce simp: in_set_enumerate_eq items_at_def)
  moreover have "\<exists>i' j. i < i' \<and> i' < length txs \<and> k = (of_nat i', j)"
    if "k \<in> fst ` set (concat (map ?f (enumerate (Suc i) (drop (Suc i) txs))))" for k
  proof -
    from that obtain i' tx where "(i', tx) \<in> set (enumerate (Suc i) (drop (Suc i) txs))" "k \<in> fst ` set (items_at i' tx)" by auto
    then show ?thesis using assms by (intro exI [of _ i'] exI [of _ "snd k"]) (auto simp: in_set_enumerate_eq items_at_def)
  qed
  ultimately show ?thesis by blast
qed

lemma read_write_set:
  assumes A: "accumulator_ok A root acc_rep mem_rep" and d: "db_write_sets d = items_table txs"
    and n: "length txs < 2 ^ 64" "i < length txs"
  shows "get_write_set_by_version A d (of_nat i) = Inr (tc_write_set (txs ! i))"
proof -
  obtain pre post where t: "items_table txs = pre @ items_at i (txs ! i) @ post"
    "\<forall>k \<in> fst ` set pre. \<exists>i' j. i' < i \<and> k = (of_nat i', j)"
    "\<forall>k \<in> fst ` set post. \<exists>i' j. i < i' \<and> i' < length txs \<and> k = (of_nat i', j)"
    using items_split [OF n(2)] by blast
  have pre: "\<forall>x \<in> set pre. (\<lambda>(k, _). k < (of_nat i, 0)) x"
  proof
    fix x assume "x \<in> set pre"
    then obtain i' j where "i' < i" "fst x = (of_nat i', j)" using t(2) by blast
    with n show "(\<lambda>(k, _). k < (of_nat i, 0)) x" by (cases x) (simp add: of_nat_less_u64)
  qed
  have at: "\<forall>x \<in> set (items_at i (txs ! i)). \<not> (\<lambda>(k, _). k < (of_nat i, 0)) x \<and> (\<lambda>((v, _), _). v = of_nat i) x"
    by (auto simp: items_at_def)
  have post: "\<forall>x \<in> set post. \<not> (\<lambda>(k, _). k < (of_nat i, 0)) x \<and> \<not> (\<lambda>((v, _), _). v = of_nat i) x"
  proof
    fix x assume "x \<in> set post"
    then obtain i' j where "i < i'" "i' < length txs" "fst x = (of_nat i', j)" using t(3) by blast
    moreover from this have "(of_nat i :: u64) < of_nat i'" using n(1) by (intro of_nat_less_u64) simp_all
    ultimately show "\<not> (\<lambda>(k, _). k < (of_nat i, 0)) x \<and> \<not> (\<lambda>((v, _), _). v = of_nat i) x"
      by (cases x) auto
  qed
  have "dropWhile (\<lambda>(k, _). k < (of_nat i, 0)) (items_table txs) = items_at i (txs ! i) @ post"
    unfolding t(1) using pre dropWhile_none [of "items_at i (txs ! i) @ post" "\<lambda>(k, _). k < (of_nat i, 0)"] at post
    by (simp only: dropWhile_append2 set_append Un_iff) blast
  moreover have "takeWhile (\<lambda>((v, _), _). v = of_nat i) (items_at i (txs ! i) @ post) = items_at i (txs ! i)"
    using at post by (cases post) (auto simp: takeWhile_append2 takeWhile_append)
  moreover have "map snd (items_at i (txs ! i)) = tc_write_set (txs ! i)" by (simp add: items_at_def comp_def case_prod_beta)
  ultimately show ?thesis using A d by (simp add: get_write_set_by_version_def accumulator_ok_def)
qed

lemma latest_version:
  assumes "represents A pseq root acc_rep mem_rep txs ta s" "txs \<noteq> []"
  obtains l where "s_latest_ledger_info s = Some l" "li_version l = of_nat (length txs - 1)" "li_epoch l = epoch_of txs"
    "li_version l + 1 = of_nat (length txs)"
proof -
  obtain l where "s_latest_ledger_info s = Some l" "li_version l = of_nat (length txs - 1)" "li_epoch l = epoch_of txs"
    using assms by (auto simp: represents_def latest_ok_def split: option.splits)
  moreover have "(of_nat (length txs - 1) :: u64) + 1 = of_nat (length txs)"
    using assms(2) by (cases txs) simp_all
  ultimately show thesis using that by simp
qed

lemma read_txn:
  assumes A: "accumulator_ok A root acc_rep mem_rep" and R: "represents A pseq root acc_rep mem_rep txs ta s"
    and i: "i < length txs"
  shows "\<exists>p. get_transaction_by_channel_seq_number A s (of_nat i) =
    Inr \<lparr>tp_version = of_nat i, tp_signed_transaction = tc_txn (txs ! i), tp_info = info_of A root (txs ! i), tp_proof = p\<rparr>"
proof -
  have n: "length txs < 2 ^ 64" and acc: "acc_rep (map_of (db_accumulator (s_db s))) (map (leaf A root) txs)"
    and t: "db_txns (s_db s) = table tc_txn txs" "db_infos (s_db s) = table (info_of A root) txs"
    using R by (simp_all add: represents_def)
  obtain l where l: "s_latest_ledger_info s = Some l" "li_version l + 1 = of_nat (length txs)"
    using latest_version [OF R] i by (metis list.size(3) less_nat_zero_code)
  obtain p where "acc_proof A (map_of (db_accumulator (s_db s))) (of_nat (length txs)) (of_nat i) = Inr p"
    using accumulator_proof [OF A acc, of i] i by auto
  with l t map_of_table [OF n i, of tc_txn] map_of_table [OF n i, of "info_of A root"] show ?thesis
    by (simp add: get_transaction_by_channel_seq_number_def get_transaction_info_with_proof_def get_transaction_def ok_or_def)
qed

lemma read_txn_missing:
  assumes R: "represents A pseq root acc_rep mem_rep txs ta s" and i: "length txs \<le> i" "i < 2 ^ 64"
  shows "\<exists>e. get_transaction_by_channel_seq_number A s (of_nat i) = Inl (Bail e)"
proof -
  have "map_of (db_infos (s_db s)) (of_nat i) = None"
    using R i by (simp add: represents_def map_of_table_None)
  then show ?thesis
    by (cases "s_latest_ledger_info s")
       (simp_all add: get_transaction_by_channel_seq_number_def get_transaction_info_with_proof_def ok_or_def)
qed

section \<open>Starting again\<close>

lemma load_witness_ok:
  assumes A: "accumulator_ok A root acc_rep mem_rep" and R: "represents A pseq root acc_rep mem_rep txs ta s"
  shows "load_witness A pseq (s_db s) (s_latest_ledger_info s) = Inr (s_latest_witness s)"
proof (cases "txs = []")
  case True
  with R show ?thesis by (auto simp: represents_def latest_ok_def witness_ok_def load_witness_def split: option.splits)
next
  case False
  then have i: "length txs - 1 < length txs" by (cases txs) simp_all
  have n: "length txs < 2 ^ 64" and t: "db_txns (s_db s) = table tc_txn txs" "db_write_sets (s_db s) = items_table txs"
    and w: "witness_ok pseq txs (s_latest_witness s)"
    using R by (simp_all add: represents_def)
  obtain l where l: "s_latest_ledger_info s = Some l" "li_version l = of_nat (length txs - 1)"
    using latest_version [OF R False] by metis
  show ?thesis
    using l w False map_of_table [OF n i, of tc_txn] read_write_set [OF A t(2) n i]
    by (auto simp: load_witness_def witness_ok_def get_transaction_def t(1) last_conv_nth ok_or_def)
qed

lemma store_reopens:
  assumes "accumulator_ok A root acc_rep mem_rep" "represents A pseq root acc_rep mem_rep txs ta s"
    and "s_participant_keys s \<noteq> []"
  shows "channel_store_new A pseq ok ps (s_db s) = Inr (s\<lparr>s_pending_txn := db_pending (s_db s)\<rparr>)"
  using load_witness_ok [OF assms(1,2)] assms(2,3)
  by (simp add: channel_store_new_def represents_def panicking_def)

lemma applier_reopens:
  assumes A: "accumulator_ok A root acc_rep mem_rep" and R: "represents A pseq root acc_rep mem_rep txs ta s"
  shows "\<exists>ta'. tx_applier_new A s = Inr ta' \<and> represents A pseq root acc_rep mem_rep txs ta' s"
proof (cases "txs = []")
  case True
  then have "s_latest_ledger_info s = None" using R by (auto simp: represents_def latest_ok_def split: option.splits)
  moreover obtain m where "mem_new A [] 0 = Inr m" "mem_rep m []" using A by (auto simp: accumulator_ok_def)
  ultimately have "tx_applier_new A s = Inr \<lparr>ta_epoch = 0, ta_accumulator = m\<rparr>" "mem_rep m []"
    by (simp_all add: tx_applier_new_def get_startup_info_def panicking_def)
  then show ?thesis using R True unfolding represents_def by (auto simp: epoch_of_def)
next
  case False
  obtain l where l: "s_latest_ledger_info s = Some l" "li_version l = of_nat (length txs - 1)" "li_epoch l = epoch_of txs"
    "li_version l + 1 = of_nat (length txs)" by (rule latest_version [OF R False])
  have acc: "acc_rep (map_of (db_accumulator (s_db s))) (map (leaf A root) txs)"
    and t: "db_infos (s_db s) = table (info_of A root) txs" using R by (simp_all add: represents_def)
  obtain fs m where m: "acc_frozen A (map_of (db_accumulator (s_db s))) (of_nat (length txs)) = Inr fs"
    "mem_new A fs (of_nat (length txs)) = Inr m" "mem_rep m (map (leaf A root) txs)"
    using accumulator_frozen [OF A acc] False by auto
  have "tx_applier_new A s = Inr \<lparr>ta_epoch = epoch_of txs, ta_accumulator = m\<rparr>"
    using l m last_table [OF False, of "info_of A root"] t
    by (simp add: tx_applier_new_def get_startup_info_def get_latest_transaction_info_def panicking_def ok_or_def)
  then show ?thesis using R m(3) unfolding represents_def by auto
qed

lemma fold_PutKey_None:
  "fold db_write1 (map (\<lambda>a. PutKey a None) ps) d = d\<lparr>db_keys := fold (\<lambda>a. bt_insert a None) ps (db_keys d)\<rparr>"
  by (induction ps arbitrary: d) simp_all

lemma bt_wf_fold: "bt_wf t \<Longrightarrow> bt_wf (fold (\<lambda>a. bt_insert a v) ps t)"
  by (induction ps arbitrary: t) (simp_all add: bt_wf_insert)

lemma store_fresh:
  assumes A: "accumulator_ok A root acc_rep mem_rep"
  shows "\<exists>s ta. channel_store_new A pseq True ps channel_db_empty = Inr s \<and> tx_applier_new A s = Inr ta \<and>
    represents A pseq root acc_rep mem_rep [] ta s"
proof -
  obtain m where m: "mem_new A [] 0 = Inr m" "mem_rep m []" using A by (auto simp: accumulator_ok_def)
  define ks where "ks = fold (\<lambda>a. bt_insert a None) ps ([] :: (account_address \<times> public_key option) list)"
  define s where "s = \<lparr>s_db = channel_db_empty\<lparr>db_keys := ks\<rparr>, s_latest_ledger_info = None, s_latest_witness = None,
    s_pending_txn = None, s_participant_keys = ks\<rparr>"
  have "channel_store_new A pseq True ps channel_db_empty = Inr s"
    by (simp add: channel_store_new_def s_def ks_def channel_db_empty_def last_entry_def load_witness_def panicking_def
        write_schemas_def fold_PutKey_None)
  moreover have "tx_applier_new A s = Inr \<lparr>ta_epoch = 0, ta_accumulator = m\<rparr>"
    using m(1) by (simp add: tx_applier_new_def get_startup_info_def s_def panicking_def)
  moreover have "bt_wf ks" unfolding ks_def by (rule bt_wf_fold) (simp add: bt_wf_def)
  moreover have "acc_rep (\<lambda>_. None) []" using A by (simp add: accumulator_ok_def)
  ultimately show ?thesis using m(2)
    by (simp add: s_def represents_def channel_db_empty_def table_def items_table_def epoch_of_def latest_ok_def
        witness_ok_def last_entry_def bt_wf_def)
qed

section \<open>An accumulator that meets the hypotheses\<close>

definition leaves :: "(u64 \<Rightarrow> hash_value option) \<Rightarrow> u64 \<Rightarrow> hash_value list" where
  "leaves t n = map (\<lambda>i. case t (of_nat i) of Some h \<Rightarrow> h | None \<Rightarrow> []) [0..<unat n]"

definition flat_ledger :: "hash_value list ledger_lib" where
  "flat_ledger =
     \<lparr>acc_append = \<lambda>t n hs. Inr (concat (leaves t n @ hs), zip (map of_nat [unat n..<unat n + length hs]) hs),
      acc_proof = \<lambda>t n i. Inr (leaves t n), acc_frozen = \<lambda>t n. Inr (leaves t n),
      mem_new = \<lambda>hs n. Inr hs, mem_default = [], mem_append = (@), mem_root_hash = concat,
      mem_num_leaves = (\<lambda>hs. of_nat (length hs)),
      hash_applied_txn = \<lambda>t. [0], hash_txn_info = \<lambda>i. ti_write_set_root_hash i,
      hash_write_set_item = \<lambda>(ap, _). ap_path ap, hash_default = [], freeze_write_set = Inr\<rparr>"

definition flat_rep :: "(u64 \<Rightarrow> hash_value option) \<Rightarrow> hash_value list \<Rightarrow> bool" where
  "flat_rep t hs \<longleftrightarrow> length hs < 2 ^ 64 \<and> (\<forall>i < length hs. t (of_nat i) = Some (hs ! i))"

lemma unat_len: "n < 2 ^ 64 \<Longrightarrow> unat (of_nat n :: u64) = n"
  by (simp add: unat_of_nat take_bit_nat_eq_self)

lemma leaves_rep: "flat_rep t hs \<Longrightarrow> leaves t (of_nat (length hs)) = hs"
  by (rule nth_equalityI) (simp_all add: leaves_def flat_rep_def unat_len)

lemma flat_rep_snoc:
  assumes "flat_rep t hs" "length hs < 2 ^ 64 - 1"
  shows "flat_rep (t(of_nat (length hs) \<mapsto> h)) (hs @ [h])"
  using assms by (auto simp: flat_rep_def nth_append of_nat_eq_u64 less_Suc_eq)

lemma flat_ledger_ok: "accumulator_ok flat_ledger concat flat_rep (=)"
  unfolding accumulator_ok_def
proof (intro conjI allI impI)
  fix t hs and h :: hash_value
  assume a: "flat_rep t hs \<and> length hs < 2 ^ 64 - 1"
  then have "length hs < 2 ^ 64" by simp
  then show "\<exists>ws. acc_append flat_ledger t (of_nat (length hs)) [h] = Inr (concat (hs @ [h]), ws) \<and>
      flat_rep (fold (\<lambda>(p, x) t. t(p \<mapsto> x)) ws t) (hs @ [h])"
    using a by (auto simp: flat_ledger_def leaves_rep unat_len flat_rep_snoc)
qed (auto simp: flat_ledger_def leaves_rep, auto simp: flat_rep_def leaves_def)

definition sample_tx :: "u64 \<Rightarrow> transaction_to_commit" where
  "sample_tx n =
     \<lparr>tc_txn = Offchain \<lparr>raw_tx = \<lparr>ct_version = 0, ct_channel_address = [9], ct_channel_sequence_number = n,
         ct_operator = OpOpen, ct_args = [], ct_proposer = [1], ct_sequence_number = 0,
         ct_expiration_time = duration_from_secs 60\<rparr>, sct_signatures = []\<rparr>,
      tc_write_set = [(\<lparr>ap_address = [9], ap_path = [4]\<rparr>, WriteValue [5])], tc_events = [],
      tc_major_status = 4001, tc_gas_used = 0\<rparr>"

section \<open>Properties\<close>

text \<open>C6. Applying a transaction to the local ledger appends it to the list the ledger stands for,
  exactly when its sequence number is the length of the list: then the tables, the caches and the
  in-memory accumulator all represent the longer list and no transaction is pending, in the cache
  or on disk. Any other sequence number is refused, and so is a batch the database does not take.\<close>

theorem ledger_appends:
  assumes "accumulator_ok A root acc_rep mem_rep" "represents A pseq root acc_rep mem_rep txs ta s"
    and "length txs < 2 ^ 64 - 1" "length (tc_write_set tx) < 2 ^ 64"
    and "applied_seq pseq (tc_txn tx) = Inr n"
  shows "if n = of_nat (length txs)
    then (\<exists>ta' s'. tx_apply A pseq True now tx (ta, s) = Inr (ta', s') \<and>
             represents A pseq root acc_rep mem_rep (txs @ [tx]) ta' s' \<and>
             s_pending_txn s' = None \<and> db_pending (s_db s') = None) \<and>
         (\<exists>e. tx_apply A pseq False now tx (ta, s) = Inl (Bail e))
    else tx_apply A pseq ok now tx (ta, s) = Inl (Bail ''tx channel seq number mismatched'')"
proof (cases "n = of_nat (length txs)")
  case True
  with assms(5) have seq: "applied_seq pseq (tc_txn tx) = Inr (of_nat (length txs))" by simp
  show ?thesis using tx_apply_step [OF assms(1-4) seq] tx_apply_refused [OF assms(1-4) seq] True by simp
next
  case False
  then show ?thesis using tx_apply_mismatch [OF assms(1,2,5)] by simp
qed

theorem ledger_appends_witness:
  "\<exists>ta s ta' s'. represents flat_ledger (\<lambda>_. 0) concat flat_rep (=) [] ta s \<and>
     tx_apply flat_ledger (\<lambda>_. 0) True 7 (sample_tx 0) (ta, s) = Inr (ta', s') \<and>
     represents flat_ledger (\<lambda>_. 0) concat flat_rep (=) [sample_tx 0] ta' s'"
proof -
  obtain s ta where r: "represents flat_ledger (\<lambda>_. 0) concat flat_rep (=) [] ta s"
    using store_fresh [OF flat_ledger_ok] by blast
  show ?thesis
    using r ledger_appends [OF flat_ledger_ok r, of "sample_tx 0" 0 7] by (fastforce simp: sample_tx_def)
qed

text \<open>C11. A restart loses nothing: opening the store on the database of a ledger in use gives the
  same latest ledger info, witness and participant keys, with the pending transaction as it was
  last persisted, and the applier rebuilt from the frozen subtrees stands for the same list.\<close>

theorem ledger_restart:
  assumes "accumulator_ok A root acc_rep mem_rep" "represents A pseq root acc_rep mem_rep txs ta s"
    and "s_participant_keys s \<noteq> []"
  shows "\<exists>s' ta'. channel_store_new A pseq ok participants (s_db s) = Inr s' \<and>
    s' = s\<lparr>s_pending_txn := db_pending (s_db s)\<rparr> \<and> tx_applier_new A s' = Inr ta' \<and>
    represents A pseq root acc_rep mem_rep txs ta' s'"
  using store_reopens [OF assms]
    applier_reopens [OF assms(1) represents_pending [OF assms(2), of "db_pending (s_db s)" "db_pending (s_db s)"]]
  by simp

theorem ledger_restart_witness:
  "\<exists>s ta. channel_store_new flat_ledger (\<lambda>_. 0) True [[1], [2]] channel_db_empty = Inr s \<and>
     channel_store_new flat_ledger (\<lambda>_. 0) True [] (s_db s) = Inr (s\<lparr>s_pending_txn := db_pending (s_db s)\<rparr>)"
proof -
  obtain s ta where r: "channel_store_new flat_ledger (\<lambda>_. 0) True [[1], [2]] channel_db_empty = Inr s"
    "represents flat_ledger (\<lambda>_. 0) concat flat_rep (=) [] ta s"
    using store_fresh [OF flat_ledger_ok] by blast
  have "s_participant_keys s = [([1], None), ([2], None)]"
    using r(1) by (auto simp: channel_store_new_def channel_db_empty_def last_entry_def load_witness_def panicking_def
        write_schemas_def)
  with r ledger_restart [OF flat_ledger_ok r(2), where ok = True and participants = "[]"] show ?thesis by auto
qed

text \<open>C25. Reading the ledger returns what was applied: for every version below the length the stored
  transaction, its info and its write set, and for every version from the length on an error.\<close>

theorem ledger_reads:
  assumes "accumulator_ok A root acc_rep mem_rep" "represents A pseq root acc_rep mem_rep txs ta s" "i < 2 ^ 64"
  shows "if i < length txs
    then (\<exists>p. get_transaction_by_channel_seq_number A s (of_nat i) =
             Inr \<lparr>tp_version = of_nat i, tp_signed_transaction = tc_txn (txs ! i),
                  tp_info = info_of A root (txs ! i), tp_proof = p\<rparr>) \<and>
         get_write_set_by_version A (s_db s) (of_nat i) = Inr (tc_write_set (txs ! i))
    else (\<exists>e. get_transaction_by_channel_seq_number A s (of_nat i) = Inl (Bail e))"
proof -
  have "db_write_sets (s_db s) = items_table txs" "length txs < 2 ^ 64" using assms(2) by (simp_all add: represents_def)
  then show ?thesis
    using read_txn [OF assms(1,2), of i] read_write_set [OF assms(1), of "s_db s" txs i]
      read_txn_missing [OF assms(2) _ assms(3)] by simp
qed

theorem ledger_reads_witness:
  "\<exists>s ta. represents flat_ledger (\<lambda>_. 0) concat flat_rep (=) [sample_tx 0] ta s \<and>
     get_write_set_by_version flat_ledger (s_db s) 0 = Inr (tc_write_set (sample_tx 0)) \<and>
     (\<exists>e. get_transaction_by_channel_seq_number flat_ledger s 1 = Inl (Bail e))"
proof -
  obtain s0 ta0 where r0: "represents flat_ledger (\<lambda>_. 0) concat flat_rep (=) [] ta0 s0"
    using store_fresh [OF flat_ledger_ok] by blast
  obtain s ta where r: "represents flat_ledger (\<lambda>_. 0) concat flat_rep (=) [sample_tx 0] ta s"
    using tx_apply_step [OF flat_ledger_ok r0, of "sample_tx 0"] by (fastforce simp: sample_tx_def)
  show ?thesis
    using r ledger_reads [OF flat_ledger_ok r, of 0] ledger_reads [OF flat_ledger_ok r, of 1] by auto
qed

end
