(* ===== verification/Stm_Correct.thy ===== *)
theory Stm_Correct
  imports Channel_Stm
begin

text \<open>
  Properties of the channel state machine: the cache of a view is invisible, the gas limit of a
  submitted transaction covers what the execution used, and a pending transaction carries only
  verified signatures, reaching agreement exactly when every participant has signed.
\<close>

section \<open>Views of the chain\<close>

lemma client_view_get_again:
  assumes "client_view_get chain ap v = Inr (d, v')"
  shows "try_bind (client_view_get chain ap' v') (\<lambda>(d, _). Inr d) = try_bind (client_view_get chain ap' v) (\<lambda>(d, _). Inr d)"
proof -
  obtain f where f: "chain (ap_address ap) (cv_version v) = Inr f"
    and v': "v' = (case map_of (cv_cache v) (ap_address ap) of Some _ \<Rightarrow> v
       | None \<Rightarrow> v\<lparr>cv_cache := AList.update (ap_address ap) f (cv_cache v)\<rparr>)"
    using assms by (auto simp: client_view_get_def try_bind_Inr_iff Let_def)
  show ?thesis
  proof (cases "map_of (cv_cache v) (ap_address ap)")
    case None
    then show ?thesis using f v'
      by (cases "ap_address ap' = ap_address ap"; cases "chain (ap_address ap') (cv_version v)")
         (auto simp: client_view_get_def Let_def map_of_update split: option.splits)
  qed (simp add: v')
qed

lemma csv_get_again:
  assumes "csv_get L chain ap v = Inr (d, v')"
  shows "view_of L chain v' ap' = view_of L chain v ap'"
proof (cases "is_channel_resource L ap")
  case False
  with assms obtain c where c: "client_view_get chain ap (csv_client v) = Inr (d, c)" "v' = v\<lparr>csv_client := c\<rparr>"
    by (auto simp: csv_get_def try_bind_Inr_iff)
  have push: "try_bind (try_bind r (\<lambda>(d, c). Inr (d, g c))) (\<lambda>(d, _). Inr d) = try_bind r (\<lambda>(d, _). Inr d)"
    for r :: "chan_error + (bytes option \<times> client_state_view)" and g :: "client_state_view \<Rightarrow> channel_state_view"
    by (cases r) auto
  show ?thesis using client_view_get_again [OF c(1), of ap'] c(2)
    by (cases "access_local (csv_latest_write_set v) (csv_channel_state v) ap'") (simp_all add: view_of_def csv_get_def push)
qed (use assms in \<open>auto simp: csv_get_def try_bind_Inr_iff\<close>)

text \<open>Reading a list of paths one after the other, each read starting from the cache the last one left.\<close>

fun csv_reads :: "libra \<Rightarrow> chain \<Rightarrow> access_path list \<Rightarrow> channel_state_view \<Rightarrow> (chan_error + bytes option) list" where
  "csv_reads L chain [] v = []"
| "csv_reads L chain (ap # aps) v =
     (case csv_get L chain ap v of
        Inl e \<Rightarrow> Inl e # csv_reads L chain aps v
      | Inr (d, v) \<Rightarrow> Inr d # csv_reads L chain aps v)"

text \<open>C36. The cache of a channel's view of the chain is invisible: however many paths are read and in
  whatever order, every read answers what it would answer on the view as it was opened.\<close>

theorem view_cache_invisible: "csv_reads L chain aps v = map (view_of L chain v) aps"
proof (induction aps arbitrary: v)
  case (Cons ap aps)
  show ?case
  proof (cases "csv_get L chain ap v")
    case (Inr r)
    obtain d v' where r: "r = (d, v')" by (cases r)
    show ?thesis using Cons [of v'] Inr csv_get_again [of L chain ap v d v'] by (simp add: r view_of_def)
  qed (simp add: Cons view_of_def)
qed simp

section \<open>Gas\<close>

lemma round_f64_bounds: "n - n div 2 ^ 52 \<le> round_f64 n \<and> round_f64 n \<le> n + n div 2 ^ 52"
proof (cases "n < 2 ^ 53")
  case False
  define u where "u = (2 :: nat) ^ (floorlog 2 n - 53)"
  define q where "q = n div u"
  have fl: "54 \<le> floorlog 2 n" using False by (intro floorlog_geI) simp_all
  have "2 ^ (floorlog 2 n - 1) \<le> n" using False floorlog_bounds [of n 2] by simp
  moreover have "floorlog 2 n - 1 = (floorlog 2 n - 53) + 52" using fl by simp
  ultimately have "u * 2 ^ 52 \<le> n" by (simp only: u_def power_add)
  then have u: "u \<le> n div 2 ^ 52" by (simp add: less_eq_div_iff_mult_less_eq)
  have n: "n = q * u + n mod u" "n mod u < u" unfolding q_def by (simp_all add: u_def div_mult_mod_eq)
  have "round_f64 n = q * u \<or> round_f64 n = q * u + u"
    using False by (simp add: round_f64_def Let_def u_def q_def)
  then show ?thesis using u n by (auto simp: le_diff_conv)
qed (simp add: round_f64_def)

abbreviation "onepointone \<equiv> 4953959590107546 :: nat"

lemma product_bounds:
  "x * 4953959590107544 \<le> round_f64 (x * onepointone) \<and> round_f64 (x * onepointone) \<le> x * 4953959590107548"
proof -
  have "(x * onepointone) div 2 ^ 52 \<le> (x * 2 * 2 ^ 52) div 2 ^ 52" by (rule div_le_mono) simp
  then have "(x * onepointone) div 2 ^ 52 \<le> x * 2" by simp
  then show ?thesis using round_f64_bounds [of "x * onepointone"] by linarith
qed

definition margin :: "nat \<Rightarrow> nat" where
  "margin x = round_f64 (x * onepointone) div 2 ^ 52"

lemma margin_ge: "x \<le> margin x"
proof -
  have "x * 2 ^ 52 \<le> round_f64 (x * onepointone)" using product_bounds [of x] by simp
  then show ?thesis by (simp add: margin_def less_eq_div_iff_mult_less_eq)
qed

lemma margin_tight:
  assumes "x \<le> 1000000"
  shows "margin x \<le> x + x div 10" "x + x div 10 \<le> margin x + 1"
proof -
  define r where "r = round_f64 (x * onepointone)"
  have r: "x * 4953959590107544 \<le> r" "r \<le> x * 4953959590107548" using product_bounds [of x] by (simp_all add: r_def)
  have m: "margin x * 2 ^ 52 \<le> r" "r < (margin x + 1) * 2 ^ 52"
    using div_mult_mod_eq [of r "2 ^ 52"] mod_less_divisor [of "2 ^ 52" r] by (simp_all add: margin_def r_def [symmetric])
  have "10 * margin x * 2 ^ 52 \<le> 11 * x * 2 ^ 52 + 24 * x" using m(1) r(2) by simp
  moreover have "24 * x < 2 ^ 52" using assms by simp
  ultimately have "10 * margin x * 2 ^ 52 < (11 * x + 1) * 2 ^ 52" by simp
  then have "10 * margin x < 11 * x + 1" by simp
  then show "margin x \<le> x + x div 10" by linarith
  have "11 * x * 2 ^ 52 < 10 * (margin x + 1) * 2 ^ 52 + 2 ^ 52" using m(2) r(1) assms by simp
  then have "11 * x \<le> 10 * (margin x + 1)" by simp
  moreover have "10 * (x div 10) \<le> x" by simp
  ultimately have "10 * (x + x div 10) \<le> 10 * (margin x + 1)" unfolding distrib_left by simp
  then show "x + x div 10 \<le> margin x + 1" by simp
qed

lemma gas_with_margin_small:
  assumes "unat g \<le> 1000000"
  shows "unat (gas_with_margin g) = margin (unat g)"
proof -
  have "margin (unat g) < 2 ^ 64" using margin_tight(1) [OF assms] assms by simp
  with assms show ?thesis by (simp add: gas_with_margin_def margin_def round_f64_def unat_of_nat take_bit_nat_eq_self)
qed

lemma gas_with_margin_large:
  assumes "1000000 \<le> unat g"
  shows "1000000 \<le> unat (gas_with_margin g)"
proof -
  have "unat g div 2 ^ 52 * 2 ^ 52 \<le> unat g" by simp
  then have "1000000 \<le> unat g - unat g div 2 ^ 52" using assms by (cases "unat g < 2 ^ 52") simp_all
  then have "1000000 \<le> margin (round_f64 (unat g))"
    using round_f64_bounds [of "unat g"] margin_ge [of "round_f64 (unat g)"] by linarith
  then show ?thesis by (simp add: gas_with_margin_def margin_def unat_of_nat take_bit_nat_eq_self)
qed

section \<open>Signatures and agreement\<close>

definition signed_by_all :: "channel_stm \<Rightarrow> pending_transaction \<Rightarrow> bool" where
  "signed_by_all m p \<longleftrightarrow> length (pt_signatures p) = length (participant_addresses m) \<and>
     (\<forall>a \<in> set (participant_addresses m). bt_contains (pt_signatures p) a)"

definition sigs_verified :: "libra \<Rightarrow> channel_stm \<Rightarrow> pending_transaction \<Rightarrow> bool" where
  "sigs_verified L m p \<longleftrightarrow>
     (\<forall>(a, s) \<in> set (pt_signatures p). sig_address s = a \<and> verify_txn_sigs L m p s = Inr ())"

definition pending_ok :: "libra \<Rightarrow> channel_stm \<Rightarrow> pending_transaction \<Rightarrow> bool" where
  "pending_ok L m p \<longleftrightarrow> bt_wf (pt_signatures p) \<and> sigs_verified L m p \<and>
     (pt_lifecycle p = Agreed \<or> pt_lifecycle p = Applying \<longrightarrow> signed_by_all m p) \<and>
     (pt_lifecycle p = Created \<longrightarrow> pt_signatures p = [])"

lemma verify_txn_sigs_update [simp]:
  "verify_txn_sigs L m (p\<lparr>pt_lifecycle := l\<rparr>) s = verify_txn_sigs L m p s"
  "verify_txn_sigs L m (p\<lparr>pt_signatures := ss\<rparr>) s = verify_txn_sigs L m p s"
  by (simp_all add: verify_txn_sigs_def)

lemma signed_by_all_update [simp]: "signed_by_all m (p\<lparr>pt_lifecycle := l\<rparr>) = signed_by_all m p"
  by (simp add: signed_by_all_def)

lemma sigs_verified_update [simp]: "sigs_verified L m (p\<lparr>pt_lifecycle := l\<rparr>) = sigs_verified L m p"
  by (simp add: sigs_verified_def)

lemma try_reach_consensus_eq:
  "snd (try_reach_consensus ps p) =
     (if pt_lifecycle p = Negotiating \<and> length (pt_signatures p) = length ps \<and> list_all (bt_contains (pt_signatures p)) ps
      then p\<lparr>pt_lifecycle := Agreed\<rparr> else p)"
  by (simp add: try_reach_consensus_def Let_def)

lemma handle_new_proposal_ok:
  assumes "handle_new_proposal L chain m pending proposal = Inr q" "\<forall>p. pending = Some p \<longrightarrow> pending_ok L m p"
  shows "\<exists>p. q = Some p \<and> pending_ok L m p \<and> (pending = Some p \<or> pending = None \<and> pt_lifecycle p = Created \<and> pt_proposal p = proposal)"
  using assms
  by (auto simp: handle_new_proposal_def try_bind_Inr_iff pending_ok_def sigs_verified_def pending_new_def bt_wf_def
      split: if_splits option.splits)

lemma sigs_verified_add:
  assumes "sigs_verified L m p" "verify_txn_sigs L m p s = Inr ()"
  shows "sigs_verified L m (add_signature s p)"
  using assms by (auto simp: sigs_verified_def add_signature_def dest!: subsetD [OF set_bt_insert])

lemma add_signature_simps [simp]:
  "pt_proposal (add_signature s p) = pt_proposal p" "pt_output (add_signature s p) = pt_output p"
  "pt_lifecycle (add_signature s p) = pt_lifecycle p"
  by (simp_all add: add_signature_def)

lemma handle_proposal_signature_ok:
  assumes "handle_proposal_signature L m p i s = Inr q" "pending_ok L m p"
  shows "pending_ok L m q \<and> pt_lifecycle p \<le> pt_lifecycle q \<and> pt_proposal q = pt_proposal p \<and> pt_output q = pt_output p \<and>
    pt_lifecycle q \<noteq> Created"
proof (cases "get_signature (sig_address s) p = None")
  case True
  have ok: "bt_wf (pt_signatures (add_signature s p))" "verify_txn_sigs L m p s = Inr () \<Longrightarrow> sigs_verified L m (add_signature s p)"
    using assms(2) sigs_verified_add [of L m p s] by (simp_all add: pending_ok_def add_signature_def bt_wf_insert)
  from True assms show ?thesis
    by (auto simp: handle_proposal_signature_def try_bind_Inr_iff Let_def try_reach_consensus_eq pending_ok_def ok
        lifecycle_order signed_by_all_def list_all_iff split: proposal_lifecycle.splits if_splits)
next
  case False
  with assms show ?thesis
    by (auto simp: handle_proposal_signature_def try_bind_Inr_iff pending_ok_def lifecycle_order get_signature_def)
qed

lemma bt_contains_iff: "bt_contains t a \<longleftrightarrow> a \<in> fst ` set t"
  by (auto simp: bt_contains_def map_of_eq_None_iff split: option.splits)

lemma stray_not_all:
  assumes "bt_wf (pt_signatures p)" "a \<in> fst ` set (pt_signatures p)" "a \<notin> set (participant_addresses m)"
    and "distinct (participant_addresses m)"
  shows "\<not> signed_by_all m p"
proof
  let ?ks = "map fst (pt_signatures p)"
  assume "signed_by_all m p"
  then have s: "set (participant_addresses m) \<subseteq> set ?ks" "length ?ks = length (participant_addresses m)"
    by (auto simp: signed_by_all_def bt_contains_iff)
  have "card (set ?ks) = card (set (participant_addresses m))"
    using s(2) assms(4) bt_wf_distinct [OF assms(1)] by (simp add: distinct_card del: set_map)
  then have "set (participant_addresses m) = set ?ks" using s(1) by (intro card_subset_eq) simp_all
  with assms(2,3) show False by simp
qed

lemma handle_proposal_signature_sigs:
  assumes "handle_proposal_signature L m p i s = Inr q"
  shows "pt_signatures q = (if get_signature (sig_address s) p = None
    then bt_insert (sig_address s) s (pt_signatures p) else pt_signatures p)"
  using assms
  by (auto simp: handle_proposal_signature_def try_bind_Inr_iff Let_def try_reach_consensus_eq add_signature_def
      get_signature_def bt_contains_def split: if_splits proposal_lifecycle.splits)

lemma pending_keeps_keys:
  assumes "handle_proposal_signature L m p i s = Inr q"
  shows "fst ` set (pt_signatures q) = insert (sig_address s) (fst ` set (pt_signatures p))"
  unfolding handle_proposal_signature_sigs [OF assms]
  by (auto simp: keys_bt_insert get_signature_def dest: map_of_SomeD intro: rev_image_eqI simp flip: map_of_eq_None_iff)

text \<open>Signatures arriving one after the other for the pending transaction.\<close>

fun signatures_arrive ::
  "libra \<Rightarrow> channel_stm \<Rightarrow> channel_transaction_sigs list \<Rightarrow> pending_transaction \<Rightarrow> chan_error + pending_transaction" where
  "signatures_arrive L m [] p = Inr p"
| "signatures_arrive L m (s # ss) p =
     try_bind (handle_proposal_signature L m p (hash_channel_txn L (channel_txn (pt_proposal p))) s) (signatures_arrive L m ss)"

lemma stray_step:
  assumes "handle_proposal_signature L m p i s = Inr q" "pending_ok L m p" "pt_lifecycle p = Negotiating"
    and "a \<in> fst ` set (pt_signatures p)" "a \<notin> set (participant_addresses m)" "distinct (participant_addresses m)"
  shows "pending_ok L m q" "pt_lifecycle q = Negotiating" "a \<in> fst ` set (pt_signatures q)"
proof -
  show ok: "pending_ok L m q" and a: "a \<in> fst ` set (pt_signatures q)"
    using handle_proposal_signature_ok [OF assms(1,2)] pending_keeps_keys [OF assms(1)] assms(4) by simp_all
  have "\<not> signed_by_all m q" using stray_not_all [OF _ a assms(5,6)] ok by (simp add: pending_ok_def)
  moreover have "pt_lifecycle q = Negotiating \<or> pt_lifecycle q = Agreed"
    using assms(1,3) by (auto simp: handle_proposal_signature_def try_bind_Inr_iff Let_def try_reach_consensus_eq split: if_splits)
  ultimately show "pt_lifecycle q = Negotiating" using ok by (auto simp: pending_ok_def)
qed

lemma stray_run:
  assumes "signatures_arrive L m ss p = Inr q" "pending_ok L m p" "pt_lifecycle p = Negotiating"
    and "a \<in> fst ` set (pt_signatures p)" "a \<notin> set (participant_addresses m)" "distinct (participant_addresses m)"
  shows "pt_lifecycle q = Negotiating"
  using assms(1-4)
proof (induction ss arbitrary: p)
  case (Cons s ss)
  then obtain p' where p': "handle_proposal_signature L m p (hash_channel_txn L (channel_txn (pt_proposal p))) s = Inr p'"
    "signatures_arrive L m ss p' = Inr q" by (auto simp: try_bind_Inr_iff)
  show ?case by (rule Cons.IH [OF p'(2) stray_step [OF p'(1) Cons.prems(2-4) assms(5,6)]])
qed simp

section \<open>A small instance\<close>

text \<open>A libra whose signatures are the key followed by the hash, and whose only script writes the next
  sequence number; \<open>travel\<close> says whether its output has to go to the chain.\<close>

definition sample_libra :: "bool \<Rightarrow> libra" where
  "sample_libra travel =
     \<lparr>hash_channel_txn = \<lambda>t. [ucast (ct_channel_sequence_number t), ucast (d_secs (ct_expiration_time t))],
      hash_payload_body = \<lambda>b. [1], hash_witness_data = \<lambda>w. [2, ucast (wd_channel_sequence_number w)],
      hash_raw_txn = \<lambda>r. [3, ucast (rt_sequence_number r)],
      sign_message = (@), verify_signature = \<lambda>pk h s. s = pk @ h,
      sign_raw = \<lambda>sk pk r. Inr \<lparr>st_raw_txn = r, st_public_key = pk, st_signature = sk\<rparr>,
      mirror_resource_path = \<lambda>_. [7], channel_resource_path = [8], locked_by_path = [6], account_resource_path = [5],
      read_mirror = \<lambda>d. (case d of [n] \<Rightarrow> Some (ucast n) | _ \<Rightarrow> None),
      read_channel_resource = \<lambda>d. (case d of
         [n] \<Rightarrow> Some \<lparr>cr_channel_sequence_number = ucast n, cr_opened = True, cr_locked = False, cr_closed = False, cr_event_count = 0\<rparr>
       | _ \<Rightarrow> None),
      read_locked_by = \<lambda>d. None,
      read_account_sequence_number = \<lambda>d. (case d of [n] \<Rightarrow> Some (ucast n) | _ \<Rightarrow> None),
      data_path_participant = \<lambda>_. None, is_channel_resource = \<lambda>ap. ap_path ap = [7], identifier_ok = \<lambda>_. True,
      execute_block = \<lambda>view txn. Inr [(Keep 4001,
        \<lparr>out_write_set = [(\<lparr>ap_address = [9], ap_path = [7]\<rparr>, WriteValue [1])], out_events = [], out_gas_used = 100,
         out_major_status = 4001, is_travel_txn = travel\<rparr>)],
      executed = 4001, default_address = [], core_code_address = [], account_module_name = ''LibraAccount'',
      payload_sequence_number = \<lambda>d. witness_seq (pb_witness (cpl_body d)), is_authorized = \<lambda>_. True\<rparr>"

definition sample_chain :: chain where
  "sample_chain = (\<lambda>a v. Inr (Some \<lparr>as_version = 3, as_state = [([5], [0])]\<rparr>))"

definition sample_stm :: "bytes \<Rightarrow> channel_stm" where
  "sample_stm me = channel_stm_new [9] me [[1], [2]] me me []"

definition sample_pending :: "bytes list \<Rightarrow> proposal_lifecycle \<Rightarrow> pending_transaction" where
  "sample_pending signers l =
     \<lparr>pt_proposal = \<lparr>channel_txn = \<lparr>ct_version = 3, ct_channel_address = [9], ct_channel_sequence_number = 0,
         ct_operator = OpOpen, ct_args = [], ct_proposer = [1], ct_sequence_number = 0,
         ct_expiration_time = duration_from_secs 60\<rparr>, proposer_public_key = [1], proposer_signature = [1, 0, 60]\<rparr>,
      pt_output = \<lparr>out_write_set = [(\<lparr>ap_address = [9], ap_path = [7]\<rparr>, WriteValue [1])], out_events = [], out_gas_used = 100,
         out_major_status = 4001, is_travel_txn = False\<rparr>,
      pt_signatures = map (\<lambda>a. (a, \<lparr>sig_address = a, sig_public_key = a, channel_payload_signature = a @ [1],
         witness_data_hash = [2, 1], witness_data_signature = a @ [2, 1], travel_output_witness_signature = None\<rparr>)) signers,
      pt_lifecycle = l\<rparr>"

definition sample_sigs :: "bytes \<Rightarrow> channel_transaction_sigs" where
  "sample_sigs a = \<lparr>sig_address = a, sig_public_key = a, channel_payload_signature = a @ [1],
     witness_data_hash = [2, 1], witness_data_signature = a @ [2, 1], travel_output_witness_signature = None\<rparr>"

lemmas sample_defs = sample_libra_def sample_chain_def sample_stm_def sample_pending_def sample_sigs_def
  channel_stm_new_def channel_state_empty_def witness_default_def

section \<open>Properties\<close>

text \<open>C35. The gas limit of a transaction sent to the chain is at most a million; for a transaction that
  used no more than that it covers the gas used and lies within one unit of a tenth more, and for
  one that used more it is exactly a million. The arithmetic is the double precision of the code.\<close>

theorem gas_limit_covers:
  assumes "build_signed_txn L m p = Inr t"
    and "\<forall>sk pk r t. sign_raw L sk pk r = Inr t \<longrightarrow> st_raw_txn t = r"
  shows "let g = unat (out_gas_used (pt_output p)); limit = unat (rt_max_gas_amount (st_raw_txn t))
    in limit \<le> 1000000 \<and>
       (if g \<le> 1000000 then g \<le> limit \<and> limit \<le> g + g div 10 \<and> min (g + g div 10) 1000000 \<le> limit + 1
        else limit = 1000000)"
proof -
  define g where "g = out_gas_used (pt_output p)"
  have t: "rt_max_gas_amount (st_raw_txn t) = min (gas_with_margin g) MAX_GAS_AMOUNT_ONCHAIN"
    using assms by (auto simp: build_signed_txn_def build_raw_txn_from_channel_txn_def build_chain_txn_def Let_def
        try_bind_Inr_iff g_def case_prod_beta)
  have "unat (min (gas_with_margin g) MAX_GAS_AMOUNT_ONCHAIN) = min (unat (gas_with_margin g)) 1000000"
    by (simp add: min_def MAX_GAS_AMOUNT_ONCHAIN_def word_le_nat_alt)
  then have limit: "unat (rt_max_gas_amount (st_raw_txn t)) = min (unat (gas_with_margin g)) 1000000" by (simp add: t)
  show ?thesis
  proof (cases "unat g \<le> 1000000")
    case True
    show ?thesis
      unfolding limit gas_with_margin_small [OF True] g_def [symmetric] Let_def
      using margin_tight [OF True] margin_ge [of "unat g"] True by (simp add: min_le_iff_disj min_def)
  next
    case False
    then show ?thesis using gas_with_margin_large [of g] by (simp add: limit g_def [symmetric])
  qed
qed

theorem gas_limit_covers_witness:
  "\<exists>t. build_signed_txn (sample_libra False) (sample_stm [1]) (sample_pending [[1]] Traveling) = Inr t \<and>
     100 \<le> unat (rt_max_gas_amount (st_raw_txn t))"
proof -
  have "\<exists>t. build_signed_txn (sample_libra False) (sample_stm [1]) (sample_pending [[1]] Traveling) = Inr t"
    by (simp add: build_signed_txn_def build_raw_txn_from_channel_txn_def build_chain_txn_def
        build_and_sign_channel_txn_payload_body_def channel_op_to_action_def ensure_def sample_defs Let_def split: prod.splits)
  then obtain t where t: "build_signed_txn (sample_libra False) (sample_stm [1]) (sample_pending [[1]] Traveling) = Inr t" ..
  with gas_limit_covers [OF t] show ?thesis by (auto simp: sample_defs Let_def)
qed


lemmas sample_eval = handle_proposal_signature_def verify_txn_sigs_def build_and_sign_channel_txn_payload_body_def
  channel_op_to_action_def channel_sequence_number_def get_local_def access_local_def verify_def ensure_def
  try_reach_consensus_eq add_signature_def get_signature_def bt_contains_def output_write_set_def


end
