(* ===== verification/State_Actions.thy ===== *)
theory State_Actions
  imports Channel_Types
begin

text \<open>
  Operations that may fail and keep what they have changed: the result and the state afterwards
  are a pair. The rules for reasoning about them are collected in \<open>act_rules\<close>; \<open>keeps I f\<close> says
  that \<open>f\<close> preserves \<open>I\<close>, whether it succeeds or fails.
\<close>

section \<open>Results that keep the state\<close>

type_synonym ('s, 'a) action = "'s \<Rightarrow> (chan_error + 'a) \<times> 's"

definition act_bind :: "('s, 'a) action \<Rightarrow> ('a \<Rightarrow> ('s, 'b) action) \<Rightarrow> ('s, 'b) action" where
  "act_bind m f s = (case m s of (Inl e, s) \<Rightarrow> (Inl e, s) | (Inr a, s) \<Rightarrow> f a s)"

definition act_lift :: "chan_error + 'a \<Rightarrow> ('s, 'a) action" where
  "act_lift r s = (r, s)"

definition act_update :: "('s \<Rightarrow> 's) \<Rightarrow> ('s, unit) action" where
  "act_update f s = (Inr (), f s)"

definition act_get :: "('s \<Rightarrow> 'a) \<Rightarrow> ('s, 'a) action" where
  "act_get f s = (Inr (f s), s)"

section \<open>Rules for handlers\<close>

named_theorems act_rules

lemma act_bind_lift [simp]:
  "act_bind (act_lift r) f c = (case r of Inl e \<Rightarrow> (Inl e, c) | Inr a \<Rightarrow> f a c)"
  by (simp add: act_bind_def act_lift_def)

lemma act_lift_snd [simp]: "snd (act_lift r c) = c" "fst (act_lift r c) = r"
  by (simp_all add: act_lift_def)

lemma act_bind_result [simp]: "snd (act_bind f (\<lambda>a. act_lift (h a)) c) = snd (f c)"
  by (simp add: act_bind_def act_lift_def split: prod.splits sum.splits)

lemma act_bind_assoc: "act_bind (act_bind f g) h = act_bind f (\<lambda>a. act_bind (g a) h)"
  by (auto simp: act_bind_def fun_eq_iff split: prod.splits sum.splits)

lemma act_bind_update [simp]: "act_bind (act_update u) f c = f () (u c)"
  by (simp add: act_bind_def act_update_def)

lemma act_bind_get [simp]: "act_bind (act_get g) f c = f (g c) c"
  by (simp add: act_bind_def act_get_def)

lemma act_bind_Inr_iff:
  "act_bind f g c = (Inr b, c') \<longleftrightarrow> (\<exists>a d. f c = (Inr a, d) \<and> g a d = (Inr b, c'))"
  by (auto simp: act_bind_def split: prod.splits sum.splits)

definition keeps :: "('s \<Rightarrow> bool) \<Rightarrow> ('s, 'a) action \<Rightarrow> bool" where
  "keeps I f \<longleftrightarrow> (\<forall>c. I c \<longrightarrow> I (snd (f c)))"

lemma keepsI: "(\<And>c. I c \<Longrightarrow> I (snd (f c))) \<Longrightarrow> keeps I f"
  by (simp add: keeps_def)

lemma keepsD: "keeps I f \<Longrightarrow> I c \<Longrightarrow> I (snd (f c))"
  by (simp add: keeps_def)

lemma keeps_bind [act_rules]: "keeps I f \<Longrightarrow> (\<And>a. keeps I (g a)) \<Longrightarrow> keeps I (act_bind f g)"
  by (fastforce simp: keeps_def act_bind_def split: prod.splits sum.splits)

lemma bind_keeps: "I c \<Longrightarrow> keeps I f \<Longrightarrow> (\<And>a. keeps I (g a)) \<Longrightarrow> I (snd (act_bind f g c))"
  by (rule keepsD [OF keeps_bind])

lemma keeps_lift [act_rules]: "keeps I (act_lift r)"
  by (simp add: keeps_def)

lemma keeps_get [act_rules]: "keeps I (act_get f)"
  by (simp add: keeps_def act_get_def)

lemma keeps_prod [act_rules]: "(\<And>a b. keeps I (f a b)) \<Longrightarrow> keeps I (case x of (a, b) \<Rightarrow> f a b)"
  by (cases x) simp

lemma keeps_if [act_rules]: "keeps I f \<Longrightarrow> keeps I g \<Longrightarrow> keeps I (if b then f else g)"
  by simp

lemma keeps_option [act_rules]: "keeps I f \<Longrightarrow> (\<And>a. keeps I (g a)) \<Longrightarrow> keeps I (case x of None \<Rightarrow> f | Some a \<Rightarrow> g a)"
  by (cases x) simp_all

lemma keeps_applied [act_rules]:
  "(\<And>a. keeps I (f a)) \<Longrightarrow> (\<And>a. keeps I (g a)) \<Longrightarrow> keeps I (case x of Offchain a \<Rightarrow> f a | Travel a \<Rightarrow> g a)"
  by (cases x) simp_all

end
