(* ===== verification/Channel_Actor.thy ===== *)
theory Channel_Actor
  imports Channel_Stm Channel_Store State_Actions
begin

text \<open>
  The channel actor (\<open>sgwallet/src/channel/channel.rs\<close>, \<open>sgwallet/src/channel/mod.rs\<close>): one
  definition per message handler. A handler runs to its end before the next one starts, and keeps
  what it has changed even when it then fails; its result and the state afterwards are a pair.
  \<open>debug_assert!\<close> is compiled out.

  What a handler learns from outside during one run is the record \<open>env\<close>: the answers of the
  chain, whether the database takes a batch, and the clock. What it causes outside is recorded
  in \<open>ch_effects\<close>, the oldest effect first.
\<close>

section \<open>State and environment\<close>

datatype effect =
    Submitted signed_transaction
  | NotifyWatch account_address u64
  | EventLoop u64
  | WatchLock u64
  | StoppedEvent

record 'm channel =
  ch_store :: channel_store
  ch_applier :: "'m tx_applier"
  ch_stm :: channel_stm
  ch_stopping :: bool
  ch_effects :: "effect list"

datatype transaction = UserTransaction signed_transaction | OtherTransaction

record chain_txn =
  cx_version :: u64
  cx_transaction :: transaction
  cx_gas_used :: u64
  cx_major_status :: u64
  cx_events :: "bytes list option"

record env =
  env_chain :: chain
  env_watch :: "account_address \<Rightarrow> u64 \<Rightarrow> chan_error + chain_txn option"
  env_txn_at :: "u64 \<Rightarrow> chan_error + chain_txn option"
  env_submit :: "signed_transaction \<Rightarrow> chan_error + unit"
  env_interest :: "chan_error + unit"
  env_notify :: bool
  env_expiration :: duration
  env_now :: u64
  env_disk_pending :: "pending_transaction option \<Rightarrow> bool"
  env_disk_apply :: bool

abbreviation ch_pending :: "'m channel \<Rightarrow> pending_transaction option" where
  "ch_pending c \<equiv> s_pending_txn (ch_store c)"

definition emit :: "effect \<Rightarrow> ('m channel, unit) action" where
  "emit e = act_update (\<lambda>c. c\<lparr>ch_effects := ch_effects c @ [e]\<rparr>)"

definition set_stopping :: "('m channel, unit) action" where
  "set_stopping = act_update (\<lambda>c. c\<lparr>ch_stopping := True\<rparr>)"

section \<open>Loading\<close>

definition channel_load ::
  "'m ledger_lib \<Rightarrow> libra \<Rightarrow> bool \<Rightarrow> account_address \<Rightarrow> account_address \<Rightarrow> account_address list option \<Rightarrow>
     channel_db \<Rightarrow> bytes \<Rightarrow> public_key \<Rightarrow> package_registry \<Rightarrow> chan_error + 'm channel" where
  "channel_load A L ok channel_addr account_addr participants db sk pk reg =
     try_bind (panicking (channel_store_new A (payload_sequence_number L) ok
                 (case participants of Some ps \<Rightarrow> ps | None \<Rightarrow> []) db)) (\<lambda>s.
     try_bind (tx_applier_new A s) (\<lambda>ta.
       Inr \<lparr>ch_store = s, ch_applier = ta,
            ch_stm = channel_stm_new channel_addr account_addr (store_participant_addresses s) sk pk reg,
            ch_stopping = False, ch_effects = []\<rparr>))"

definition latest_witness_or_default :: "channel_store \<Rightarrow> witness" where
  "latest_witness_or_default s = (case s_latest_witness s of Some w \<Rightarrow> w | None \<Rightarrow> witness_default)"

definition new_channel_state :: "account_address \<Rightarrow> account_state \<Rightarrow> channel_state" where
  "new_channel_state a st = \<lparr>cs_address = a, cs_version = as_version st, cs_state = as_state st\<rparr>"

definition bootstrap :: "'m ledger_lib \<Rightarrow> env \<Rightarrow> (account_address \<Rightarrow> u64 \<Rightarrow> chan_error + chain_txn option) \<Rightarrow>
     ('m channel, unit) action" where
  "bootstrap A E txn_by_seq c =
     (let s = ch_store c; m = ch_stm c
      in act_bind (act_lift (get_startup_info A s)) (\<lambda>info.
         (case info of
            None \<Rightarrow> act_lift (Inr ())
          | Some i \<Rightarrow>
              act_bind (act_lift (get_transaction_by_channel_seq_number A s (li_epoch (si_ledger_info i)))) (\<lambda>applied.
              (case tp_signed_transaction applied of
                 Offchain _ \<Rightarrow> act_lift (Inl (Panic ''assertion failed: travel''))
               | Travel txn \<Rightarrow>
                   act_bind (act_lift (txn_by_seq (rt_sender (st_raw_txn txn)) (rt_sequence_number (st_raw_txn txn)))) (\<lambda>found.
                   act_bind (act_lift (ok_or found (Panic ''unwrap on None''))) (\<lambda>t.
                   act_bind (act_lift (get_account_state (env_chain E) (channel_address m) (Some (cx_version t)))) (\<lambda>st.
                     act_update (\<lambda>c. c\<lparr>ch_stm := advance_state (Some (new_channel_state (channel_address m) st))
                       (latest_witness_or_default s) (get_participant_keys s) m\<rparr>)))))))) c)"

section \<open>Helpers of the handlers\<close>

definition check_applied :: "'m ledger_lib \<Rightarrow> channel_store \<Rightarrow> u64 \<Rightarrow> chan_error + txn_with_proof option" where
  "check_applied A s seq =
     try_bind (get_startup_info A s) (\<lambda>info.
       (case info of
          None \<Rightarrow> Inr None
        | Some i \<Rightarrow>
            if si_latest_version i < seq then Inr None
            else try_bind (get_transaction_by_channel_seq_number A s seq) (\<lambda>t. Inr (Some t))))"

definition save_pending_txn :: "env \<Rightarrow> pending_transaction \<Rightarrow> ('m channel, unit) action" where
  "save_pending_txn E p c =
     (if ch_pending c = Some p then (Inr (), c)
      else if (case ch_pending c of Some cur \<Rightarrow> newer_than cur p | None \<Rightarrow> False)
      then (Inl (Bail ''cannot save pending txn, state invalid''), c)
      else (case store_save_pending_txn (env_disk_pending E (Some p)) p True (ch_store c) of
              Inl e \<Rightarrow> (Inl e, c)
            | Inr s \<Rightarrow> (Inr (), c\<lparr>ch_store := s\<rparr>)))"

definition clear_pending_txn :: "env \<Rightarrow> ('m channel, unit) action" where
  "clear_pending_txn E c =
     (case store_clear_pending_txn (env_disk_pending E None) (ch_store c) of
        Inl e \<Rightarrow> (Inl e, c)
      | Inr s \<Rightarrow> (Inr (), c\<lparr>ch_store := s\<rparr>))"

text \<open>The end of \<open>apply\<close> and \<open>apply_travel\<close>: the applier, then the state machine.\<close>

definition apply_and_advance ::
  "'m ledger_lib \<Rightarrow> libra \<Rightarrow> env \<Rightarrow> transaction_to_commit \<Rightarrow> channel_state option \<Rightarrow> ('m channel, unit) action" where
  "apply_and_advance A L E tx cs c =
     (case tx_apply A (payload_sequence_number L) (env_disk_apply E) (env_now E) tx (ch_applier c, ch_store c) of
        Inl e \<Rightarrow> (Inl e, c)
      | Inr (ta, s) \<Rightarrow>
          (Inr (), c\<lparr>ch_applier := ta, ch_store := s,
             ch_stm := advance_state cs (latest_witness_or_default s) (get_participant_keys s) (ch_stm c)\<rparr>))"

definition channel_apply ::
  "'m ledger_lib \<Rightarrow> libra \<Rightarrow> env \<Rightarrow> pending_transaction \<Rightarrow> ('m channel, unit) action" where
  "channel_apply A L E p =
     apply_and_advance A L E
       \<lparr>tc_txn = Offchain \<lparr>raw_tx = channel_txn (pt_proposal p), sct_signatures = pt_signatures p\<rparr>,
        tc_write_set = out_write_set (pt_output p), tc_events = out_events (pt_output p),
        tc_major_status = out_major_status (pt_output p), tc_gas_used = out_gas_used (pt_output p)\<rparr> None"

definition apply_travel ::
  "'m ledger_lib \<Rightarrow> libra \<Rightarrow> env \<Rightarrow> u64 \<Rightarrow> signed_transaction \<Rightarrow> u64 \<Rightarrow> u64 \<Rightarrow> bytes list \<Rightarrow> ('m channel, unit) action" where
  "apply_travel A L E version txn major_status gas_used events c =
     act_bind (act_lift (get_account_state (env_chain E) (channel_address (ch_stm c)) (Some version))) (\<lambda>st.
       apply_and_advance A L E
         \<lparr>tc_txn = Travel txn, tc_write_set = [], tc_events = events, tc_major_status = major_status,
          tc_gas_used = gas_used\<rparr> (Some (new_channel_state (channel_address (ch_stm c)) st))) c"

section \<open>Handlers\<close>

definition handle_execute ::
  "libra \<Rightarrow> env \<Rightarrow> channel_op \<Rightarrow> transaction_argument list \<Rightarrow>
     ('m channel, channel_transaction_proposal \<times> channel_transaction_sigs \<times> transaction_output) action" where
  "handle_execute L E op args c =
     (let m = ch_stm c
      in act_bind (act_lift
           (try_bind (generate_proposal L (env_chain E) (env_expiration E) m op args) (\<lambda>proposal.
            try_bind (handle_new_proposal L (env_chain E) m (ch_pending c) proposal) (\<lambda>pending.
            try_bind (ok_or pending (Panic ''unwrap on None'')) (\<lambda>p.
            try_bind (generate_txn_sigs L m (channel_txn (pt_proposal p)) (pt_output p)) (\<lambda>sig.
            try_bind (handle_proposal_signature L m p (hash_channel_txn L (channel_txn (pt_proposal p))) sig) (\<lambda>p.
              Inr (p, sig)))))))) (\<lambda>(p, sig).
         act_bind (save_pending_txn E p) (\<lambda>_.
           act_lift (Inr (pt_proposal p, sig, pt_output p)))) c)"

text \<open>The part of \<open>CollectProposalWithSigs\<close> after the check for an applied transaction: the
  proposal, the peer's signature, and my own signature when nothing of mine changes.\<close>

definition collect_signature ::
  "libra \<Rightarrow> chain \<Rightarrow> channel_stm \<Rightarrow> pending_transaction option \<Rightarrow> channel_transaction_proposal \<Rightarrow>
     channel_transaction_sigs \<Rightarrow> chan_error + pending_transaction" where
  "collect_signature L chain m pending proposal sigs =
     try_bind (handle_new_proposal L chain m pending proposal) (\<lambda>pending.
     try_bind (ok_or pending (Panic ''unwrap on None'')) (\<lambda>p.
     try_bind (handle_proposal_signature L m p (hash_channel_txn L (channel_txn (pt_proposal p))) sigs) (\<lambda>p.
       if \<not> bt_contains (pt_signatures p) (account_address m) \<and> can_auto_sign_pending_proposal L m p
       then try_bind (generate_txn_sigs L m (channel_txn (pt_proposal p)) (pt_output p)) (\<lambda>sig.
              handle_proposal_signature L m p (hash_channel_txn L (channel_txn (pt_proposal p))) sig)
       else Inr p)))"

definition handle_collect ::
  "'m ledger_lib \<Rightarrow> libra \<Rightarrow> env \<Rightarrow> channel_transaction_proposal \<Rightarrow> channel_transaction_sigs \<Rightarrow>
     ('m channel, channel_transaction_sigs option) action" where
  "handle_collect A L E proposal sigs c =
     act_bind (act_lift (check_applied A (ch_store c) (ct_channel_sequence_number (channel_txn proposal)))) (\<lambda>applied.
       (case applied of
          Some t \<Rightarrow>
            (case tp_signed_transaction t of
               Travel _ \<Rightarrow> act_lift (Inl (Bail ''proposal is already commited onchain''))
             | Offchain u \<Rightarrow>
                 if hash_channel_txn L (channel_txn proposal) \<noteq> hash_channel_txn L (raw_tx u)
                 then act_lift (Inl (Bail ''invalid proposal, channel already applied a different proposal''))
                 else (case map_of (sct_signatures u) (account_address (ch_stm c)) of
                         None \<Rightarrow> act_lift (Inl (Panic ''applied txn should have user signature''))
                       | Some sig \<Rightarrow> act_lift (Inr (Some sig))))
        | None \<Rightarrow>
            act_bind (act_lift (collect_signature L (env_chain E) (ch_stm c) (ch_pending c) proposal sigs)) (\<lambda>p.
            act_bind (save_pending_txn E p) (\<lambda>_.
              act_lift (Inr (get_signature (account_address (ch_stm c)) p)))))) c"

definition pending_by_id :: "libra \<Rightarrow> 'm channel \<Rightarrow> hash_value \<Rightarrow> chan_error + pending_transaction" where
  "pending_by_id L c txn_id =
     try_bind (ok_or (ch_pending c) (Bail ''no pending txn'')) (\<lambda>p.
     try_bind (ensure (txn_id = hash_channel_txn L (channel_txn (pt_proposal p)))
                 (Bail ''channel_txn_id conflict with local pending txn'')) (\<lambda>_.
     try_bind (ensure (\<not> consensus_reached p) (Bail ''pending txn is already consensus_reached'')) (\<lambda>_.
       Inr p)))"

definition handle_grant :: "libra \<Rightarrow> env \<Rightarrow> hash_value \<Rightarrow> ('m channel, channel_transaction_sigs) action" where
  "handle_grant L E txn_id c =
     (let m = ch_stm c
      in act_bind (act_lift
           (try_bind (pending_by_id L c txn_id) (\<lambda>p.
            try_bind (generate_txn_sigs L m (channel_txn (pt_proposal p)) (pt_output p)) (\<lambda>sig.
            try_bind (handle_proposal_signature L m p (hash_channel_txn L (channel_txn (pt_proposal p))) sig) (\<lambda>p.
              Inr (p, sig)))))) (\<lambda>(p, sig).
         act_bind (save_pending_txn E p) (\<lambda>_. act_lift (Inr sig))) c)"

definition handle_cancel :: "libra \<Rightarrow> env \<Rightarrow> hash_value \<Rightarrow> ('m channel, unit) action" where
  "handle_cancel L E txn_id c =
     act_bind (act_lift (pending_by_id L c txn_id)) (\<lambda>p.
     act_bind (clear_pending_txn E) (\<lambda>_.
       if op_is_open (ct_operator (channel_txn (pt_proposal p))) then set_stopping else act_lift (Inr ()))) c"

definition send_travel :: "libra \<Rightarrow> env \<Rightarrow> pending_transaction \<Rightarrow> ('m channel, (account_address \<times> u64) option) action" where
  "send_travel L E p c =
     (let ct = channel_txn (pt_proposal p)
      in act_bind
           (if account_address (ch_stm c) = ct_proposer ct
            then act_bind (act_lift (build_signed_txn L (ch_stm c) p)) (\<lambda>txn.
                 act_bind (act_lift (env_submit E txn)) (\<lambda>_. emit (Submitted txn)))
            else act_lift (Inr ())) (\<lambda>_.
         act_bind (save_pending_txn E p) (\<lambda>_.
           act_lift (Inr (Some (ct_proposer ct, ct_sequence_number ct))))) c)"

definition handle_apply_pending ::
  "'m ledger_lib \<Rightarrow> libra \<Rightarrow> env \<Rightarrow> ('m channel, (account_address \<times> u64) option) action" where
  "handle_apply_pending A L E c =
     act_bind (act_lift
       (try_bind (ok_or (ch_pending c) (Bail ''should have txn to apply'')) (\<lambda>p.
        try_bind (ensure (pt_lifecycle p = Negotiating \<or> pt_lifecycle p = Agreed)
                   (Bail ''cannot apply pending txn which is already applying or traveling'')) (\<lambda>_.
          Inr (handle_apply_proposal p))))) (\<lambda>p.
       (case pt_lifecycle p of
          Applying \<Rightarrow> act_bind (channel_apply A L E p) (\<lambda>_. act_lift (Inr None))
        | Traveling \<Rightarrow> send_travel L E p
        | _ \<Rightarrow> act_lift (Inl (Panic ''unreachable'')))) c"

definition handle_accessing_resource :: "access_path \<Rightarrow> ('m channel, bytes option) action" where
  "handle_accessing_resource path c =
     act_lift (access_local (witness_write_set (stm_witness (ch_stm c))) (stm_channel_state (ch_stm c)) path) c"

definition handle_get_pending :: "('m channel, pending_transaction option) action" where
  "handle_get_pending c = (Inr (ch_pending c), c)"

definition solo_action ::
  "'m ledger_lib \<Rightarrow> libra \<Rightarrow> env \<Rightarrow> channel_op \<Rightarrow> transaction_argument list \<Rightarrow> ('m channel, unit) action" where
  "solo_action A L E op args =
     act_bind (handle_execute L E op args) (\<lambda>_.
     act_bind (handle_apply_pending A L E) (\<lambda>r.
     act_bind (act_lift (ok_or r (Bail ''expect solo channel txn not applying''))) (\<lambda>(sender, seq).
       if env_notify E then emit (NotifyWatch sender seq)
       else act_lift (Inl (Panic ''self actor should be running'')))))"

definition account_action :: "libra \<Rightarrow> string \<Rightarrow> channel_op" where
  "account_action L name = OpAction (core_code_address L) (account_module_name L) name"

text \<open>The common beginning of \<open>ApplyCoSignedTxn\<close> and \<open>ApplySoloTxn\<close>.\<close>

fun channel_payload_of :: "transaction \<Rightarrow> chan_error + (signed_transaction \<times> channel_payload)" where
  "channel_payload_of (UserTransaction t) =
     (case rt_payload (st_raw_txn t) of
        PayloadChannel d \<Rightarrow> Inr (t, d)
      | PayloadOther \<Rightarrow> Inl (Bail ''should be channel txn''))"
| "channel_payload_of OtherTransaction = Inl (Bail ''should be user txn'')"

definition handle_apply_cosigned :: "'m ledger_lib \<Rightarrow> libra \<Rightarrow> env \<Rightarrow> chain_txn \<Rightarrow> ('m channel, u64) action" where
  "handle_apply_cosigned A L E x c =
     act_bind (act_lift (channel_payload_of (cx_transaction x))) (\<lambda>(txn, payload).
       (let seq = witness_seq (pb_witness (cpl_body payload))
        in act_bind (act_lift (channel_sequence_number L (ch_stm c))) (\<lambda>local_seq.
           if seq < local_seq
           then act_bind (act_lift (check_applied A (ch_store c) seq)) (\<lambda>applied.
                act_bind (act_lift (ok_or applied (Panic ''unwrap on None''))) (\<lambda>t.
                  (case tp_signed_transaction t of
                     Travel s \<Rightarrow>
                       if hash_raw_txn L (st_raw_txn s) = hash_raw_txn L (st_raw_txn txn)
                       then act_lift (Inr (ti_gas_used (tp_info t)))
                       else act_lift (Inl (Panic ''not implemented''))
                   | Offchain _ \<Rightarrow> act_lift (Inl (Panic ''not implemented'')))))
           else act_bind (apply_travel A L E (cx_version x) txn (cx_major_status x) (cx_gas_used x)
                           (case cx_events x of Some e \<Rightarrow> e | None \<Rightarrow> [])) (\<lambda>_.
                act_bind (act_get ch_stm) (\<lambda>m.
                act_bind (act_lift (channel_resource_of L m)) (\<lambda>r.
                act_bind (act_lift (ok_or r (Bail ''channel resource should exists in local''))) (\<lambda>r.
                act_bind
                  (if cr_opened r
                   then (if cr_channel_sequence_number r = 1 then emit (EventLoop (cr_event_count r)) else act_lift (Inr ()))
                   else if cr_closed r then set_stopping else act_lift (Inr ())) (\<lambda>_.
                  act_lift (Inr (cx_gas_used x))))))))))  c"

definition watch_channel_lock_timeout :: "libra \<Rightarrow> env \<Rightarrow> ('m channel, unit) action" where
  "watch_channel_lock_timeout L E =
     act_bind (act_get ch_stm) (\<lambda>m.
     act_bind (act_lift (channel_lock_by_resource L m)) (\<lambda>r.
     act_bind (act_lift (ok_or r (Panic ''expect lock_by resource exists''))) (\<lambda>time_lock.
     act_bind (act_lift (env_interest E)) (\<lambda>_. emit (WatchLock time_lock)))))"

definition after_solo ::
  "'m ledger_lib \<Rightarrow> libra \<Rightarrow> env \<Rightarrow> account_address \<Rightarrow> channel_resource \<Rightarrow> ('m channel, unit) action" where
  "after_solo A L E sender r =
     (if cr_locked r
      then act_bind (act_get (account_address \<circ> ch_stm)) (\<lambda>me.
             if me = sender
             then act_bind (act_get ch_stm) (\<lambda>m.
                  act_bind (act_lift (channel_lock_by_resource L m)) (\<lambda>l.
                  act_bind (act_lift (ok_or l (Panic ''unwrap on None''))) (\<lambda>_.
                    watch_channel_lock_timeout L E)))
             else solo_action A L E (account_action L ''resolve'') [])
      else if cr_closed r then set_stopping else act_lift (Inr ()))"

definition handle_apply_solo :: "'m ledger_lib \<Rightarrow> libra \<Rightarrow> env \<Rightarrow> chain_txn \<Rightarrow> ('m channel, u64) action" where
  "handle_apply_solo A L E x c =
     act_bind (act_lift (channel_payload_of (cx_transaction x))) (\<lambda>(txn, payload).
       act_bind (act_lift (channel_sequence_number L (ch_stm c))) (\<lambda>local_seq.
         if witness_seq (pb_witness (cpl_body payload)) < local_seq
         then act_bind (act_lift (check_applied A (ch_store c) (payload_sequence_number L payload))) (\<lambda>applied.
              act_bind (act_lift (ok_or applied (Panic ''unwrap on None''))) (\<lambda>t.
                (case tp_signed_transaction t of
                   Travel s \<Rightarrow>
                     if hash_raw_txn L (st_raw_txn s) = hash_raw_txn L (st_raw_txn txn)
                     then act_lift (Inr (ti_gas_used (tp_info t)))
                     else act_lift (Inl (Panic ''not implemented''))
                 | Offchain _ \<Rightarrow>
                     if account_address (ch_stm c) = rt_sender (st_raw_txn txn)
                     then act_lift (Inl (Panic ''not implemented''))
                     else act_bind (solo_action A L E (account_action L ''challenge'') []) (\<lambda>_. act_lift (Inr 0)))))
         else act_bind (apply_travel A L E (cx_version x) txn (cx_major_status x) (cx_gas_used x)
                         (case cx_events x of Some e \<Rightarrow> e | None \<Rightarrow> [])) (\<lambda>_.
              act_bind (act_get ch_stm) (\<lambda>m.
              act_bind (act_lift (channel_resource_of L m)) (\<lambda>r.
              act_bind (act_lift (ok_or r (Bail ''channel resource should exists in local''))) (\<lambda>r.
              act_bind (after_solo A L E (rt_sender (st_raw_txn txn)) r) (\<lambda>_.
                act_lift (Inr (cx_gas_used x))))))))) c"

definition handle_watch_and_apply ::
  "'m ledger_lib \<Rightarrow> libra \<Rightarrow> env \<Rightarrow> account_address \<Rightarrow> u64 \<Rightarrow> ('m channel, u64) action" where
  "handle_watch_and_apply A L E sender seq =
     act_bind (act_lift (env_watch E sender seq)) (\<lambda>found.
     act_bind (act_lift (ok_or found (Bail ''proof not found''))) (\<lambda>x.
     act_bind (act_lift (case cx_transaction x of
          UserTransaction t \<Rightarrow> (case rt_payload (st_raw_txn t) of
             PayloadChannel d \<Rightarrow> Inr (\<not> is_authorized L d)
           | PayloadOther \<Rightarrow> Inl (Bail ''invalid channel travel txn''))
        | OtherTransaction \<Rightarrow> Inl (Bail ''not a user transaction''))) (\<lambda>is_solo.
     act_bind (if is_solo then handle_apply_solo A L E x else handle_apply_cosigned A L E x) (\<lambda>_.
       act_lift (Inr (cx_gas_used x))))))"

definition handle_lock_timeout ::
  "'m ledger_lib \<Rightarrow> libra \<Rightarrow> env \<Rightarrow> u64 \<Rightarrow> u64 \<Rightarrow> ('m channel, unit) action" where
  "handle_lock_timeout A L E block_height time_lock c =
     act_bind (act_lift (ensure (time_lock < block_height) (Bail ''invalid lock timeout msg''))) (\<lambda>_.
     act_bind (act_lift (channel_lock_by_resource L (ch_stm c))) (\<lambda>l.
       (case l of
          None \<Rightarrow> act_lift (Inr ())
        | Some _ \<Rightarrow>
            (case remove1 (account_address (ch_stm c)) (participant_addresses (ch_stm c)) of
               [] \<Rightarrow> act_lift (Inl (Panic ''should contain at least 1 participants''))
             | ps # _ \<Rightarrow> solo_action A L E (account_action L ''close'') [ArgAddress ps])))) c"

definition handle_stage_change :: "'m ledger_lib \<Rightarrow> libra \<Rightarrow> env \<Rightarrow> u64 \<Rightarrow> ('m channel, unit) action" where
  "handle_stage_change A L E version c =
     (if version \<le> cs_version (stm_channel_state (ch_stm c)) then (Inr (), c)
      else act_bind (act_lift (env_txn_at E version)) (\<lambda>found.
           act_bind (act_lift (ok_or found (Bail ''get_transaction return empty txn''))) (\<lambda>x.
           act_bind (act_lift (ok_or (cx_events x) (Panic ''unwrap on None''))) (\<lambda>_.
             (case cx_transaction x of
                OtherTransaction \<Rightarrow> act_lift (Inl (Panic ''unwrap on Err''))
              | UserTransaction t \<Rightarrow>
                  (case rt_payload (st_raw_txn t) of
                     PayloadOther \<Rightarrow> act_lift (Inr ())
                   | PayloadChannel d \<Rightarrow>
                       if \<not> is_authorized L d \<and> account_address (ch_stm c) \<noteq> rt_sender (st_raw_txn t)
                       then act_bind (handle_apply_solo A L E (x\<lparr>cx_version := version\<rparr>)) (\<lambda>_. act_lift (Inr ()))
                       else act_lift (Inr ())))))) c)"

text \<open>An error of a handler called at the start is logged and stops the actor; a panic goes on.\<close>

definition stop_on_error :: "('m channel, 'a) action \<Rightarrow> ('m channel, 'a option) action" where
  "stop_on_error f c =
     (case f c of
        (Inr a, c) \<Rightarrow> (Inr (Some a), c)
      | (Inl (Panic m), c) \<Rightarrow> (Inl (Panic m), c)
      | (Inl _, c) \<Rightarrow> act_bind set_stopping (\<lambda>_. act_lift (Inr None)) c)"

definition started :: "'m ledger_lib \<Rightarrow> libra \<Rightarrow> env \<Rightarrow> ('m channel, unit) action" where
  "started A L E c =
     act_bind
       (case ch_pending c of
          None \<Rightarrow> act_lift (Inr ())
        | Some p \<Rightarrow>
            (case pt_lifecycle p of
               Agreed \<Rightarrow>
                 act_bind (stop_on_error (handle_apply_pending A L E)) (\<lambda>r.
                   (case r of
                      Some (Some (sender, seq)) \<Rightarrow>
                        act_bind (stop_on_error (handle_watch_and_apply A L E sender seq)) (\<lambda>_. act_lift (Inr ()))
                    | _ \<Rightarrow> act_lift (Inr ())))
             | Traveling \<Rightarrow>
                 act_bind (stop_on_error (handle_watch_and_apply A L E (ct_proposer (channel_txn (pt_proposal p)))
                    (ct_sequence_number (channel_txn (pt_proposal p))))) (\<lambda>_. act_lift (Inr ()))
             | _ \<Rightarrow> act_lift (Inr ()))) (\<lambda>_.
     act_bind (act_get ch_stm) (\<lambda>m.
     act_bind (act_lift (channel_resource_of L m)) (\<lambda>r.
       (case r of Some r \<Rightarrow> emit (EventLoop (cr_event_count r)) | None \<Rightarrow> act_lift (Inr ()))))) c"

definition stopped :: "('m channel, unit) action" where
  "stopped = emit StoppedEvent"

end
