(* ===== verification/Channel_Correct.thy ===== *)
theory Channel_Correct
  imports Channel_Actor Stm_Correct Ledger_Correct
begin

text \<open>
  Safety of the channel actor. Whatever messages it handles and whatever the chain, the disk and
  the peer answer, its pending transaction carries only verified signatures, is stored on disk as
  it is in memory, and is applied off the chain only when every participant has signed it.
\<close>

section \<open>The invariant\<close>

definition pending_inv :: "libra \<Rightarrow> channel_stm \<Rightarrow> pending_transaction \<Rightarrow> bool" where
  "pending_inv L m p \<longleftrightarrow> pending_ok L m p \<and> pt_lifecycle p \<noteq> Created \<and> pt_lifecycle p \<noteq> Applying"

definition chan_inv :: "libra \<Rightarrow> 'm channel \<Rightarrow> bool" where
  "chan_inv L c \<longleftrightarrow> (\<forall>p. ch_pending c = Some p \<longrightarrow> pending_inv L (ch_stm c) p) \<and>
     db_pending (s_db (ch_store c)) = ch_pending c"

lemma keeps_emit [act_rules]: "keeps (chan_inv L) (emit e)"
  by (simp add: keeps_def emit_def act_update_def chan_inv_def)

lemma keeps_stopping [act_rules]: "keeps (chan_inv L) set_stopping"
  by (simp add: keeps_def set_stopping_def act_update_def chan_inv_def)

lemma save_pending_inv:
  assumes "chan_inv L c" "pending_inv L (ch_stm c) p"
  shows "chan_inv L (snd (save_pending_txn E p c))"
  using assms
  by (auto simp: save_pending_txn_def store_save_pending_txn_def write_schemas_def chan_inv_def split: sum.splits if_splits)

lemma keeps_clear [act_rules]: "keeps (chan_inv L) (clear_pending_txn E)"
  by (auto simp: keeps_def clear_pending_txn_def store_clear_pending_txn_def write_schemas_def chan_inv_def
      split: sum.splits if_splits)

lemma tx_apply_clears:
  assumes "tx_apply A pseq ok now tx (ta, s) = Inr (ta', s')"
  shows "s_pending_txn s' = None \<and> db_pending (s_db s') = None"
  using assms by (auto simp: tx_apply_def save_tx_def write_schemas_def Let_def try_bind_Inr_iff split: if_splits)

lemma keeps_apply [act_rules]: "keeps (chan_inv L') (apply_and_advance A L E tx cs)"
proof (rule keepsI)
  fix c :: "'a channel"
  assume "chan_inv L' c"
  then show "chan_inv L' (snd (apply_and_advance A L E tx cs c))"
    by (auto simp: apply_and_advance_def chan_inv_def dest!: tx_apply_clears split: sum.splits)
qed

lemma keeps_apply_travel [act_rules]: "keeps (chan_inv L') (apply_travel A L E v t ms g es)"
  by (rule keepsI) (auto simp: apply_travel_def intro: keepsD [OF keeps_apply] split: sum.splits)

lemma handle_sig_inv:
  assumes "handle_proposal_signature L m p i s = Inr q" "pending_ok L m p" "pt_lifecycle p \<noteq> Applying"
  shows "pending_inv L m q"
proof -
  have "pt_lifecycle q \<noteq> Applying"
    using assms(1,3) by (auto simp: handle_proposal_signature_def try_bind_Inr_iff Let_def try_reach_consensus_eq
        split: if_splits proposal_lifecycle.splits)
  then show ?thesis using handle_proposal_signature_ok [OF assms(1,2)] by (simp add: pending_inv_def)
qed

lemma new_proposal_inv:
  assumes "chan_inv L c" "handle_new_proposal L chain (ch_stm c) (ch_pending c) proposal = Inr (Some p)"
  shows "pending_ok L (ch_stm c) p \<and> pt_lifecycle p \<noteq> Applying"
proof -
  have "\<forall>p. ch_pending c = Some p \<longrightarrow> pending_ok L (ch_stm c) p" using assms(1) by (simp add: chan_inv_def pending_inv_def)
  from handle_new_proposal_ok [OF assms(2) this] assms(1) show ?thesis by (auto simp: chan_inv_def pending_inv_def)
qed

lemma keeps_execute [act_rules]: "keeps (chan_inv L) (handle_execute L E op args)"
proof (rule keepsI)
  fix c :: "'a channel"
  assume I: "chan_inv L c"
  have "pending_inv L (ch_stm c) q"
    if "handle_new_proposal L chain (ch_stm c) (ch_pending c) pr = Inr (Some p)"
      "handle_proposal_signature L (ch_stm c) p i s = Inr q" for chain pr p i s q
    using handle_sig_inv [OF that(2)] new_proposal_inv [OF I that(1)] by simp
  then show "chan_inv L (snd (handle_execute L E op args c))"
    by (auto simp: handle_execute_def Let_def try_bind_Inr_iff I split: sum.splits intro!: save_pending_inv [OF I])
qed

lemma collect_signature_inv:
  assumes "chan_inv L c" "collect_signature L chain (ch_stm c) (ch_pending c) proposal s = Inr q"
  shows "pending_inv L (ch_stm c) q"
proof -
  obtain p p' where p: "handle_new_proposal L chain (ch_stm c) (ch_pending c) proposal = Inr (Some p)"
    and p': "handle_proposal_signature L (ch_stm c) p (hash_channel_txn L (channel_txn (pt_proposal p))) s = Inr p'"
    and q: "q = p' \<or> (\<exists>i s'. handle_proposal_signature L (ch_stm c) p' i s' = Inr q)"
    using assms(2) by (auto simp: collect_signature_def try_bind_Inr_iff split: if_splits)
  have "pending_inv L (ch_stm c) p'" using handle_sig_inv [OF p'] new_proposal_inv [OF assms(1) p] by simp
  with q show ?thesis using handle_sig_inv by (auto simp: pending_inv_def)
qed

lemma keeps_collect [act_rules]: "keeps (chan_inv L) (handle_collect A L E proposal s)"
proof (rule keepsI)
  fix c :: "'a channel"
  assume I: "chan_inv L c"
  then show "chan_inv L (snd (handle_collect A L E proposal s c))"
    by (auto simp: handle_collect_def split: sum.splits option.splits applied_channel_txn.splits
        intro!: save_pending_inv [OF I] collect_signature_inv [OF I])
qed

lemma pending_by_id_inv:
  "chan_inv L c \<Longrightarrow> pending_by_id L c i = Inr p \<Longrightarrow> pending_ok L (ch_stm c) p \<and> pt_lifecycle p \<noteq> Applying"
  by (auto simp: pending_by_id_def try_bind_Inr_iff chan_inv_def pending_inv_def)

lemma keeps_grant [act_rules]: "keeps (chan_inv L) (handle_grant L E i)"
proof (rule keepsI)
  fix c :: "'a channel"
  assume I: "chan_inv L c"
  have "pending_inv L (ch_stm c) q"
    if "pending_by_id L c i = Inr p" "handle_proposal_signature L (ch_stm c) p j s = Inr q" for p j s q
    using handle_sig_inv [OF that(2)] pending_by_id_inv [OF I that(1)] by simp
  then show "chan_inv L (snd (handle_grant L E i c))"
    by (auto simp: handle_grant_def Let_def try_bind_Inr_iff I split: sum.splits intro!: save_pending_inv [OF I])
qed

lemma keeps_cancel [act_rules]: "keeps (chan_inv L) (handle_cancel L E i)"
  by (rule keepsI, unfold handle_cancel_def, rule keepsD) (intro act_rules)

lemma apply_proposal_inv:
  assumes "pending_inv L m p" "pt_lifecycle (handle_apply_proposal p) = Traveling"
  shows "pending_inv L m (handle_apply_proposal p)"
  using assms by (auto simp: pending_inv_def pending_ok_def handle_apply_proposal_def split: if_splits)

lemma keeps_apply_pending [act_rules]: "keeps (chan_inv L) (handle_apply_pending A L E)"
proof (rule keepsI)
  fix c :: "'a channel"
  assume I: "chan_inv L c"
  have save: "chan_inv L (snd (save_pending_txn E (handle_apply_proposal p) c'))"
    if "ch_pending c = Some p" "pt_lifecycle (handle_apply_proposal p) = Traveling" "chan_inv L c'" "ch_stm c' = ch_stm c" for p c'
    using I that by (intro save_pending_inv apply_proposal_inv) (auto simp: chan_inv_def)
  have effect: "chan_inv L (c\<lparr>ch_effects := es\<rparr>)" for es using I by (simp add: chan_inv_def)
  show "chan_inv L (snd (handle_apply_pending A L E c))"
    by (auto simp: handle_apply_pending_def send_travel_def Let_def try_bind_Inr_iff I emit_def channel_apply_def act_bind_assoc
        split: sum.splits proposal_lifecycle.splits intro!: save effect keepsD [OF keeps_apply])
qed

lemma keeps_solo [act_rules]: "keeps (chan_inv L) (solo_action A L E op args)"
  unfolding solo_action_def by (intro act_rules)

lemma keeps_cosigned [act_rules]: "keeps (chan_inv L) (handle_apply_cosigned A L E x)"
  by (rule keepsI, unfold handle_apply_cosigned_def Let_def, rule keepsD) (intro act_rules)

lemma keeps_watch_lock [act_rules]: "keeps (chan_inv L) (watch_channel_lock_timeout L E)"
  unfolding watch_channel_lock_timeout_def by (intro act_rules)

lemma keeps_after_solo [act_rules]: "keeps (chan_inv L) (after_solo A L E sender r)"
  unfolding after_solo_def by (intro act_rules)

lemma keeps_apply_solo [act_rules]: "keeps (chan_inv L) (handle_apply_solo A L E x)"
  by (rule keepsI, unfold handle_apply_solo_def, rule keepsD) (intro act_rules)

lemma keeps_watch_and_apply [act_rules]: "keeps (chan_inv L) (handle_watch_and_apply A L E sender seq)"
  unfolding handle_watch_and_apply_def by (intro act_rules)

lemma keeps_lock_timeout [act_rules]: "keeps (chan_inv L) (handle_lock_timeout A L E h t)"
proof (rule keepsI)
  fix c :: "'a channel"
  assume "chan_inv L c"
  then show "chan_inv L (snd (handle_lock_timeout A L E h t c))"
    by (auto simp: handle_lock_timeout_def intro: keepsD [OF keeps_solo] split: sum.splits option.splits list.splits)
qed

lemma keeps_stage_change [act_rules]: "keeps (chan_inv L) (handle_stage_change A L E v)"
proof (rule keepsI)
  fix c :: "'a channel"
  assume "chan_inv L c"
  then show "chan_inv L (snd (handle_stage_change A L E v c))"
    by (auto simp: handle_stage_change_def intro: keepsD [OF keeps_apply_solo]
        split: sum.splits transaction.splits transaction_payload.splits)
qed

lemma keeps_stop_on_error [act_rules]:
  fixes f :: "('m channel, 'a) action"
  assumes "keeps (chan_inv L) f"
  shows "keeps (chan_inv L) (stop_on_error f)"
proof (rule keepsI)
  fix c :: "'m channel"
  assume "chan_inv L c"
  then have "chan_inv L (snd (f c))" by (rule keepsD [OF assms])
  then show "chan_inv L (snd (stop_on_error f c))"
    by (auto simp: stop_on_error_def intro: keepsD [OF keeps_stopping] split: prod.splits sum.splits chan_error.splits)
qed


lemma keeps_started [act_rules]: "keeps (chan_inv L) (started A L E)"
proof (rule keepsI)
  fix c :: "'a channel"
  assume I: "chan_inv L c"
  show "chan_inv L (snd (started A L E c))"
    unfolding started_def
    apply (rule keepsD [where I = "chan_inv L", OF _ I], rule keeps_bind)
    subgoal by (auto split: option.splits proposal_lifecycle.splits intro!: act_rules)
    subgoal by (intro act_rules)
    done
qed

section \<open>The actor as a machine\<close>

datatype channel_message =
    MsgExecute channel_op "transaction_argument list"
  | MsgCollect channel_transaction_proposal channel_transaction_sigs
  | MsgGrant hash_value
  | MsgCancel hash_value
  | MsgApply
  | MsgAccess access_path
  | MsgGetPending
  | MsgWatchAndApply account_address u64
  | MsgLockTimeout u64 u64
  | MsgStageChange u64
  | MsgStarted

definition outcome :: "(chan_error + 'a) \<times> 's \<Rightarrow> chan_error option \<times> 's" where
  "outcome r = (case r of (Inl e, s) \<Rightarrow> (Some e, s) | (Inr _, s) \<Rightarrow> (None, s))"

text \<open>One message taken from the mailbox: the error it ends with, if any, and the state afterwards.\<close>

fun channel_handle ::
  "'m ledger_lib \<Rightarrow> libra \<Rightarrow> env \<Rightarrow> channel_message \<Rightarrow> 'm channel \<Rightarrow> chan_error option \<times> 'm channel" where
  "channel_handle A L E (MsgExecute op args) c = outcome (handle_execute L E op args c)"
| "channel_handle A L E (MsgCollect proposal sigs) c = outcome (handle_collect A L E proposal sigs c)"
| "channel_handle A L E (MsgGrant i) c = outcome (handle_grant L E i c)"
| "channel_handle A L E (MsgCancel i) c = outcome (handle_cancel L E i c)"
| "channel_handle A L E MsgApply c = outcome (handle_apply_pending A L E c)"
| "channel_handle A L E (MsgAccess path) c = outcome (handle_accessing_resource path c)"
| "channel_handle A L E MsgGetPending c = outcome (handle_get_pending c)"
| "channel_handle A L E (MsgWatchAndApply sender seq) c = outcome (handle_watch_and_apply A L E sender seq c)"
| "channel_handle A L E (MsgLockTimeout h t) c = outcome (handle_lock_timeout A L E h t c)"
| "channel_handle A L E (MsgStageChange v) c = outcome (handle_stage_change A L E v c)"
| "channel_handle A L E MsgStarted c = outcome (started A L E c)"

text \<open>A channel without a pending transaction is loaded and brought up to date with the chain; then
  messages arrive, each in an environment of its own.\<close>

definition channel_init :: "'m ledger_lib \<Rightarrow> libra \<Rightarrow> 'm channel \<Rightarrow> bool" where
  "channel_init A L c \<longleftrightarrow>
     (\<exists>ok ca aa ps db sk pk reg E by_seq c0. db_pending db = None \<and>
        channel_load A L ok ca aa ps db sk pk reg = Inr c0 \<and> bootstrap A E by_seq c0 = (Inr (), c))"

definition channel_step :: "'m ledger_lib \<Rightarrow> libra \<Rightarrow> 'm channel \<Rightarrow> 'm channel \<Rightarrow> bool" where
  "channel_step A L c c' \<longleftrightarrow> (\<exists>E msg. snd (channel_handle A L E msg c) = c')"

lemma outcome_snd [simp]: "snd (outcome r) = snd r"
  by (auto simp: outcome_def split: prod.splits sum.splits)

lemma outcome_fst: "fst (outcome r) = (case fst r of Inl e \<Rightarrow> Some e | Inr _ \<Rightarrow> None)"
  by (auto simp: outcome_def split: prod.splits sum.splits)

lemma channel_step_inv:
  assumes "chan_inv L c" "channel_step A L c c'"
  shows "chan_inv L c'"
proof -
  obtain E msg where "c' = snd (channel_handle A L E msg c)" using assms(2) by (auto simp: channel_step_def)
  then show ?thesis
    using assms(1)
    by (cases msg)
       (simp_all add: handle_accessing_resource_def handle_get_pending_def
         keepsD [OF keeps_execute] keepsD [OF keeps_collect] keepsD [OF keeps_grant] keepsD [OF keeps_cancel]
         keepsD [OF keeps_apply_pending] keepsD [OF keeps_watch_and_apply] keepsD [OF keeps_lock_timeout]
         keepsD [OF keeps_stage_change] keepsD [OF keeps_started])
qed

lemma fold_PutKey_pending: "db_pending (fold db_write1 (map (\<lambda>a. PutKey a None) ps) d) = db_pending d"
  by (simp add: fold_PutKey_None)

lemma channel_load_pending:
  assumes "channel_load A L ok ca aa ps db sk pk reg = Inr c" "db_pending db = None"
  shows "ch_pending c = None \<and> db_pending (s_db (ch_store c)) = None"
  using assms
  by (auto simp: channel_load_def channel_store_new_def panicking_def try_bind_Inr_iff Let_def write_schemas_def
      fold_PutKey_pending split: sum.splits chan_error.splits if_splits)

lemma bootstrap_store: "ch_store (snd (bootstrap A E by_seq c)) = ch_store c"
  by (auto simp: bootstrap_def Let_def act_update_def split: sum.splits option.splits applied_channel_txn.splits)

lemma channel_init_inv: "channel_init A L c \<Longrightarrow> chan_inv L c"
  by (auto simp: channel_init_def chan_inv_def dest!: channel_load_pending) (metis bootstrap_store snd_conv option.distinct(1))+

interpretation channel_machine: inductive_invariant "channel_init A L" "channel_step A L" "chan_inv L" for A L
  by unfold_locales (auto intro: channel_init_inv channel_step_inv)

section \<open>What is applied\<close>

lemma fold_no_txn: "\<forall>w \<in> set ws. \<forall>v t. w \<noteq> PutTxn v t \<Longrightarrow> db_txns (fold db_write1 ws d) = db_txns d"
proof (induction ws arbitrary: d)
  case (Cons w ws)
  then have "db_txns (db_write1 w d) = db_txns d" by (cases w) auto
  with Cons show ?case by simp
qed simp

lemma save_tx_impl_writes:
  assumes "save_tx_impl A pseq d tx v = Inr (h, ws)" "applied_seq pseq (tc_txn tx) = Inr n"
  shows "\<exists>ws1 a ws2. ws = ws1 @ [PutTxnByAccount (a, n) v, PutTxn v (tc_txn tx)] @ ws2 \<and> (\<forall>w \<in> set ws2. \<forall>v t. w \<noteq> PutTxn v t)"
proof -
  obtain r ws1 tw r2 iw where
    "put_transaction pseq v (tc_txn tx) = Inr tw" "put_tx_info A d v
        \<lparr>ti_signed_transaction_hash = hash_applied_txn A (tc_txn tx), ti_write_set_root_hash = r,
         ti_event_root_hash = hash_default A, ti_major_status = tc_major_status tx,
         ti_travel = applied_travel (tc_txn tx), ti_gas_used = tc_gas_used tx\<rparr> = Inr (r2, iw)" "ws = ws1 @ tw @ iw"
    using assms(1) by (auto simp: save_tx_impl_def try_bind_Inr_iff)
  then show ?thesis using assms(2)
    by (intro exI [of _ ws1] exI [of _ "case applied_proposer (tc_txn tx) of Inr a \<Rightarrow> a"] exI [of _ iw])
       (auto simp: put_transaction_def put_tx_info_def try_bind_Inr_iff)
qed

lemma tx_apply_stores:
  assumes "tx_apply A pseq ok now tx (ta, s) = Inr (ta', s')" "applied_seq pseq (tc_txn tx) = Inr n"
  shows "map_of (db_txns (s_db s')) n = Some (tc_txn tx)"
proof -
  obtain h ws d where i: "save_tx_impl A pseq (s_db s) tx n = Inr (h, ws)"
    and s': "db_txns (s_db s') = db_txns (fold db_write1 ws d)"
    using assms by (auto simp: tx_apply_def save_tx_def write_schemas_def Let_def try_bind_Inr_iff split: if_splits)
  obtain ws1 a ws2 where "ws = ws1 @ [PutTxnByAccount (a, n) n, PutTxn n (tc_txn tx)] @ ws2"
    "\<forall>w \<in> set ws2. \<forall>v t. w \<noteq> PutTxn v t" using save_tx_impl_writes [OF i assms(2)] by blast
  with s' show ?thesis by (simp add: fold_no_txn)
qed

section \<open>Agreement\<close>

lemma agreed_signature:
  assumes "handle_proposal_signature L m p i s = Inr q" "consensus_reached p"
  shows "q = p"
  using assms
  by (auto simp: handle_proposal_signature_def try_bind_Inr_iff Let_def consensus_reached_def lifecycle_order
      split: if_splits proposal_lifecycle.splits)

lemma new_proposal_pending:
  "handle_new_proposal L chain m (Some p) proposal = Inr q \<Longrightarrow> q = Some p"
  by (auto simp: handle_new_proposal_def try_bind_Inr_iff split: if_splits)

lemma agreed_collect:
  assumes "collect_signature L chain m (Some p) proposal s = Inr q" "consensus_reached p"
  shows "q = p"
  using assms by (auto simp: collect_signature_def try_bind_Inr_iff dest!: new_proposal_pending agreed_signature split: if_splits)

lemma save_same: "ch_pending c = Some p \<Longrightarrow> save_pending_txn E p c = (Inr (), c)"
  by (simp add: save_pending_txn_def)

fun negotiation :: "channel_message \<Rightarrow> bool" where
  "negotiation (MsgExecute _ _) = True"
| "negotiation (MsgCollect _ _) = True"
| "negotiation (MsgGrant _) = True"
| "negotiation (MsgCancel _) = True"
| "negotiation (MsgAccess _) = True"
| "negotiation MsgGetPending = True"
| "negotiation _ = False"

lemma agreed_execute:
  assumes "ch_pending c = Some p" "consensus_reached p"
  shows "snd (handle_execute L E op args c) = c"
  using assms
  by (auto simp: handle_execute_def Let_def try_bind_Inr_iff save_same dest!: new_proposal_pending agreed_signature
      split: sum.splits)

lemma agreed_handle_collect:
  assumes "ch_pending c = Some p" "consensus_reached p"
  shows "snd (handle_collect A L E proposal s c) = c"
  using assms
  by (auto simp: handle_collect_def save_same dest!: agreed_collect split: sum.splits option.splits applied_channel_txn.splits)

lemma agreed_by_id:
  assumes "ch_pending c = Some p" "consensus_reached p"
  shows "\<exists>e. pending_by_id L c i = Inl e"
  using assms by (cases "i = hash_channel_txn L (channel_txn (pt_proposal p))") (simp_all add: pending_by_id_def ensure_def ok_or_def)

lemma agreed_negotiation:
  assumes "ch_pending c = Some p" "consensus_reached p" "negotiation msg"
  shows "snd (channel_handle A L E msg c) = c"
proof (cases msg)
  case (MsgGrant i)
  then show ?thesis using agreed_by_id [OF assms(1,2), of L i] by (auto simp: handle_grant_def)
next
  case (MsgCancel i)
  then show ?thesis using agreed_by_id [OF assms(1,2), of L i] by (auto simp: handle_cancel_def)
qed (use assms in \<open>simp_all add: agreed_execute agreed_handle_collect handle_accessing_resource_def handle_get_pending_def\<close>)

lemma apply_offchain:
  assumes "handle_apply_pending A L E c = (Inr None, c')"
  obtains p where "ch_pending c = Some p" "pt_lifecycle p = Agreed" "\<not> is_travel_txn (pt_output p)"
    "channel_apply A L E (p\<lparr>pt_lifecycle := Applying\<rparr>) c = (Inr (), c')"
proof -
  obtain p where p: "ch_pending c = Some p" "pt_lifecycle p = Negotiating \<or> pt_lifecycle p = Agreed"
    using assms by (auto simp: handle_apply_pending_def try_bind_Inr_iff split: sum.splits)
  define q where "q = handle_apply_proposal p"
  have run: "(case pt_lifecycle q of
          Applying \<Rightarrow> act_bind (channel_apply A L E q) (\<lambda>_. act_lift (Inr None))
        | Traveling \<Rightarrow> send_travel L E q
        | _ \<Rightarrow> act_lift (Inl (Panic ''unreachable''))) c = (Inr None, c')"
    using assms p unfolding q_def by (auto simp: handle_apply_pending_def ok_or_def ensure_def)
  have l: "pt_lifecycle q = Applying"
  proof (cases "pt_lifecycle q")
    case Traveling
    with run have "send_travel L E q c = (Inr None, c')" by simp
    then show ?thesis unfolding send_travel_def Let_def act_bind_Inr_iff by (auto simp: act_lift_def)
  qed (use run in \<open>simp_all add: act_lift_def\<close>)
  then have "consensus_reached p" "\<not> is_travel_txn (pt_output p)" "q = p\<lparr>pt_lifecycle := Applying\<rparr>"
    by (auto simp: q_def handle_apply_proposal_def split: if_splits)
  moreover have "channel_apply A L E q c = (Inr (), c')"
    using run l by (simp add: act_bind_Inr_iff act_lift_def)
  ultimately show thesis using that p by (auto simp: consensus_reached_def lifecycle_order)
qed

section \<open>A small instance\<close>

definition sample_env :: env where
  "sample_env = \<lparr>env_chain = sample_chain, env_watch = \<lambda>_ _. Inr None, env_txn_at = \<lambda>_. Inr None,
     env_submit = \<lambda>_. Inr (), env_interest = Inr (), env_notify = True, env_expiration = duration_from_secs 60,
     env_now = 7, env_disk_pending = \<lambda>_. True, env_disk_apply = True\<rparr>"

definition sample_channel :: "bytes \<Rightarrow> hash_value list channel" where
  "sample_channel me =
     projr (channel_load flat_ledger (sample_libra False) True [9] me (Some [[1], [2]]) channel_db_empty me me [])"

definition sample_run :: "bytes \<Rightarrow> channel_message list \<Rightarrow> hash_value list channel" where
  "sample_run me msgs =
     fold (\<lambda>msg c. snd (channel_handle flat_ledger (sample_libra False) sample_env msg c)) msgs (sample_channel me)"

abbreviation sample_reach :: "hash_value list channel \<Rightarrow> bool" where
  "sample_reach \<equiv> reach (channel_init flat_ledger (sample_libra False)) (channel_step flat_ledger (sample_libra False))"

lemma sample_channel_init:
  assumes "me = [1] \<or> me = [2]"
  shows "channel_init flat_ledger (sample_libra False) (sample_channel me)"
proof -
  have "\<forall>me \<in> set [[1], [2]]. \<not> isl (channel_load flat_ledger (sample_libra False) True [9] me (Some [[1], [2]]) channel_db_empty me me [])"
    by code_simp
  then have load: "channel_load flat_ledger (sample_libra False) True [9] me (Some [[1], [2]]) channel_db_empty me me []
      = Inr (sample_channel me)" using assms by (auto simp: sample_channel_def sum.collapse)
  have "\<forall>me \<in> set [[1], [2]]. s_latest_ledger_info (ch_store (sample_channel me)) = None" by code_simp
  then have "bootstrap flat_ledger sample_env (\<lambda>_ _. Inr None) (sample_channel me) = (Inr (), sample_channel me)"
    using assms by (auto simp: bootstrap_def get_startup_info_def act_lift_def)
  moreover have "db_pending channel_db_empty = None" by (simp add: channel_db_empty_def)
  ultimately show ?thesis unfolding channel_init_def using load by blast
qed

lemma sample_run_reach: "me = [1] \<or> me = [2] \<Longrightarrow> sample_reach (sample_run me msgs)"
proof (induction msgs rule: rev_induct)
  case (snoc msg msgs)
  then show ?case by (auto simp: sample_run_def channel_step_def intro: reach_step)
qed (simp add: sample_run_def reach_init sample_channel_init)

lemma sample_run_1: "sample_reach (sample_run [1] msgs)"
  by (rule sample_run_reach) simp

abbreviation sample_agreed :: "channel_message list" where
  "sample_agreed \<equiv> [MsgExecute OpOpen [], MsgCollect (pt_proposal (sample_pending [] Created)) (sample_sigs [2])]"

section \<open>Properties\<close>

text \<open>C7. In every reachable state of a channel, the pending transaction is on disk as it is in memory,
  every signature it carries was verified against the channel's state, under the address it is
  filed under, and when it counts as agreed all participants, and nobody else, have signed.\<close>

theorem pending_verified:
  assumes "reach (channel_init A L) (channel_step A L) c" "ch_pending c = Some p"
  shows "db_pending (s_db (ch_store c)) = Some p \<and>
    (\<forall>(a, s) \<in> set (pt_signatures p). sig_address s = a \<and> verify_txn_sigs L (ch_stm c) p s = Inr ()) \<and>
    (pt_lifecycle p = Agreed \<longrightarrow>
       length (pt_signatures p) = length (participant_addresses (ch_stm c)) \<and>
       (\<forall>a \<in> set (participant_addresses (ch_stm c)). get_signature a p \<noteq> None))"
proof -
  have "chan_inv L c" by (rule channel_machine.reach_inv [OF assms(1)])
  then show ?thesis using assms(2)
    by (auto simp: chan_inv_def pending_inv_def pending_ok_def sigs_verified_def signed_by_all_def get_signature_def bt_contains_def)
qed

theorem pending_verified_witness:
  "\<exists>p. ch_pending (sample_run [1] sample_agreed) = Some p \<and> pt_lifecycle p = Agreed \<and>
     db_pending (s_db (ch_store (sample_run [1] sample_agreed))) = Some p \<and> get_signature [2] p \<noteq> None"
proof -
  have "ch_pending (sample_run [1] sample_agreed) = Some (sample_pending [[1], [2]] Agreed)" by code_simp
  moreover have "[2] \<in> set (participant_addresses (ch_stm (sample_run [1] sample_agreed)))" by code_simp
  moreover have "pt_lifecycle (sample_pending [[1], [2]] Agreed) = Agreed" by code_simp
  ultimately show ?thesis using pending_verified [OF sample_run_1] by blast
qed

text \<open>C1. A transaction is applied off the chain only by consent: when handling \<open>ApplyPendingTxn\<close> in a
  reachable state ends without sending anything to the chain, the pending transaction was agreed
  and need not travel, each participant's verified signature is in it, and exactly that transaction
  is in the ledger under its sequence number, with nothing pending any more.\<close>

theorem offchain_unanimous:
  assumes "reach (channel_init A L) (channel_step A L) c" "handle_apply_pending A L E c = (Inr None, c')"
  shows "\<exists>p. ch_pending c = Some p \<and> pt_lifecycle p = Agreed \<and> \<not> is_travel_txn (pt_output p) \<and>
    (\<forall>a \<in> set (participant_addresses (ch_stm c)).
       \<exists>s. get_signature a p = Some s \<and> sig_address s = a \<and> verify_txn_sigs L (ch_stm c) p s = Inr ()) \<and>
    map_of (db_txns (s_db (ch_store c'))) (ct_channel_sequence_number (channel_txn (pt_proposal p))) =
      Some (Offchain \<lparr>raw_tx = channel_txn (pt_proposal p), sct_signatures = pt_signatures p\<rparr>) \<and>
    ch_pending c' = None \<and> ch_effects c' = ch_effects c"
proof -
  obtain p where p: "ch_pending c = Some p" "pt_lifecycle p = Agreed" "\<not> is_travel_txn (pt_output p)"
    "channel_apply A L E (p\<lparr>pt_lifecycle := Applying\<rparr>) c = (Inr (), c')" by (rule apply_offchain [OF assms(2)])
  have ok: "pending_ok L (ch_stm c) p"
    using channel_machine.reach_inv [OF assms(1)] p(1) by (simp add: chan_inv_def pending_inv_def)
  have sigs: "\<exists>s. get_signature a p = Some s \<and> sig_address s = a \<and> verify_txn_sigs L (ch_stm c) p s = Inr ()"
    if "a \<in> set (participant_addresses (ch_stm c))" for a
    using ok p(2) that
    by (fastforce simp: pending_ok_def signed_by_all_def sigs_verified_def bt_contains_def get_signature_def dest: map_of_SomeD)
  let ?tx = "\<lparr>tc_txn = Offchain \<lparr>raw_tx = channel_txn (pt_proposal p), sct_signatures = pt_signatures p\<rparr>,
        tc_write_set = out_write_set (pt_output p), tc_events = out_events (pt_output p),
        tc_major_status = out_major_status (pt_output p), tc_gas_used = out_gas_used (pt_output p)\<rparr>"
  obtain ta s where tx: "tx_apply A (payload_sequence_number L) (env_disk_apply E) (env_now E) ?tx (ch_applier c, ch_store c) = Inr (ta, s)"
    and c': "ch_store c' = s" "ch_effects c' = ch_effects c"
    using p(4) by (auto simp: channel_apply_def apply_and_advance_def split: sum.splits)
  show ?thesis
    using p sigs tx_apply_stores [OF tx, of "ct_channel_sequence_number (channel_txn (pt_proposal p))"] tx_apply_clears [OF tx] c'
    by simp
qed

theorem offchain_unanimous_witness:
  "\<exists>c' p. handle_apply_pending flat_ledger (sample_libra False) sample_env (sample_run [1] sample_agreed) = (Inr None, c') \<and>
     ch_pending (sample_run [1] sample_agreed) = Some p \<and> (\<exists>s. get_signature [2] p = Some s) \<and> ch_pending c' = None"
proof -
  define c where "c = sample_run [1] sample_agreed"
  have "fst (handle_apply_pending flat_ledger (sample_libra False) sample_env (sample_run [1] sample_agreed)) = Inr None"
    "[2] \<in> set (participant_addresses (ch_stm (sample_run [1] sample_agreed)))" by code_simp+
  then have r: "fst (handle_apply_pending flat_ledger (sample_libra False) sample_env c) = Inr None"
    and two: "[2] \<in> set (participant_addresses (ch_stm c))" by (simp_all only: c_def)
  obtain c' where c': "handle_apply_pending flat_ledger (sample_libra False) sample_env c = (Inr None, c')"
    using r by (cases "handle_apply_pending flat_ledger (sample_libra False) sample_env c") simp
  have reach: "sample_reach c" unfolding c_def by (rule sample_run_1)
  obtain p where p: "ch_pending c = Some p" "ch_pending c' = None"
    and sigs: "\<forall>a \<in> set (participant_addresses (ch_stm c)). \<exists>s. get_signature a p = Some s \<and> sig_address s = a \<and>
      verify_txn_sigs (sample_libra False) (ch_stm c) p s = Inr ()"
    using offchain_unanimous [OF reach c'] by (elim exE conjE)
  from bspec [OF sigs two] have "\<exists>s. get_signature [2] p = Some s" by (elim exE conjE) (rule exI)
  with c' p show ?thesis unfolding c_def by (rule_tac x = c' in exI, rule_tac x = p in exI) (intro conjI)
qed

text \<open>C12. Once a transaction is agreed, no message of the negotiation changes the channel: a further
  proposal, signature, grant or cancellation leaves the whole state as it is.\<close>

theorem agreement_final:
  assumes "ch_pending c = Some p" "consensus_reached p" "negotiation msg"
  shows "snd (channel_handle A L E msg c) = c"
  by (rule agreed_negotiation [OF assms])

theorem agreement_final_witness:
  "\<exists>c. sample_reach c \<and> c = sample_run [1] sample_agreed \<and>
     snd (channel_handle flat_ledger (sample_libra False) sample_env (MsgCancel [0, 60]) c) = c"
proof -
  define c p where "c = sample_run [1] sample_agreed" and "p = sample_pending [[1], [2]] Agreed"
  have "ch_pending (sample_run [1] sample_agreed) = Some (sample_pending [[1], [2]] Agreed)"
    "consensus_reached (sample_pending [[1], [2]] Agreed)" by code_simp+
  then have "ch_pending c = Some p" "consensus_reached p" by (simp_all only: c_def p_def)
  moreover have "negotiation (MsgCancel [0, 60])" by simp
  ultimately have "snd (channel_handle flat_ledger (sample_libra False) sample_env (MsgCancel [0, 60]) c) = c"
    by (rule agreement_final)
  moreover have "sample_reach c" unfolding c_def by (rule sample_run_1)
  ultimately show ?thesis using c_def by (rule_tac x = c in exI) (intro conjI)
qed

text \<open>C33. A valid signature that arrives late takes the actor down: when the pending transaction is
  already agreed or travelling, collecting a verified signature of an address that has not signed
  reaches code marked unreachable. Membership in the channel is not asked for: the instance below
  is a stranger's signature in a reachable state.\<close>

theorem late_signature_panics:
  assumes "ch_pending c = Some p" "consensus_reached p" "get_signature (sig_address s) p = None"
    and "verify_txn_sigs L (ch_stm c) p s = Inr ()"
    and "hash_channel_txn L (channel_txn proposal) = hash_channel_txn L (channel_txn (pt_proposal p))"
    and "channel_sequence_number L (ch_stm c) = Inr n" "n \<le> ct_channel_sequence_number (channel_txn proposal)"
    and "check_applied A (ch_store c) (ct_channel_sequence_number (channel_txn proposal)) = Inr None"
  shows "fst (handle_collect A L E proposal s c) = Inl (Panic ''unreachable'')"
proof -
  have "handle_new_proposal L (env_chain E) (ch_stm c) (ch_pending c) proposal = Inr (Some p)"
    using assms by (simp add: handle_new_proposal_def not_less)
  moreover have "handle_proposal_signature L (ch_stm c) p (hash_channel_txn L (channel_txn (pt_proposal p))) s = Inl (Panic ''unreachable'')"
    using assms(2-4)
    by (cases "pt_lifecycle p") (simp_all add: handle_proposal_signature_def ensure_def Let_def consensus_reached_def lifecycle_order)
  ultimately show ?thesis using assms(8) by (simp add: handle_collect_def collect_signature_def ok_or_def)
qed

theorem late_signature_panics_witness:
  "sample_reach (sample_run [1] sample_agreed) \<and>
   fst (handle_collect flat_ledger (sample_libra False) sample_env (pt_proposal (sample_pending [] Created)) (sample_sigs [3])
     (sample_run [1] sample_agreed)) = Inl (Panic ''unreachable'')"
proof -
  let ?c = "sample_run [1] sample_agreed" and ?p = "sample_pending [[1], [2]] Agreed"
  have "ch_pending ?c = Some ?p" "consensus_reached ?p" "get_signature (sig_address (sample_sigs [3])) ?p = None"
    "verify_txn_sigs (sample_libra False) (ch_stm ?c) ?p (sample_sigs [3]) = Inr ()"
    "channel_sequence_number (sample_libra False) (ch_stm ?c) = Inr 0"
    "check_applied flat_ledger (ch_store ?c) (ct_channel_sequence_number (channel_txn (pt_proposal (sample_pending [] Created)))) = Inr None"
    "hash_channel_txn (sample_libra False) (channel_txn (pt_proposal (sample_pending [] Created))) =
       hash_channel_txn (sample_libra False) (channel_txn (pt_proposal ?p))"
    "0 \<le> ct_channel_sequence_number (channel_txn (pt_proposal (sample_pending [] Created)))"
    by code_simp+
  note facts = this
  have "fst (handle_collect flat_ledger (sample_libra False) sample_env (pt_proposal (sample_pending [] Created)) (sample_sigs [3]) ?c)
      = Inl (Panic ''unreachable'')"
    by (rule late_signature_panics [OF facts(1-4,7,5,8,6)])
  with sample_run_1 show ?thesis by (rule conjI)
qed

end
