(* ===== verification/Channel_Restart.thy ===== *)
theory Channel_Restart
  imports Channel_Correct
begin

text \<open>
  Stopping and starting a channel. The state machine of a channel is a function of its store and of
  the chain's state at the last transaction that travelled; loading the channel from its database
  and bootstrapping it rebuilds exactly that state machine.
\<close>

section \<open>The state machine and the store\<close>

definition stm_matches :: "'m channel \<Rightarrow> bool" where
  "stm_matches c \<longleftrightarrow>
     stm_witness (ch_stm c) = latest_witness_or_default (ch_store c) \<and>
     participant_keys (ch_stm c) = get_participant_keys (ch_store c) \<and>
     participant_addresses (ch_stm c) = store_participant_addresses (ch_store c)"

text \<open>The account state the state machine works on is the one at the last transaction that
  travelled, as the chain reports it; before any transaction it is empty.\<close>

definition anchored ::
  "env \<Rightarrow> (account_address \<Rightarrow> u64 \<Rightarrow> chan_error + chain_txn option) \<Rightarrow> transaction_to_commit list \<Rightarrow> channel_stm \<Rightarrow> bool" where
  "anchored E by_seq txs m \<longleftrightarrow>
     (if txs = [] then stm_channel_state m = channel_state_empty (channel_address m)
      else (case tc_txn (txs ! unat (epoch_of txs)) of
              Offchain _ \<Rightarrow> False
            | Travel t \<Rightarrow>
                (case by_seq (rt_sender (st_raw_txn t)) (rt_sequence_number (st_raw_txn t)) of
                   Inr (Some x) \<Rightarrow>
                     (case get_account_state (env_chain E) (channel_address m) (Some (cx_version x)) of
                        Inr st \<Rightarrow> stm_channel_state m = new_channel_state (channel_address m) st
                      | Inl _ \<Rightarrow> False)
                 | _ \<Rightarrow> False)))"

abbreviation known_keys :: "(account_address \<times> public_key option) list \<Rightarrow> (account_address \<times> public_key) list" where
  "known_keys t \<equiv> List.map_filter (\<lambda>(a, k). map_option (Pair a) k) t"

lemma known_keys_Cons: "known_keys ((a, k) # t) = (case k of None \<Rightarrow> known_keys t | Some x \<Rightarrow> (a, x) # known_keys t)"
  by (simp add: List.map_filter_simps split: option.splits)

lemma in_map_filter: "y \<in> set (List.map_filter f xs) \<longleftrightarrow> (\<exists>x \<in> set xs. f x = Some y)"
  by (induction xs) (auto simp: List.map_filter_simps split: option.splits)

lemma known_keys_subset: "fst ` set (known_keys t) \<subseteq> fst ` set t"
  by (auto simp: in_map_filter intro: rev_image_eqI)

lemma map_of_known_keys:
  "distinct (map fst t) \<Longrightarrow> map_of (known_keys t) x = (case map_of t x of Some k \<Rightarrow> k | None \<Rightarrow> None)"
proof (induction t)
  case (Cons y t)
  obtain a k where y: "y = (a, k)" by (cases y)
  have "map_of t a = None" using Cons.prems y by (simp add: map_of_eq_None_iff)
  with Cons y show ?case by (cases k; cases "x = a") (simp_all add: known_keys_Cons)
qed (simp add: List.map_filter_simps)

lemma known_keys_wf: "bt_wf t \<Longrightarrow> bt_wf (known_keys t)"
proof (induction t)
  case (Cons y t)
  obtain a k where y: "y = (a, k)" by (cases y)
  have "\<forall>b \<in> fst ` set t. a < b" "bt_wf t" using Cons.prems unfolding y bt_wf_Cons by simp_all
  moreover from this have "\<forall>b \<in> fst ` set (known_keys t). a < b" using known_keys_subset [of t] by blast
  ultimately show ?case using Cons.IH by (cases k) (simp_all add: y known_keys_Cons)
qed (simp add: List.map_filter_simps)

lemma epoch_index:
  assumes "txs \<noteq> []" "length txs < 2 ^ 64"
  shows "unat (epoch_of txs) < length txs"
  using assms
proof (induction txs rule: rev_induct)
  case (snoc tx txs)
  show ?case
  proof (cases "txs = []")
    case True
    then show ?thesis by (simp add: epoch_of_def)
  next
    case False
    with snoc have "unat (epoch_of txs) < length txs" by simp
    moreover have "unat (of_nat (length txs) :: u64) = length txs" using snoc.prems by (intro unat_len) simp
    ultimately show ?thesis by (simp add: epoch_of_snoc)
  qed
qed simp

section \<open>Applying keeps the match\<close>

lemma updated_keys_some: "(a, k) \<in> set (updated_keys old new) \<Longrightarrow> k \<noteq> None \<and> a \<in> fst ` set old"
  by (auto simp: updated_keys_def in_map_filter split: if_splits dest: set_zip_leftD intro: rev_image_eqI)

lemma updated_keys_subset: "fst ` set (updated_keys old new) \<subseteq> fst ` set old"
  using updated_keys_some by fastforce

lemma updated_keys_distinct: "distinct (map fst old) \<Longrightarrow> distinct (map fst (updated_keys old new))"
proof (induction old arbitrary: new)
  case (Cons y old)
  obtain a k where y: "y = (a, k)" by (cases y)
  have IH: "distinct (map fst (updated_keys old ns))" for ns using Cons by simp
  show ?case
  proof (cases new)
    case (Cons n ns)
    have "a \<notin> fst ` set (updated_keys old ns)" using \<open>distinct (map fst (y # old))\<close> updated_keys_subset [of old ns] by (auto simp: y)
    moreover have "updated_keys (y # old) new = (if k = Some n then updated_keys old ns else (a, Some n) # updated_keys old ns)"
      by (simp add: updated_keys_def List.map_filter_simps Cons y)
    ultimately show ?thesis using IH [of ns] by simp
  qed (simp add: updated_keys_def List.map_filter_simps)
qed (simp add: updated_keys_def List.map_filter_simps)

lemma bt_append_supersedes:
  assumes "bt_wf s" "bt_wf t" "dom (map_of s) \<subseteq> dom (map_of t)"
  shows "bt_append s t = t"
proof (rule bt_ext)
  show "map_of (bt_append s t) = map_of t"
    unfolding map_of_bt_append [OF bt_wf_distinct [OF assms(2)]]
    using assms(3) by (intro ext) (auto simp: map_add_def dom_def split: option.splits)
qed (use assms in auto)

lemma tx_apply_keys:
  assumes "tx_apply A pseq ok now tx (ta, s) = Inr (ta', s')" "applied_keys (tc_txn tx) = Inr ks"
  shows "s_participant_keys s' = bt_append (s_participant_keys s) (updated_keys (s_participant_keys s) ks)"
  using assms by (auto simp: tx_apply_def save_tx_def Let_def try_bind_Inr_iff)

lemma tx_apply_new_keys:
  assumes "tx_apply A pseq ok now tx (ta, s) = Inr (ta', s')"
  obtains ks where "s_participant_keys s' = bt_append (s_participant_keys s) (updated_keys (s_participant_keys s) ks)"
proof -
  obtain ks where "applied_keys (tc_txn tx) = Inr ks"
    using assms by (auto simp: tx_apply_def save_tx_def Let_def try_bind_Inr_iff)
  with that show thesis using tx_apply_keys [OF assms] by blast
qed

lemma apply_keeps_match:
  assumes A: "accumulator_ok A rooth acc_rep mem_rep"
    and R: "represents A (payload_sequence_number L) rooth acc_rep mem_rep txs (ch_applier c) (ch_store c)"
    and M: "stm_matches c" and ok: "apply_and_advance A L E tx cs c = (Inr (), c')"
  shows "stm_matches c'"
proof -
  let ?k = "s_participant_keys (ch_store c)" and ?pseq = "payload_sequence_number L"
  obtain ta s where t: "tx_apply A ?pseq (env_disk_apply E) (env_now E) tx (ch_applier c, ch_store c) = Inr (ta, s)"
    and c': "ch_store c' = s" "ch_stm c' = advance_state cs (latest_witness_or_default s) (get_participant_keys s) (ch_stm c)"
    using ok by (auto simp: apply_and_advance_def split: sum.splits)
  obtain ks where ks: "s_participant_keys s = bt_append ?k (updated_keys ?k ks)"
    by (rule tx_apply_new_keys [OF t])
  have wf: "bt_wf ?k" "bt_wf (s_participant_keys s)" using R ks by (auto simp: represents_def)
  have "set (map fst (s_participant_keys s)) = set (map fst ?k)" 
    using updated_keys_subset [of ?k ks] unfolding ks set_map keys_bt_append by blast
  moreover have "sorted_wrt (<) (map fst (s_participant_keys s))" "sorted_wrt (<) (map fst ?k)" using wf by (simp_all add: bt_wf_def)
  ultimately have addr: "map fst (s_participant_keys s) = map fst ?k" by (simp add: strict_sorted_equal)
  have dist: "distinct (map fst (updated_keys ?k ks))" using wf(1) by (intro updated_keys_distinct bt_wf_distinct)
  have "dom (map_of (known_keys ?k)) \<subseteq> dom (map_of (known_keys (s_participant_keys s)))"
  proof
    fix a assume "a \<in> dom (map_of (known_keys ?k))"
    then obtain x where x: "map_of ?k a = Some (Some x)"
      by (auto simp: map_of_known_keys [OF bt_wf_distinct [OF wf(1)]] split: option.splits)
    have "\<exists>y. map_of (s_participant_keys s) a = Some (Some y)"
      unfolding ks map_of_bt_append [OF dist] using x updated_keys_some [of a _ ?k ks]
      by (cases "map_of (updated_keys ?k ks) a") (auto simp: map_add_def dest: map_of_SomeD)
    then show "a \<in> dom (map_of (known_keys (s_participant_keys s)))"
      by (auto simp: map_of_known_keys [OF bt_wf_distinct [OF wf(2)]])
  qed
  then have "bt_append (known_keys ?k) (known_keys (s_participant_keys s)) = known_keys (s_participant_keys s)"
    using known_keys_wf wf by (intro bt_append_supersedes) simp_all
  with M addr show ?thesis
    by (simp add: stm_matches_def c' advance_state_def get_participant_keys_def store_participant_addresses_def)
qed

lemma startup_info:
  assumes A: "accumulator_ok A rooth acc_rep mem_rep" and R: "represents A pseq rooth acc_rep mem_rep txs ta s"
  shows "if txs = [] then get_startup_info A s = Inr None
    else \<exists>i. get_startup_info A s = Inr (Some i) \<and> li_epoch (si_ledger_info i) = epoch_of txs"
proof (cases "txs = []")
  case True
  with R show ?thesis by (auto simp: represents_def latest_ok_def get_startup_info_def split: option.splits)
next
  case False
  obtain l where l: "s_latest_ledger_info s = Some l" "li_epoch l = epoch_of txs" "li_version l = of_nat (length txs - 1)"
    "li_version l + 1 = of_nat (length txs)" using latest_version [OF R False] by metis
  have acc: "acc_rep (map_of (db_accumulator (s_db s))) (map (leaf A rooth) txs)"
    and t: "db_infos (s_db s) = table (info_of A rooth) txs" using R by (simp_all add: represents_def)
  obtain fs where "acc_frozen A (map_of (db_accumulator (s_db s))) (of_nat (length txs)) = Inr fs"
    using accumulator_frozen [OF A acc] False by auto
  with l t last_table [OF False, of "info_of A rooth"] False show ?thesis
    by (simp add: get_startup_info_def get_latest_transaction_info_def ok_or_def)
qed

text \<open>Bootstrapping a freshly loaded state machine gives the anchored one.\<close>

lemma bootstrap_anchored:
  assumes A: "accumulator_ok A rooth acc_rep mem_rep" and R: "represents A pseq rooth acc_rep mem_rep txs ta (ch_store c0)"
    and c0: "ch_stm c0 = channel_stm_new (channel_address m) (account_address m) (participant_addresses m)
      (stm_private_key m) (stm_public_key m) (script_registry m)"
    and m: "stm_witness m = latest_witness_or_default (ch_store c0)" "participant_keys m = get_participant_keys (ch_store c0)"
    and wf: "bt_wf (s_participant_keys (ch_store c0))"
    and an: "anchored E by_seq txs m" "txs = [] \<longrightarrow> participant_keys m = []"
  shows "\<exists>c'. bootstrap A E by_seq c0 = (Inr (), c') \<and> ch_stm c' = m \<and> ch_store c' = ch_store c0 \<and> ch_applier c' = ch_applier c0"
proof (cases "txs = []")
  case True
  have "latest_witness_or_default (ch_store c0) = witness_default"
    using R True by (simp add: represents_def witness_ok_def latest_witness_or_default_def)
  then have "ch_stm c0 = m" using c0 m an True by (simp add: anchored_def channel_stm_new_def)
  then show ?thesis using startup_info [OF A R] True by (simp add: bootstrap_def act_lift_def)
next
  case False
  have n: "length txs < 2 ^ 64" using R by (simp add: represents_def)
  obtain t x st where t: "tc_txn (txs ! unat (epoch_of txs)) = Travel t"
      "by_seq (rt_sender (st_raw_txn t)) (rt_sequence_number (st_raw_txn t)) = Inr (Some x)"
      "get_account_state (env_chain E) (channel_address m) (Some (cx_version x)) = Inr st"
      "stm_channel_state m = new_channel_state (channel_address m) st"
    using an(1) False by (auto simp: anchored_def split: applied_channel_txn.split_asm sum.split_asm option.split_asm) (metis sumE)
  obtain i where i: "get_startup_info A (ch_store c0) = Inr (Some i)" "li_epoch (si_ledger_info i) = epoch_of txs"
    using startup_info [OF A R] False by auto
  obtain p where p: "get_transaction_by_channel_seq_number A (ch_store c0) (epoch_of txs) = Inr p" "tp_signed_transaction p = Travel t"
    using read_txn [OF A R epoch_index [OF False n]] t(1) by auto
  have "bt_append [] (get_participant_keys (ch_store c0)) = get_participant_keys (ch_store c0)"
    using known_keys_wf [OF wf] bt_of_list_id by (simp add: bt_of_list_def get_participant_keys_def)
  then have "advance_state (Some (new_channel_state (channel_address m) st)) (latest_witness_or_default (ch_store c0))
      (get_participant_keys (ch_store c0)) (ch_stm c0) = m"
    using m t(4) c0 by (simp add: advance_state_def channel_stm_new_def)
  moreover have "channel_address (ch_stm c0) = channel_address m" by (simp add: c0 channel_stm_new_def)
  ultimately show ?thesis
    by (simp add: bootstrap_def i p t(2,3) ok_or_def act_update_def)
qed

lemma apply_represents:
  assumes "accumulator_ok A rooth acc_rep mem_rep"
    and "represents A (payload_sequence_number L) rooth acc_rep mem_rep txs (ch_applier c) (ch_store c)"
    and "length txs < 2 ^ 64 - 1" "length (tc_write_set tx) < 2 ^ 64"
    and "applied_seq (payload_sequence_number L) (tc_txn tx) = Inr (of_nat (length txs))" "env_disk_apply E"
  shows "\<exists>c'. apply_and_advance A L E tx cs c = (Inr (), c') \<and>
    represents A (payload_sequence_number L) rooth acc_rep mem_rep (txs @ [tx]) (ch_applier c') (ch_store c')"
  using tx_apply_step [OF assms(1-5), of "env_now E"] assms(6) by (auto simp: apply_and_advance_def)

lemma apply_keeps_keys:
  assumes "apply_and_advance A L E tx cs c = (Inr (), c')"
  shows "fst ` set (s_participant_keys (ch_store c)) \<subseteq> fst ` set (s_participant_keys (ch_store c'))"
proof -
  obtain ta s where t: "tx_apply A (payload_sequence_number L) (env_disk_apply E) (env_now E) tx (ch_applier c, ch_store c) = Inr (ta, s)"
    and "ch_store c' = s" using assms by (auto simp: apply_and_advance_def split: sum.splits)
  then show ?thesis using tx_apply_new_keys [OF t] by (metis Un_upper1 keys_bt_append)
qed

lemma sample_fresh:
  "represents flat_ledger (payload_sequence_number (sample_libra False)) concat flat_rep (=) []
     (ch_applier (sample_channel me)) (ch_store (sample_channel me))"
proof -
  obtain s ta where "channel_store_new flat_ledger (payload_sequence_number (sample_libra False)) True [[1], [2]] channel_db_empty = Inr s"
    "tx_applier_new flat_ledger s = Inr ta"
    "represents flat_ledger (payload_sequence_number (sample_libra False)) concat flat_rep (=) [] ta s"
    using store_fresh [OF flat_ledger_ok] by blast
  then show ?thesis by (simp add: sample_channel_def channel_load_def panicking_def)
qed

section \<open>Properties\<close>

text \<open>C10. A channel survives a restart. Loading it from its database and bootstrapping it against a
  chain that still reports the last travelled transaction and the account state after it gives
  the same state machine, the same store, with the pending transaction as it was persisted, and an
  applier for the same ledger.\<close>

theorem channel_restart:
  assumes "accumulator_ok A rooth acc_rep mem_rep"
    and "represents A (payload_sequence_number L) rooth acc_rep mem_rep txs (ch_applier c) (ch_store c)"
    and "stm_matches c" "s_participant_keys (ch_store c) \<noteq> []" "txs = [] \<longrightarrow> participant_keys (ch_stm c) = []"
    and "anchored E by_seq txs (ch_stm c)"
  shows "\<exists>c0 c'. channel_load A L ok (channel_address (ch_stm c)) (account_address (ch_stm c)) ps (s_db (ch_store c))
      (stm_private_key (ch_stm c)) (stm_public_key (ch_stm c)) (script_registry (ch_stm c)) = Inr c0 \<and>
    bootstrap A E by_seq c0 = (Inr (), c') \<and> ch_stm c' = ch_stm c \<and>
    ch_store c' = (ch_store c)\<lparr>s_pending_txn := db_pending (s_db (ch_store c))\<rparr> \<and>
    represents A (payload_sequence_number L) rooth acc_rep mem_rep txs (ch_applier c') (ch_store c')"
proof -
  let ?pseq = "payload_sequence_number L" and ?m = "ch_stm c"
  define s where "s = (ch_store c)\<lparr>s_pending_txn := db_pending (s_db (ch_store c))\<rparr>"
  have new: "channel_store_new A ?pseq ok ps' (s_db (ch_store c)) = Inr s" for ps'
    unfolding s_def by (rule store_reopens [OF assms(1,2,4)])
  have R: "represents A ?pseq rooth acc_rep mem_rep txs (ch_applier c) s"
    
    using represents_pending [OF assms(2), of "db_pending (s_db (ch_store c))" "db_pending (s_db (ch_store c))"] by (simp add: s_def)
  obtain ta where ta: "tx_applier_new A s = Inr ta" "represents A ?pseq rooth acc_rep mem_rep txs ta s"
    using applier_reopens [OF assms(1) R] by blast
  define m0 where "m0 = channel_stm_new (channel_address ?m) (account_address ?m) (store_participant_addresses s)
    (stm_private_key ?m) (stm_public_key ?m) (script_registry ?m)"
  define c0 where "c0 = \<lparr>ch_store = s, ch_applier = ta, ch_stm = m0, ch_stopping = False, ch_effects = []\<rparr>"
  have load: "channel_load A L ok (channel_address ?m) (account_address ?m) ps (s_db (ch_store c))
      (stm_private_key ?m) (stm_public_key ?m) (script_registry ?m) = Inr c0"
    by (simp add: channel_load_def new ta panicking_def c0_def m0_def)
  have m: "stm_witness ?m = latest_witness_or_default s" "participant_keys ?m = get_participant_keys s"
      "participant_addresses ?m = store_participant_addresses s"
    using assms(3) by (simp_all add: s_def stm_matches_def latest_witness_or_default_def get_participant_keys_def
        store_participant_addresses_def)
  have "bt_wf (s_participant_keys s)" using R by (simp add: represents_def)
  moreover have "represents A ?pseq rooth acc_rep mem_rep txs ta (ch_store c0)" using ta(2) by (simp add: c0_def)
  ultimately have "\<exists>c'. bootstrap A E by_seq c0 = (Inr (), c') \<and> ch_stm c' = ?m \<and> ch_store c' = s \<and> ch_applier c' = ta"
    using bootstrap_anchored [OF assms(1), of ?pseq txs ta c0 ?m] assms(5,6) m by (simp add: c0_def m0_def)
  then show ?thesis using load ta(2) by (auto simp: s_def)
qed

definition sample_travel :: signed_transaction where
  "sample_travel = \<lparr>st_raw_txn = \<lparr>rt_sender = [1], rt_sequence_number = 0,
      rt_payload = PayloadChannel \<lparr>cpl_body = \<lparr>pb_channel_address = [9], pb_proposer = [1],
          pb_action = ScriptCode [] [], pb_witness = witness_default\<rparr>, cpl_public_keys = [[1], [2]], cpl_signatures = []\<rparr>,
      rt_max_gas_amount = 1000, rt_gas_unit_price = 1, rt_expiration_time = duration_from_secs 60\<rparr>,
    st_public_key = [1], st_signature = []\<rparr>"

definition sample_found :: "account_address \<Rightarrow> u64 \<Rightarrow> chan_error + chain_txn option" where
  "sample_found a n = Inr (Some \<lparr>cx_version = 5, cx_transaction = UserTransaction sample_travel, cx_gas_used = 0,
     cx_major_status = 4001, cx_events = Some []\<rparr>)"

theorem channel_restart_witness:
  "\<exists>c c0 c'. apply_travel flat_ledger (sample_libra False) sample_env 5 sample_travel 4001 0 [] (sample_channel [1]) = (Inr (), c) \<and>
     channel_load flat_ledger (sample_libra False) True [9] [1] None (s_db (ch_store c)) [1] [1] [] = Inr c0 \<and>
     bootstrap flat_ledger sample_env sample_found c0 = (Inr (), c') \<and> ch_stm c' = ch_stm c"
proof -
  let ?L = "sample_libra False" and ?tx = "\<lparr>tc_txn = Travel sample_travel, tc_write_set = [], tc_events = [],
    tc_major_status = 4001, tc_gas_used = 0\<rparr>" and ?st = "\<lparr>as_version = 3, as_state = [([5], [0])]\<rparr>"
  define cs where "cs = Some (new_channel_state [9] ?st)"
  obtain c where c: "apply_and_advance flat_ledger ?L sample_env ?tx cs (sample_channel [1]) = (Inr (), c)"
    and R: "represents flat_ledger (payload_sequence_number ?L) concat flat_rep (=) [?tx] (ch_applier c) (ch_store c)"
    using sample_fresh apply_represents [OF flat_ledger_ok, of ?L "[]" "sample_channel [1]" ?tx sample_env cs]
    by (auto simp: sample_travel_def sample_libra_def witness_default_def sample_env_def)
  have fresh: "stm_matches (sample_channel [1])" "channel_address (ch_stm (sample_channel [1])) = [9]"
    "account_address (ch_stm (sample_channel [1])) = [1]" "stm_private_key (ch_stm (sample_channel [1])) = [1]"
    "stm_public_key (ch_stm (sample_channel [1])) = [1]" "script_registry (ch_stm (sample_channel [1])) = []"
    "s_participant_keys (ch_store (sample_channel [1])) \<noteq> []" unfolding stm_matches_def by code_simp+
  have acc: "get_account_state (env_chain sample_env) [9] v = Inr ?st" for v
    by (simp add: get_account_state_def sample_env_def sample_chain_def ok_or_def)
  have m: "channel_address (ch_stm c) = [9]" "account_address (ch_stm c) = [1]" "stm_private_key (ch_stm c) = [1]"
    "stm_public_key (ch_stm c) = [1]" "script_registry (ch_stm c) = []" "stm_channel_state (ch_stm c) = new_channel_state [9] ?st"
    using c fresh by (auto simp: apply_and_advance_def advance_state_def cs_def split: sum.splits)
  have keys: "s_participant_keys (ch_store c) \<noteq> []"
    using apply_keeps_keys [OF c] fresh(7) by auto
  have match: "stm_matches c" by (rule apply_keeps_match [OF flat_ledger_ok sample_fresh fresh(1) c])
  have an: "anchored sample_env sample_found [?tx] (ch_stm c)"
    by (simp add: anchored_def epoch_of_def sample_found_def m acc)
  have "\<exists>c0 c'. channel_load flat_ledger ?L True [9] [1] None (s_db (ch_store c)) [1] [1] [] = Inr c0 \<and>
      bootstrap flat_ledger sample_env sample_found c0 = (Inr (), c') \<and> ch_stm c' = ch_stm c"
    using channel_restart [OF flat_ledger_ok R match keys _ an, of True None] unfolding m by auto
  moreover have "apply_travel flat_ledger ?L sample_env 5 sample_travel 4001 0 [] (sample_channel [1]) = (Inr (), c)"
    using c by (simp add: apply_travel_def fresh acc cs_def)
  ultimately show ?thesis by blast
qed

end
