(* ===== verification/Channel_Rounds.thy ===== *)
theory Channel_Rounds
  imports Channel_Restart
begin

text \<open>
  Two parties of a channel working together: one proposes a transaction, the other checks,
  executes and signs it, the first collects the signature, and both apply it. The handlers are
  those of \<open>Channel_Actor\<close>; here the two actors are put side by side.
\<close>

section \<open>What the parties share\<close>

text \<open>A signature made with the private key is valid under the public key.\<close>

definition key_pair :: "libra \<Rightarrow> bytes \<Rightarrow> public_key \<Rightarrow> bool" where
  "key_pair L sk pk \<longleftrightarrow> (\<forall>h. verify_signature L pk h (sign_message L sk h))"

text \<open>Signing a raw transaction succeeds and keeps it, and what the VM makes of an off-chain execution
  depends on the raw transaction, not on which participant signed it to run it.\<close>

definition signer_invisible :: "libra \<Rightarrow> bool" where
  "signer_invisible L \<longleftrightarrow>
     (\<forall>sk pk r. \<exists>t. sign_raw L sk pk r = Inr t \<and> st_raw_txn t = r) \<and>
     (\<forall>view t t'. st_raw_txn t = st_raw_txn t' \<longrightarrow> execute_block L view t = execute_block L view t')"

definition in_step :: "channel_stm \<Rightarrow> channel_stm \<Rightarrow> bool" where
  "in_step m n \<longleftrightarrow> channel_address m = channel_address n \<and>
     participant_addresses m = participant_addresses n \<and> participant_keys m = participant_keys n \<and>
     stm_channel_state m = stm_channel_state n \<and> stm_witness m = stm_witness n \<and>
     script_registry m = script_registry n"

text \<open>The chain answers for a fixed version the same to both.\<close>

definition same_history :: "env \<Rightarrow> env \<Rightarrow> bool" where
  "same_history E F \<longleftrightarrow> (\<forall>a v. env_chain E a (Some v) = env_chain F a (Some v))"

definition disk_ok :: "env \<Rightarrow> bool" where
  "disk_ok E \<longleftrightarrow> (\<forall>p. env_disk_pending E p) \<and> env_disk_apply E"

lemma in_step_sym: "in_step m n \<Longrightarrow> in_step n m"
  by (simp add: in_step_def)

lemma in_step_local: "in_step m n \<Longrightarrow> get_local n path d = get_local m path d"
  by (simp add: get_local_def in_step_def)

lemma in_step_seq: "in_step m n \<Longrightarrow> channel_sequence_number L n = channel_sequence_number L m"
  by (simp add: channel_sequence_number_def in_step_local) (simp add: in_step_def)

lemma in_step_action: "in_step m n \<Longrightarrow> channel_op_to_action L n op args = channel_op_to_action L m op args"
  by (cases op) (simp_all add: channel_op_to_action_def in_step_def)

lemma in_step_body:
  assumes "in_step m n" "build_and_sign_channel_txn_payload_body L m ct = Inr (body, s)"
  shows "build_and_sign_channel_txn_payload_body L n ct =
    Inr (body, sign_message L (stm_private_key n) (hash_payload_body L body))"
  using assms
  by (auto simp: build_and_sign_channel_txn_payload_body_def in_step_action [OF assms(1)] try_bind_Inr_iff Let_def in_step_def)

lemma in_step_view: "in_step m n \<Longrightarrow> channel_view chain n (Some v) = channel_view chain m (Some v)"
  by (simp add: channel_view_def channel_state_view_new_def in_step_def)

lemma view_of_history:
  assumes "same_history E F" "channel_view (env_chain E) m (Some v) = Inr w"
  shows "channel_view (env_chain F) m (Some v) = Inr w" "view_of L (env_chain F) w = view_of L (env_chain E) w"
proof -
  have w: "cv_version (csv_client w) = Some v"
    using assms(2) by (auto simp: channel_view_def channel_state_view_new_def client_view_new_def try_bind_Inr_iff)
  show "view_of L (env_chain F) w = view_of L (env_chain E) w"
    using assms(1) w by (auto simp: view_of_def csv_get_def client_view_get_def same_history_def fun_eq_iff)
qed (use assms in \<open>simp add: channel_view_def channel_state_view_new_def\<close>)

lemma execute_transaction_signer:
  assumes "signer_invisible L" "st_raw_txn t = st_raw_txn t'"
  shows "execute_transaction L view t = execute_transaction L view t'"
proof -
  have "execute_block L view t = execute_block L view t'" using assms unfolding signer_invisible_def by blast
  then show ?thesis by (simp add: execute_transaction_def)
qed

definition raw_of :: "(account_address \<times> public_key) list \<Rightarrow> account_address list \<Rightarrow> payload_body \<Rightarrow>
    (account_address \<times> public_key \<times> signature) list option \<Rightarrow> account_address \<Rightarrow> u64 \<Rightarrow> u64 \<Rightarrow> duration \<Rightarrow> raw_transaction" where
  "raw_of known ps body txn_signatures sender seq gas expiration =
     (let (keys, sigs) = (case txn_signatures of
           None \<Rightarrow> (known, [])
         | Some signatures \<Rightarrow> fold (\<lambda>a (keys, sigs). (case map_of signatures a of
                   Some (pk, s) \<Rightarrow> (bt_insert a pk keys, sigs @ [Some s])
                 | None \<Rightarrow> (keys, sigs @ [None]))) ps (known, []))
      in \<lparr>rt_sender = sender, rt_sequence_number = seq,
          rt_payload = PayloadChannel \<lparr>cpl_body = body, cpl_public_keys = map snd keys, cpl_signatures = sigs\<rparr>,
          rt_max_gas_amount = gas, rt_gas_unit_price = GAS_UNIT_PRICE, rt_expiration_time = expiration\<rparr>)"

lemma build_chain_txn_raw:
  "build_chain_txn L m body sigs sender seq gas expiration =
     sign_raw L (stm_private_key m) (stm_public_key m)
       (raw_of (participant_keys m) (participant_addresses m) body sigs sender seq gas expiration)"
  unfolding build_chain_txn_def raw_of_def Let_def case_prod_beta by (rule refl)

lemma raw_txn_signer:
  assumes "signer_invisible L" "in_step m n" "build_raw_txn_from_channel_txn L m body ct sigs gas = Inr t"
  shows "\<exists>t'. build_raw_txn_from_channel_txn L n body ct sigs gas = Inr t' \<and> st_raw_txn t' = st_raw_txn t"
proof -
  define r where "r = raw_of (participant_keys m) (participant_addresses m) body
    (map_option (map (\<lambda>(k, v). (k, sig_public_key v, channel_payload_signature v))) sigs)
    (ct_proposer ct) (ct_sequence_number ct) gas (ct_expiration_time ct)"
  have eq: "build_raw_txn_from_channel_txn L k body ct sigs gas = sign_raw L (stm_private_key k) (stm_public_key k) r"
    if "participant_keys k = participant_keys m" "participant_addresses k = participant_addresses m" for k
    unfolding build_raw_txn_from_channel_txn_def build_chain_txn_raw r_def that by (rule refl)
  have sign: "\<exists>t. sign_raw L sk pk r = Inr t \<and> st_raw_txn t = r" for sk pk
    using assms(1) by (simp add: signer_invisible_def)
  have n: "participant_keys n = participant_keys m" "participant_addresses n = participant_addresses m"
    using assms(2) by (simp_all add: in_step_def)
  have "st_raw_txn t = r" using sign [of "stm_private_key m" "stm_public_key m"] assms(3) eq [of m] by auto
  then show ?thesis using sign [of "stm_private_key n" "stm_public_key n"] eq [OF n] by simp
qed

text \<open>Both parties compute the same output.\<close>

lemma same_execution:
  assumes "signer_invisible L" "in_step m n" "same_history E F"
    and "execute_proposal L (env_chain E) m proposal = Inr (body, s, out)"
  shows "\<exists>s'. execute_proposal L (env_chain F) n proposal = Inr (body, s', out)"
proof -
  let ?ct = "channel_txn proposal"
  obtain t w where b: "build_and_sign_channel_txn_payload_body L m ?ct = Inr (body, s)"
    and t: "build_raw_txn_from_channel_txn L m body ?ct None MAX_GAS_AMOUNT_OFFCHAIN = Inr t"
    and w: "channel_view (env_chain E) m (Some (ct_version ?ct)) = Inr w"
    and out: "execute_transaction L (view_of L (env_chain E) w) t = Inr out"
    using assms(4) by (auto simp: execute_proposal_def Let_def try_bind_Inr_iff)
  obtain t' where t': "build_raw_txn_from_channel_txn L n body ?ct None MAX_GAS_AMOUNT_OFFCHAIN = Inr t'"
    "st_raw_txn t' = st_raw_txn t" using raw_txn_signer [OF assms(1,2) t] by blast
  have "channel_view (env_chain F) n (Some (ct_version ?ct)) = Inr w"
    using view_of_history(1) [OF assms(3) w] in_step_view [OF assms(2)] by simp
  moreover have "execute_transaction L (view_of L (env_chain F) w) t' = Inr out"
    using out execute_transaction_signer [OF assms(1) t'(2)] view_of_history(2) [OF assms(3) w] by simp
  ultimately show ?thesis using in_step_body [OF assms(2) b] t'(1) by (simp add: execute_proposal_def)
qed

section \<open>Signatures\<close>

lemma generated_sigs_verify:
  assumes "in_step m n" "generate_txn_sigs L n (channel_txn (pt_proposal p)) (pt_output p) = Inr s"
    and "key_pair L (stm_private_key n) (stm_public_key n)"
  shows "verify_txn_sigs L m p s = Inr ()"
proof -
  let ?ct = "channel_txn (pt_proposal p)"
  obtain body bs seq where b: "build_and_sign_channel_txn_payload_body L n ?ct = Inr (body, bs)"
    and seq: "channel_sequence_number L n = Inr seq"
    using assms(2) by (auto simp: generate_txn_sigs_def try_bind_Inr_iff)
  have bs: "bs = sign_message L (stm_private_key n) (hash_payload_body L body)"
    using b by (auto simp: build_and_sign_channel_txn_payload_body_def try_bind_Inr_iff Let_def)
  have "channel_sequence_number L m = Inr seq" using seq in_step_seq [OF assms(1)] by simp
  note m = this in_step_body [OF in_step_sym [OF assms(1)] b]
  have sign: "verify L (stm_public_key n) h (sign_message L (stm_private_key n) h) = Inr ()" for h
    using assms(3) by (simp add: key_pair_def verify_def ensure_def)
  have "s = \<lparr>sig_address = account_address n, sig_public_key = stm_public_key n, channel_payload_signature = bs,
      witness_data_hash = hash_witness_data L \<lparr>wd_channel_sequence_number = seq + 1, wd_write_set = output_write_set (pt_output p)\<rparr>,
      witness_data_signature = sign_message L (stm_private_key n)
        (hash_witness_data L \<lparr>wd_channel_sequence_number = seq + 1, wd_write_set = output_write_set (pt_output p)\<rparr>),
      travel_output_witness_signature = (if is_travel_txn (pt_output p) then Some (sign_message L (stm_private_key n)
        (hash_witness_data L \<lparr>wd_channel_sequence_number = seq + 1, wd_write_set = out_write_set (pt_output p)\<rparr>)) else None)\<rparr>"
    using assms(2) b seq by (simp add: generate_txn_sigs_def Let_def)
  then show ?thesis unfolding verify_txn_sigs_def m by (simp add: Let_def sign bs ensure_def)
qed

lemma generated_address: "generate_txn_sigs L m ct out = Inr s \<Longrightarrow> sig_address s = account_address m"
  by (auto simp: generate_txn_sigs_def try_bind_Inr_iff Let_def)

lemma generated_exists:
  assumes "in_step m n" "generate_txn_sigs L m ct out = Inr s"
  shows "\<exists>s'. generate_txn_sigs L n ct out = Inr s'"
proof -
  obtain body bs seq where b: "build_and_sign_channel_txn_payload_body L m ct = Inr (body, bs)"
    and seq: "channel_sequence_number L m = Inr seq" using assms(2) by (auto simp: generate_txn_sigs_def try_bind_Inr_iff)
  show ?thesis
    by (simp add: generate_txn_sigs_def in_step_body [OF assms(1) b] in_step_seq [OF assms(1)] seq Let_def)
qed

section \<open>Steps of the negotiation\<close>

text \<open>The pending transaction of a proposal that the listed signatures have reached.\<close>

definition pending_of ::
  "channel_transaction_proposal \<Rightarrow> transaction_output \<Rightarrow> (account_address \<times> channel_transaction_sigs) list \<Rightarrow>
     proposal_lifecycle \<Rightarrow> pending_transaction" where
  "pending_of proposal out sigs l = \<lparr>pt_proposal = proposal, pt_output = out, pt_signatures = sigs, pt_lifecycle = l\<rparr>"

lemma pending_of_simps [simp]:
  "pt_proposal (pending_of proposal out sigs l) = proposal" "pt_output (pending_of proposal out sigs l) = out"
  "pt_signatures (pending_of proposal out sigs l) = sigs" "pt_lifecycle (pending_of proposal out sigs l) = l"
  "(pending_of proposal out sigs l)\<lparr>pt_lifecycle := k\<rparr> = pending_of proposal out sigs k"
  "(pending_of proposal out sigs l)\<lparr>pt_signatures := ss\<rparr> = pending_of proposal out ss l"
  "pending_of proposal out sigs l = pending_of proposal' out' sigs' l' \<longleftrightarrow>
     proposal = proposal' \<and> out = out' \<and> sigs = sigs' \<and> l = l'"
  by (simp_all add: pending_of_def)

lemma first_signature:
  assumes "verify_txn_sigs L m (pending_of proposal out [] Created) s = Inr ()"
  shows "handle_proposal_signature L m (pending_of proposal out [] Created) (hash_channel_txn L (channel_txn proposal)) s =
    Inr (pending_of proposal out [(sig_address s, s)] Negotiating)"
  using assms
  by (simp add: handle_proposal_signature_def get_signature_def add_signature_def bt_contains_def ensure_def Let_def)

lemma second_signature:
  assumes "verify_txn_sigs L m (pending_of proposal out [(a, s)] Negotiating) s' = Inr ()" "sig_address s' \<noteq> a"
    and "length (participant_addresses m) = 2" "set (participant_addresses m) = {a, sig_address s'}"
  shows "handle_proposal_signature L m (pending_of proposal out [(a, s)] Negotiating) (hash_channel_txn L (channel_txn proposal)) s' =
    Inr (pending_of proposal out (bt_insert (sig_address s') s' [(a, s)]) Agreed)"
  using assms
  by (auto simp: handle_proposal_signature_def get_signature_def add_signature_def bt_contains_def ensure_def Let_def
      try_reach_consensus_eq list_all_iff)

lemma verify_txn_sigs_cong:
  "verify_txn_sigs L m (pending_of proposal out sigs l) s = verify_txn_sigs L m (pending_of proposal out [] Created) s"
  by (simp add: verify_txn_sigs_def)

lemma bt_insert_commute2: "a \<noteq> b \<Longrightarrow> bt_insert b t [(a, s)] = bt_insert a s [(b, t)]"
  by auto

text \<open>What \<open>Execute\<close> leaves behind when nothing was pending.\<close>

lemma execute_fresh:
  assumes "handle_execute L E op args c = (Inr (proposal, s, out), c')" "ch_pending c = None"
    and "key_pair L (stm_private_key (ch_stm c)) (stm_public_key (ch_stm c))"
    and "channel_sequence_number L (ch_stm c) = Inr n"
  shows "verify_proposal L (ch_stm c) proposal = Inr ()" "ct_channel_sequence_number (channel_txn proposal) = n"
    "\<exists>body bs. execute_proposal L (env_chain E) (ch_stm c) proposal = Inr (body, bs, out)"
    "generate_txn_sigs L (ch_stm c) (channel_txn proposal) out = Inr s"
    "save_pending_txn E (pending_of proposal out [(account_address (ch_stm c), s)] Negotiating) c = (Inr (), c')"
proof -
  let ?m = "ch_stm c"
  have same: "in_step ?m ?m" by (simp add: in_step_def)
  obtain q p where g: "generate_proposal L (env_chain E) (env_expiration E) ?m op args = Inr q"
    and np: "handle_new_proposal L (env_chain E) ?m None q = Inr (Some p)"
    and s: "generate_txn_sigs L ?m (channel_txn (pt_proposal p)) (pt_output p) = Inr s"
    and rest: "\<exists>p'. handle_proposal_signature L ?m p (hash_channel_txn L (channel_txn (pt_proposal p))) s = Inr p' \<and>
      save_pending_txn E p' c = (Inr (), c') \<and> pt_proposal p' = proposal \<and> pt_output p' = out"
    using assms(1,2) by (auto simp: handle_execute_def Let_def try_bind_Inr_iff act_bind_Inr_iff act_lift_def split: sum.splits)
  obtain body bs where v: "verify_proposal L ?m q = Inr ()"
    and x: "execute_proposal L (env_chain E) ?m q = Inr (body, bs, pt_output p)"
    and p: "p = pending_of q (pt_output p) [] Created"
    using np by (auto simp: handle_new_proposal_def try_bind_Inr_iff pending_new_def pending_of_def split: if_splits)
  have vs: "verify_txn_sigs L ?m p s = Inr ()" by (rule generated_sigs_verify [OF same s assms(3)])
  have sig: "handle_proposal_signature L ?m p (hash_channel_txn L (channel_txn (pt_proposal p))) s =
      Inr (pending_of q (pt_output p) [(sig_address s, s)] Negotiating)"
    using first_signature [of L ?m q "pt_output p" s] vs by (metis p pending_of_simps(1))
  have a: "sig_address s = account_address ?m" by (rule generated_address [OF s])
  from rest sig a have q: "proposal = q" "out = pt_output p"
    and sv: "save_pending_txn E (pending_of q (pt_output p) [(account_address ?m, s)] Negotiating) c = (Inr (), c')" by auto
  show "verify_proposal L ?m proposal = Inr ()" "\<exists>body bs. execute_proposal L (env_chain E) ?m proposal = Inr (body, bs, out)"
    "save_pending_txn E (pending_of proposal out [(account_address ?m, s)] Negotiating) c = (Inr (), c')"
    using v x sv q by auto
  show "generate_txn_sigs L ?m (channel_txn proposal) out = Inr s" using s p q by (metis pending_of_simps(1))
  show "ct_channel_sequence_number (channel_txn proposal) = n"
    using g assms(4) q(1) by (auto simp: generate_proposal_def try_bind_Inr_iff Let_def)
qed

text \<open>A proposal that one party accepts is accepted by the other.\<close>

lemma verify_proposal_in_step:
  assumes "in_step m n"
  shows "verify_proposal L n proposal = verify_proposal L m proposal"
proof -
  have same: "channel_address n = channel_address m" "participant_addresses n = participant_addresses m"
    using assms by (simp_all add: in_step_def)
  show ?thesis unfolding verify_proposal_def in_step_seq [OF assms] same by (rule refl)
qed

lemma save_fresh:
  assumes "disk_ok E" "ch_pending c = None \<or> (\<exists>q. ch_pending c = Some q \<and> pt_lifecycle q < pt_lifecycle p)"
  shows "save_pending_txn E p c = (Inr (), c\<lparr>ch_store := (ch_store c)\<lparr>s_db := (s_db (ch_store c))\<lparr>db_pending := Some p\<rparr>,
    s_pending_txn := Some p\<rparr>\<rparr>)"
  using assms
  by (auto simp: save_pending_txn_def store_save_pending_txn_def write_schemas_def disk_ok_def newer_than_def)

section \<open>Applying\<close>

definition round_txn ::
  "channel_transaction_proposal \<Rightarrow> transaction_output \<Rightarrow> (account_address \<times> channel_transaction_sigs) list \<Rightarrow> transaction_to_commit" where
  "round_txn proposal out sigs =
     \<lparr>tc_txn = Offchain \<lparr>raw_tx = channel_txn proposal, sct_signatures = sigs\<rparr>,
      tc_write_set = out_write_set out, tc_events = out_events out,
      tc_major_status = out_major_status out, tc_gas_used = out_gas_used out\<rparr>"

lemma not_yet_applied:
  assumes A: "accumulator_ok A rooth acc_rep mem_rep" and R: "represents A pseq rooth acc_rep mem_rep txs ta s"
  shows "check_applied A s (of_nat (length txs)) = Inr None"
proof (cases "txs = []")
  case True
  with R show ?thesis
    by (auto simp: check_applied_def get_startup_info_def represents_def latest_ok_def split: option.splits)
next
  case False
  obtain l where l: "s_latest_ledger_info s = Some l" "(of_nat (length txs - 1) :: u64) + 1 = of_nat (length txs)"
    using latest_version [OF R False] by metis
  have t: "db_infos (s_db s) = table (info_of A rooth) txs" and n: "length txs < 2 ^ 64"
    and acc: "acc_rep (map_of (db_accumulator (s_db s))) (map (leaf A rooth) txs)"
    using R by (simp_all add: represents_def)
  obtain fs where fs: "acc_frozen A (map_of (db_accumulator (s_db s))) (of_nat (length txs)) = Inr fs"
    using accumulator_frozen [OF A acc] False by auto
  have "(of_nat (length txs - 1) :: u64) < of_nat (length txs)" using False n by (intro of_nat_less_u64) simp_all
  with l fs last_table [OF False, of "info_of A rooth"] t show ?thesis
    by (simp add: check_applied_def get_startup_info_def get_latest_transaction_info_def ok_or_def)
qed

lemma witness_of_ledger:
  assumes "represents A pseq rooth acc_rep mem_rep (txs @ [tx]) ta s"
    and "generate_witness pseq (tc_txn tx) (tc_write_set tx) = Inr w"
  shows "latest_witness_or_default s = w"
  using assms by (auto simp: represents_def witness_ok_def latest_witness_or_default_def)

text \<open>What the state machine becomes is a function of the transaction, the old state and the known keys.\<close>

definition advanced ::
  "(channel_payload \<Rightarrow> u64) \<Rightarrow> transaction_to_commit \<Rightarrow> (account_address \<times> public_key option) list \<Rightarrow> channel_stm \<Rightarrow> channel_stm" where
  "advanced pseq tx keys m =
     advance_state None (projr (generate_witness pseq (tc_txn tx) (tc_write_set tx)))
       (List.map_filter (\<lambda>(a, k). map_option (Pair a) k)
          (bt_append keys (updated_keys keys (projr (applied_keys (tc_txn tx)))))) m"

lemma apply_agreed:
  assumes A: "accumulator_ok A rooth acc_rep mem_rep"
    and R: "represents A (payload_sequence_number L) rooth acc_rep mem_rep txs (ch_applier c) (ch_store c)"
    and p: "ch_pending c = Some (pending_of proposal out sigs Agreed)" "\<not> is_travel_txn out"
    and seq: "ct_channel_sequence_number (channel_txn proposal) = of_nat (length txs)"
    and len: "length txs < 2 ^ 64 - 1" "length (out_write_set out) < 2 ^ 64" and disk: "disk_ok E"
  shows "\<exists>c'. handle_apply_pending A L E c = (Inr None, c') \<and>
    represents A (payload_sequence_number L) rooth acc_rep mem_rep (txs @ [round_txn proposal out sigs]) (ch_applier c') (ch_store c') \<and>
    ch_pending c' = None \<and>
    ch_stm c' = advanced (payload_sequence_number L) (round_txn proposal out sigs) (s_participant_keys (ch_store c)) (ch_stm c) \<and>
    s_participant_keys (ch_store c') = bt_append (s_participant_keys (ch_store c))
      (updated_keys (s_participant_keys (ch_store c)) (map (\<lambda>(_, s). sig_public_key s) sigs))"
proof -
  let ?pseq = "payload_sequence_number L"
  define tx where "tx = round_txn proposal out sigs"
  have tx: "applied_seq ?pseq (tc_txn tx) = Inr (of_nat (length txs))" "length (tc_write_set tx) < 2 ^ 64"
    and ks: "applied_keys (tc_txn tx) = Inr (map (\<lambda>(_, s). sig_public_key s) sigs)"
    using seq len by (simp_all add: tx_def round_txn_def)
  obtain w where w: "generate_witness ?pseq (tc_txn tx) (tc_write_set tx) = Inr w"
    using tx(1) by (simp add: generate_witness_def)
  obtain ta s where s: "tx_apply A ?pseq True (env_now E) tx (ch_applier c, ch_store c) = Inr (ta, s)"
    "represents A ?pseq rooth acc_rep mem_rep (txs @ [tx]) ta s" "s_pending_txn s = None"
    using tx_apply_step [OF A R len(1) tx(2,1)] by blast
  define c' where "c' = c\<lparr>ch_applier := ta, ch_store := s,
      ch_stm := advance_state None (latest_witness_or_default s) (get_participant_keys s) (ch_stm c)\<rparr>"
  have "env_disk_apply E" using disk by (simp add: disk_ok_def)
  then have "apply_and_advance A L E tx None c = (Inr (), c')" by (simp add: apply_and_advance_def s(1) c'_def)
  then have "channel_apply A L E (pending_of proposal out sigs Applying) c = (Inr (), c')"
    by (simp add: channel_apply_def tx_def round_txn_def)
  then have "handle_apply_pending A L E c = (Inr None, c')"
    by (simp add: handle_apply_pending_def p ok_or_def ensure_def handle_apply_proposal_def consensus_reached_def
        lifecycle_order act_bind_def act_lift_def)
  moreover have "get_participant_keys s = List.map_filter (\<lambda>(a, k). map_option (Pair a) k)
      (bt_append (s_participant_keys (ch_store c))
        (updated_keys (s_participant_keys (ch_store c)) (projr (applied_keys (tc_txn tx)))))"
    by (simp only: get_participant_keys_def tx_apply_keys [OF s(1) ks] ks sum.sel)
  then have "ch_stm c' = advanced ?pseq tx (s_participant_keys (ch_store c)) (ch_stm c)"
    by (simp add: c'_def advanced_def w witness_of_ledger [OF s(2) w])
  moreover have "ch_applier c' = ta" "ch_store c' = s" by (simp_all add: c'_def)
  ultimately show ?thesis using s(2,3) tx_apply_keys [OF s(1) ks] by (auto simp flip: tx_def)
qed

lemma advanced_in_step:
  "in_step m n \<Longrightarrow> in_step (advanced pseq tx keys m) (advanced pseq tx keys n)"
  by (simp add: in_step_def advanced_def advance_state_def)

lemma advanced_same [simp]:
  "account_address (advanced pseq tx keys m) = account_address m"
  "participant_addresses (advanced pseq tx keys m) = participant_addresses m"
  "stm_private_key (advanced pseq tx keys m) = stm_private_key m"
  "stm_public_key (advanced pseq tx keys m) = stm_public_key m"
  by (simp_all add: advanced_def advance_state_def)

section \<open>The round\<close>

text \<open>The receiver's side: the signature comes at once, or after the user has granted it.\<close>

definition answer_proposal ::
  "'m ledger_lib \<Rightarrow> libra \<Rightarrow> env \<Rightarrow> env \<Rightarrow> channel_transaction_proposal \<Rightarrow> channel_transaction_sigs \<Rightarrow>
     ('m channel, channel_transaction_sigs) action" where
  "answer_proposal A L E F proposal sigs =
     act_bind (handle_collect A L E proposal sigs) (\<lambda>r.
       (case r of Some s \<Rightarrow> act_lift (Inr s) | None \<Rightarrow> handle_grant L F (hash_channel_txn L (channel_txn proposal))))"

text \<open>Both ledgers hold the same list, both state machines are in step, and nothing is pending.\<close>

definition synced ::
  "'m ledger_lib \<Rightarrow> libra \<Rightarrow> (hash_value list \<Rightarrow> hash_value) \<Rightarrow> ((u64 \<Rightarrow> hash_value option) \<Rightarrow> hash_value list \<Rightarrow> bool) \<Rightarrow>
     ('m \<Rightarrow> hash_value list \<Rightarrow> bool) \<Rightarrow> transaction_to_commit list \<Rightarrow> 'm channel \<Rightarrow> 'm channel \<Rightarrow> bool" where
  "synced A L rooth acc_rep mem_rep txs ca cb \<longleftrightarrow>
     represents A (payload_sequence_number L) rooth acc_rep mem_rep txs (ch_applier ca) (ch_store ca) \<and>
     represents A (payload_sequence_number L) rooth acc_rep mem_rep txs (ch_applier cb) (ch_store cb) \<and>
     s_participant_keys (ch_store ca) = s_participant_keys (ch_store cb) \<and>
     ch_pending ca = None \<and> ch_pending cb = None \<and> in_step (ch_stm ca) (ch_stm cb) \<and>
     participant_addresses (ch_stm ca) \<in> {[account_address (ch_stm ca), account_address (ch_stm cb)],
       [account_address (ch_stm cb), account_address (ch_stm ca)]} \<and>
     account_address (ch_stm ca) \<noteq> account_address (ch_stm cb) \<and>
     key_pair L (stm_private_key (ch_stm ca)) (stm_public_key (ch_stm ca)) \<and>
     key_pair L (stm_private_key (ch_stm cb)) (stm_public_key (ch_stm cb))"

definition with_pending :: "pending_transaction \<Rightarrow> 'm channel \<Rightarrow> 'm channel" where
  "with_pending p c = c\<lparr>ch_store := (ch_store c)\<lparr>s_db := (s_db (ch_store c))\<lparr>db_pending := Some p\<rparr>, s_pending_txn := Some p\<rparr>\<rparr>"

lemma with_pending_simps [simp]:
  "ch_pending (with_pending p c) = Some p" "ch_stm (with_pending p c) = ch_stm c" "ch_applier (with_pending p c) = ch_applier c"
  "s_participant_keys (ch_store (with_pending p c)) = s_participant_keys (ch_store c)"
  "with_pending q (with_pending p c) = with_pending q c"
  by (simp_all add: with_pending_def)

lemma save_with_pending:
  "disk_ok E \<Longrightarrow> ch_pending c = None \<or> (\<exists>q. ch_pending c = Some q \<and> pt_lifecycle q < pt_lifecycle p) \<Longrightarrow>
     save_pending_txn E p c = (Inr (), with_pending p c)"
  unfolding with_pending_def by (rule save_fresh)

lemma represents_with_pending:
  "represents A pseq rooth acc_rep mem_rep txs ta (ch_store c) \<Longrightarrow>
     represents A pseq rooth acc_rep mem_rep txs ta (ch_store (with_pending p c))"
  by (simp add: with_pending_def represents_pending)

text \<open>The receiver signs, at once or when granted, and is then in agreement.\<close>

lemma receiver_agrees:
  assumes fresh: "ch_pending c = None" "check_applied A (ch_store c) (ct_channel_sequence_number (channel_txn proposal)) = Inr None"
    and seq: "channel_sequence_number L (ch_stm c) = Inr (ct_channel_sequence_number (channel_txn proposal))"
    and pr: "verify_proposal L (ch_stm c) proposal = Inr ()"
      "execute_proposal L (env_chain E) (ch_stm c) proposal = Inr (body, bs, out)"
    and sig: "verify_txn_sigs L (ch_stm c) (pending_of proposal out [] Created) s = Inr ()" "sig_address s = a"
    and own: "generate_txn_sigs L (ch_stm c) (channel_txn proposal) out = Inr s'"
      "verify_txn_sigs L (ch_stm c) (pending_of proposal out [] Created) s' = Inr ()"
    and ps: "length (participant_addresses (ch_stm c)) = 2" "set (participant_addresses (ch_stm c)) = {a, account_address (ch_stm c)}"
      "account_address (ch_stm c) \<noteq> a" and disk: "disk_ok E" "disk_ok F"
  shows "answer_proposal A L E F proposal s c =
    (Inr s', with_pending (pending_of proposal out (bt_insert (account_address (ch_stm c)) s' [(a, s)]) Agreed) c)"
proof -
  let ?m = "ch_stm c" and ?h = "hash_channel_txn L (channel_txn proposal)" and ?b = "account_address (ch_stm c)"
  let ?neg = "pending_of proposal out [(a, s)] Negotiating" and ?agr = "pending_of proposal out (bt_insert ?b s' [(a, s)]) Agreed"
  have new: "handle_new_proposal L (env_chain E) ?m None proposal = Inr (Some (pending_of proposal out [] Created))"
    using seq pr by (simp add: handle_new_proposal_def pending_new_def pending_of_def)
  have addr: "sig_address s' = ?b" by (rule generated_address [OF own(1)])
  have one: "handle_proposal_signature L ?m (pending_of proposal out [] Created) ?h s = Inr ?neg"
    using first_signature [OF sig(1)] sig(2) by simp
  have two: "handle_proposal_signature L ?m ?neg ?h s' = Inr ?agr"
    using second_signature [of L ?m proposal out a s s'] own(2) ps addr
    by (simp add: verify_txn_sigs_cong [of L ?m proposal out "[(a, s)]"])
  have col: "collect_signature L (env_chain E) ?m None proposal s =
      Inr (if can_auto_sign_pending_proposal L ?m ?neg then ?agr else ?neg)"
    using ps(3) by (simp add: collect_signature_def new one two own ok_or_def bt_contains_def)
  show ?thesis
  proof (cases "can_auto_sign_pending_proposal L ?m ?neg")
    case True
    with fresh show ?thesis
      by (simp add: answer_proposal_def handle_collect_def col act_bind_def act_lift_def save_with_pending [OF disk(1)] get_signature_def)
  next
    case False
    have "pending_by_id L (with_pending ?neg c) ?h = Inr ?neg"
      by (simp add: pending_by_id_def ok_or_def ensure_def consensus_reached_def lifecycle_order)
    with False fresh ps(3) show ?thesis
      by (simp add: answer_proposal_def handle_collect_def handle_grant_def Let_def col act_bind_def act_lift_def own two
          save_with_pending [OF disk(1)] save_with_pending [OF disk(2)] get_signature_def lifecycle_order)
  qed
qed

text \<open>The proposer collects the answer.\<close>

lemma proposer_agrees:
  assumes pend: "ch_pending c = Some (pending_of proposal out [(account_address (ch_stm c), s)] Negotiating)"
    and fresh: "check_applied A (ch_store c) (ct_channel_sequence_number (channel_txn proposal)) = Inr None"
    and seq: "channel_sequence_number L (ch_stm c) = Inr (ct_channel_sequence_number (channel_txn proposal))"
    and sig: "verify_txn_sigs L (ch_stm c) (pending_of proposal out [] Created) s' = Inr ()" "sig_address s' = b"
    and ps: "length (participant_addresses (ch_stm c)) = 2" "set (participant_addresses (ch_stm c)) = {account_address (ch_stm c), b}"
      "account_address (ch_stm c) \<noteq> b" and disk: "disk_ok E"
  shows "handle_collect A L E proposal s' c =
    (Inr (Some s), with_pending (pending_of proposal out (bt_insert b s' [(account_address (ch_stm c), s)]) Agreed) c)"
proof -
  let ?m = "ch_stm c" and ?h = "hash_channel_txn L (channel_txn proposal)" and ?a = "account_address (ch_stm c)"
  let ?neg = "pending_of proposal out [(?a, s)] Negotiating" and ?agr = "pending_of proposal out (bt_insert b s' [(?a, s)]) Agreed"
  have new: "handle_new_proposal L (env_chain E) ?m (Some ?neg) proposal = Inr (Some ?neg)"
    using seq by (simp add: handle_new_proposal_def)
  have two: "handle_proposal_signature L ?m ?neg ?h s' = Inr ?agr"
    using second_signature [of L ?m proposal out ?a s s'] sig ps
    by (simp add: verify_txn_sigs_cong [of L ?m proposal out "[(?a, s)]"])
  have "collect_signature L (env_chain E) ?m (ch_pending c) proposal s' = Inr ?agr"
    unfolding pend by (simp add: collect_signature_def new two ok_or_def bt_contains_def)
  with fresh pend ps(3) show ?thesis
    by (simp add: handle_collect_def act_bind_def act_lift_def save_with_pending [OF disk] get_signature_def lifecycle_order)
qed

lemma round_agreement:
  assumes "accumulator_ok A rooth acc_rep mem_rep" "synced A L rooth acc_rep mem_rep txs ca cb"
    and "signer_invisible L" "same_history Ea Eb" "disk_ok Ea" "disk_ok Eb" "disk_ok Fa" "disk_ok Gb"
    and "channel_sequence_number L (ch_stm ca) = Inr (of_nat (length txs))"
    and "handle_execute L Ea op args ca = (Inr (proposal, s, out), ca1)"
  obtains s' sigs where "ca1 = with_pending (pending_of proposal out [(account_address (ch_stm ca), s)] Negotiating) ca"
    "answer_proposal A L Eb Gb proposal s cb = (Inr s', with_pending (pending_of proposal out sigs Agreed) cb)"
    "handle_collect A L Fa proposal s' ca1 = (Inr (Some s), with_pending (pending_of proposal out sigs Agreed) ca)"
    "ct_channel_sequence_number (channel_txn proposal) = of_nat (length txs)"
    "map_of sigs (account_address (ch_stm ca)) = Some s" "map_of sigs (account_address (ch_stm cb)) = Some s'"
    "generate_txn_sigs L (ch_stm cb) (channel_txn proposal) out = Inr s'"
proof -
  let ?a = "account_address (ch_stm ca)" and ?b = "account_address (ch_stm cb)" and ?pseq = "payload_sequence_number L"
  have R: "represents A ?pseq rooth acc_rep mem_rep txs (ch_applier ca) (ch_store ca)"
      "represents A ?pseq rooth acc_rep mem_rep txs (ch_applier cb) (ch_store cb)"
    and none: "ch_pending ca = None" "ch_pending cb = None" and st: "in_step (ch_stm ca) (ch_stm cb)"
    and ps: "participant_addresses (ch_stm ca) = [?a, ?b] \<or> participant_addresses (ch_stm ca) = [?b, ?a]" "?a \<noteq> ?b"
    and kp: "key_pair L (stm_private_key (ch_stm ca)) (stm_public_key (ch_stm ca))"
      "key_pair L (stm_private_key (ch_stm cb)) (stm_public_key (ch_stm cb))"
    using assms(2) by (simp_all add: synced_def)
  note x = execute_fresh [OF assms(10) none(1) kp(1) assms(9)]
  obtain body bs where ex: "execute_proposal L (env_chain Ea) (ch_stm ca) proposal = Inr (body, bs, out)" using x(3) by blast
  obtain bs' where ex': "execute_proposal L (env_chain Eb) (ch_stm cb) proposal = Inr (body, bs', out)"
    using same_execution [OF assms(3) st assms(4) ex] by blast
  obtain s' where s': "generate_txn_sigs L (ch_stm cb) (channel_txn proposal) out = Inr s'"
    using generated_exists [OF st x(4)] by blast
  let ?new = "pending_of proposal out [] Created"
  have ver: "verify_txn_sigs L m ?new s = Inr ()" "verify_txn_sigs L m ?new s' = Inr ()" if "m \<in> {ch_stm ca, ch_stm cb}" for m
    using generated_sigs_verify [of m "ch_stm ca" L ?new s] generated_sigs_verify [of m "ch_stm cb" L ?new s'] x(4) s' kp st that
    by (auto simp: in_step_def)
  have addr: "sig_address s = ?a" "sig_address s' = ?b" by (rule generated_address [OF x(4)], rule generated_address [OF s'])
  define sigs where "sigs = bt_insert ?b s' [(?a, s)]"
  let ?agr = "pending_of proposal out sigs Agreed"
  have ps': "participant_addresses (ch_stm cb) = participant_addresses (ch_stm ca)" using st by (simp add: in_step_def)
  have c1: "ca1 = with_pending (pending_of proposal out [(?a, s)] Negotiating) ca"
    using x(5) none(1) by (simp add: save_with_pending [OF assms(5)])
  have seq: "channel_sequence_number L (ch_stm ca) = Inr (ct_channel_sequence_number (channel_txn proposal))"
      "channel_sequence_number L (ch_stm cb) = Inr (ct_channel_sequence_number (channel_txn proposal))"
    using x(2) assms(9) in_step_seq [OF st] by simp_all
  have ans: "answer_proposal A L Eb Gb proposal s cb = (Inr s', with_pending ?agr cb)"
    unfolding sigs_def
    by (rule receiver_agrees [OF none(2) _ seq(2) _ ex' ver(1) addr(1) s' ver(2)])
       (use ps ps' assms(6,8) x(1,2) not_yet_applied [OF assms(1) R(2)] verify_proposal_in_step [OF st] in auto)
  have col: "handle_collect A L Fa proposal s' ca1 = (Inr (Some s), with_pending ?agr ca)"
    using proposer_agrees [of ca1 proposal out s A L s' ?b Fa] ps assms(7) x(2) seq(1) ver(2) addr(2)
      not_yet_applied [OF assms(1) represents_with_pending [OF R(1)]]
    by (auto simp: c1 sigs_def insert_commute)
  show thesis using that [OF c1 ans col x(2)] ps(2) s' by (simp add: sigs_def)
qed

text \<open>Applying the same agreed transaction keeps the parties in step.\<close>

lemma round_applied:
  assumes "accumulator_ok A rooth acc_rep mem_rep" "synced A L rooth acc_rep mem_rep txs ca cb" "disk_ok Fa" "disk_ok Fb"
    and "length txs < 2 ^ 64 - 1" "\<not> is_travel_txn out" "length (out_write_set out) < 2 ^ 64"
    and "ct_channel_sequence_number (channel_txn proposal) = of_nat (length txs)"
  shows "\<exists>ca' cb'. handle_apply_pending A L Fa (with_pending (pending_of proposal out sigs Agreed) ca) = (Inr None, ca') \<and>
    handle_apply_pending A L Fb (with_pending (pending_of proposal out sigs Agreed) cb) = (Inr None, cb') \<and>
    synced A L rooth acc_rep mem_rep (txs @ [round_txn proposal out sigs]) ca' cb' \<and>
    ch_stm ca' = advanced (payload_sequence_number L) (round_txn proposal out sigs) (s_participant_keys (ch_store ca)) (ch_stm ca)"
proof -
  let ?pseq = "payload_sequence_number L" and ?agr = "pending_of proposal out sigs Agreed" and ?tx = "round_txn proposal out sigs"
  define ks where "ks = bt_append (s_participant_keys (ch_store ca))
        (updated_keys (s_participant_keys (ch_store ca)) (map (\<lambda>(_, s). sig_public_key s) sigs))"
  have step: "\<exists>c'. handle_apply_pending A L F (with_pending ?agr c) = (Inr None, c') \<and>
      represents A ?pseq rooth acc_rep mem_rep (txs @ [?tx]) (ch_applier c') (ch_store c') \<and> ch_pending c' = None \<and>
      ch_stm c' = advanced ?pseq ?tx (s_participant_keys (ch_store ca)) (ch_stm c) \<and> s_participant_keys (ch_store c') = ks"
    if "represents A ?pseq rooth acc_rep mem_rep txs (ch_applier c) (ch_store c)" "disk_ok F"
      "s_participant_keys (ch_store c) = s_participant_keys (ch_store ca)" for c F
    using apply_agreed [OF assms(1), of L txs "with_pending ?agr c" proposal out sigs F] represents_with_pending [OF that(1)] that(2,3)
      assms(5-8) by (simp add: ks_def)
  obtain ca' where ca': "handle_apply_pending A L Fa (with_pending ?agr ca) = (Inr None, ca')"
      "represents A ?pseq rooth acc_rep mem_rep (txs @ [?tx]) (ch_applier ca') (ch_store ca')" "ch_pending ca' = None"
      "ch_stm ca' = advanced ?pseq ?tx (s_participant_keys (ch_store ca)) (ch_stm ca)" "s_participant_keys (ch_store ca') = ks"
    using step [of ca Fa] assms(2,3) by (auto simp: synced_def)
  obtain cb' where cb': "handle_apply_pending A L Fb (with_pending ?agr cb) = (Inr None, cb')"
      "represents A ?pseq rooth acc_rep mem_rep (txs @ [?tx]) (ch_applier cb') (ch_store cb')" "ch_pending cb' = None"
      "ch_stm cb' = advanced ?pseq ?tx (s_participant_keys (ch_store ca)) (ch_stm cb)" "s_participant_keys (ch_store cb') = ks"
    using step [of cb Fb] assms(2,4) by (auto simp: synced_def)
  have "in_step (ch_stm ca') (ch_stm cb')" unfolding ca'(4) cb'(4) using assms(2) by (intro advanced_in_step) (simp add: synced_def)
  then have "synced A L rooth acc_rep mem_rep (txs @ [?tx]) ca' cb'"
    using ca' cb' assms(2) by (simp add: synced_def)
  with ca'(1,4) cb'(1) show ?thesis by blast
qed

section \<open>A small instance\<close>

lemma sample_key_pair: "key_pair (sample_libra t) k k"
  by (simp add: key_pair_def sample_libra_def)

lemma sample_signer: "signer_invisible (sample_libra t)"
  by (simp add: signer_invisible_def sample_libra_def)

lemma sample_disk: "disk_ok sample_env"
  by (simp add: disk_ok_def sample_env_def)

lemma sample_channel_store:
  "\<exists>s ta. represents flat_ledger (payload_sequence_number (sample_libra False)) concat flat_rep (=) [] ta s \<and>
     sample_channel me = \<lparr>ch_store = s, ch_applier = ta,
       ch_stm = channel_stm_new [9] me (store_participant_addresses s) me me [], ch_stopping = False, ch_effects = []\<rparr> \<and>
     channel_store_new flat_ledger (payload_sequence_number (sample_libra False)) True [[1], [2]] channel_db_empty = Inr s"
proof -
  obtain s ta where "channel_store_new flat_ledger (payload_sequence_number (sample_libra False)) True [[1], [2]] channel_db_empty = Inr s"
    "tx_applier_new flat_ledger s = Inr ta"
    "represents flat_ledger (payload_sequence_number (sample_libra False)) concat flat_rep (=) [] ta s"
    using store_fresh [OF flat_ledger_ok] by blast
  then show ?thesis by (simp add: sample_channel_def channel_load_def panicking_def)
qed

lemma sample_synced: "synced flat_ledger (sample_libra False) concat flat_rep (=) [] (sample_channel [1]) (sample_channel [2])"
proof -
  obtain s ta t tb where s: "represents flat_ledger (payload_sequence_number (sample_libra False)) concat flat_rep (=) [] ta s"
      "sample_channel [1] = \<lparr>ch_store = s, ch_applier = ta,
       ch_stm = channel_stm_new [9] [1] (store_participant_addresses s) [1] [1] [], ch_stopping = False, ch_effects = []\<rparr>"
    and t: "represents flat_ledger (payload_sequence_number (sample_libra False)) concat flat_rep (=) [] tb s"
      "sample_channel [2] = \<lparr>ch_store = s, ch_applier = tb,
       ch_stm = channel_stm_new [9] [2] (store_participant_addresses s) [2] [2] [], ch_stopping = False, ch_effects = []\<rparr>"
    using sample_channel_store [of "[1]"] sample_channel_store [of "[2]"] by auto
  have "ch_pending (sample_channel [1]) = None" "participant_addresses (ch_stm (sample_channel [1])) = [[1], [2]]" by code_simp+
  then show ?thesis
    using s t by (simp add: synced_def sample_key_pair in_step_def channel_stm_new_def)
qed

section \<open>Properties\<close>

text \<open>C2. One round of the protocol between two parties in step. When the proposer's \<open>Execute\<close>
  gives a proposal whose output stays off the chain, the peer accepts and signs it, at once or
  after its user's grant; the proposer accepts that signature; both apply the transaction; and then
  both ledgers have the same transaction appended, signed by both, and the parties are in step
  again with nothing pending, ready for the next round. Relied on: valid key pairs, a VM that does
  not look at who signed an off-chain execution, a chain that gives both the same answer for a
  fixed version, and disks that accept the writes.\<close>

theorem offchain_round:
  assumes "accumulator_ok A rooth acc_rep mem_rep" "synced A L rooth acc_rep mem_rep txs ca cb"
    and "signer_invisible L" "same_history Ea Eb" "disk_ok Ea" "disk_ok Eb" "disk_ok Fa" "disk_ok Fb" "disk_ok Gb"
    and "channel_sequence_number L (ch_stm ca) = Inr (of_nat (length txs))" "length txs < 2 ^ 64 - 1"
    and "handle_execute L Ea op args ca = (Inr (proposal, s, out), ca1)"
    and "\<not> is_travel_txn out" "length (out_write_set out) < 2 ^ 64"
  shows "\<exists>s' cb1 ca2 ca' cb' sigs. answer_proposal A L Eb Gb proposal s cb = (Inr s', cb1) \<and>
    handle_collect A L Fa proposal s' ca1 = (Inr (Some s), ca2) \<and>
    handle_apply_pending A L Fa ca2 = (Inr None, ca') \<and> handle_apply_pending A L Fb cb1 = (Inr None, cb') \<and>
    synced A L rooth acc_rep mem_rep (txs @ [round_txn proposal out sigs]) ca' cb' \<and>
    map_of sigs (account_address (ch_stm ca)) = Some s \<and> map_of sigs (account_address (ch_stm cb)) = Some s'"
proof -
  obtain s' sigs where agreed: "ca1 = with_pending (pending_of proposal out [(account_address (ch_stm ca), s)] Negotiating) ca"
    "answer_proposal A L Eb Gb proposal s cb = (Inr s', with_pending (pending_of proposal out sigs Agreed) cb)"
    "handle_collect A L Fa proposal s' ca1 = (Inr (Some s), with_pending (pending_of proposal out sigs Agreed) ca)"
    "ct_channel_sequence_number (channel_txn proposal) = of_nat (length txs)"
    "map_of sigs (account_address (ch_stm ca)) = Some s" "map_of sigs (account_address (ch_stm cb)) = Some s'"
    by (rule round_agreement [OF assms(1-7,9,10,12)])
  show ?thesis using round_applied [OF assms(1,2,7,8,11,13,14) agreed(4), of sigs] agreed by blast
qed

theorem offchain_round_witness:
  "\<exists>proposal s out ca1 s' cb1. handle_execute (sample_libra False) sample_env OpOpen [] (sample_channel [1]) = (Inr (proposal, s, out), ca1) \<and>
     answer_proposal flat_ledger (sample_libra False) sample_env sample_env proposal s (sample_channel [2]) = (Inr s', cb1) \<and>
     (\<exists>ca2. handle_collect flat_ledger (sample_libra False) sample_env proposal s' ca1 = (Inr (Some s), ca2))"
proof -
  define ca where "ca = sample_channel [1]"
  let ?p = "sample_pending [] Created"
  have "fst (handle_execute (sample_libra False) sample_env OpOpen [] (sample_channel [1])) =
      Inr (pt_proposal ?p, sample_sigs [1], pt_output ?p)"
    "channel_sequence_number (sample_libra False) (ch_stm (sample_channel [1])) = Inr 0"
    "\<not> is_travel_txn (pt_output ?p)" "length (out_write_set (pt_output ?p)) = 1" by code_simp+
  then have x: "fst (handle_execute (sample_libra False) sample_env OpOpen [] ca) = Inr (pt_proposal ?p, sample_sigs [1], pt_output ?p)"
    and seq: "channel_sequence_number (sample_libra False) (ch_stm ca) = Inr (of_nat (length ([] :: transaction_to_commit list)))"
    and out: "\<not> is_travel_txn (pt_output ?p)" "length (out_write_set (pt_output ?p)) < 2 ^ 64" by (simp_all add: ca_def)
  obtain ca1 where ca1: "handle_execute (sample_libra False) sample_env OpOpen [] ca = (Inr (pt_proposal ?p, sample_sigs [1], pt_output ?p), ca1)"
    using x by (metis prod.collapse)
  have sync: "synced flat_ledger (sample_libra False) concat flat_rep (=) [] ca (sample_channel [2])"
    unfolding ca_def by (rule sample_synced)
  have hist: "same_history sample_env sample_env" by (simp add: same_history_def)
  have len: "length ([] :: transaction_to_commit list) < 2 ^ 64 - 1" by simp
  obtain s' cb1 ca2 where r: "answer_proposal flat_ledger (sample_libra False) sample_env sample_env (pt_proposal ?p) (sample_sigs [1]) (sample_channel [2]) = (Inr s', cb1)"
    "handle_collect flat_ledger (sample_libra False) sample_env (pt_proposal ?p) s' ca1 = (Inr (Some (sample_sigs [1])), ca2)"
    using offchain_round [OF flat_ledger_ok sync sample_signer hist sample_disk sample_disk sample_disk sample_disk sample_disk seq len ca1 out]
    by (elim exE conjE)
  show ?thesis
    by (intro exI conjI) (rule ca1 [unfolded ca_def], rule r(1), rule r(2))
qed

end
