(* ===== verification/Byte_Codec.thy ===== *)
theory Byte_Codec
  imports Stargate_Prelude
begin

text \<open>
  Fixed-width integers as bytes, in both byte orders (\<open>to_le_bytes\<close>, \<open>from_le_bytes\<close>, and their
  big-endian counterparts): they are inverse to each other, and the big-endian form of a fixed
  width keeps the numeric order under the bytewise order in which a key-value store sorts.
\<close>

primrec le_bytes :: "nat \<Rightarrow> nat \<Rightarrow> bytes" where
  "le_bytes 0 x = []"
| "le_bytes (Suc n) x = of_nat (x mod 256) # le_bytes n (x div 256)"

primrec le_value :: "bytes \<Rightarrow> nat" where
  "le_value [] = 0"
| "le_value (b # bs) = unat b + 256 * le_value bs"

definition be_bytes :: "nat \<Rightarrow> nat \<Rightarrow> bytes" where
  "be_bytes n x = rev (le_bytes n x)"

definition be_value :: "bytes \<Rightarrow> nat" where
  "be_value bs = le_value (rev bs)"

lemma length_le_bytes [simp]: "length (le_bytes n x) = n"
  by (induction n arbitrary: x) simp_all

lemma length_be_bytes [simp]: "length (be_bytes n x) = n"
  by (simp add: be_bytes_def)

lemma unat_byte [simp]: "unat (of_nat (x mod 256) :: u8) = x mod 256"
  by (simp add: unat_of_nat take_bit_nat_eq_self)

lemma le_value_bytes: "le_value (le_bytes n x) = x mod 256 ^ n"
proof (induction n arbitrary: x)
  case (Suc n)
  then show ?case by (simp add: mod_mult2_eq)
qed simp

lemma le_value_bound: "le_value bs < 256 ^ length bs"
proof (induction bs)
  case (Cons b bs)
  have "unat b < 256" using unsigned_less [of b] by simp
  with Cons show ?case by simp
qed simp

lemma le_bytes_value: "length bs = n \<Longrightarrow> le_bytes n (le_value bs) = bs"
proof (induction n arbitrary: bs)
  case (Suc n)
  then obtain b cs where bs: "bs = b # cs" "length cs = n" by (auto simp: length_Suc_conv)
  have "unat b < 256" using unsigned_less [of b] by simp
  then show ?case using Suc.IH [OF bs(2)] by (simp add: bs)
qed simp

lemma be_value_bytes: "be_value (be_bytes n x) = x mod 256 ^ n"
  by (simp add: be_value_def be_bytes_def le_value_bytes)

lemma be_bytes_value: "length bs = n \<Longrightarrow> be_bytes n (be_value bs) = bs"
  by (simp add: be_value_def be_bytes_def le_bytes_value)

lemma le_bytes_word: "of_nat (le_value (le_bytes n (unat w))) = (w :: 'a::len word)" if "LENGTH('a) = 8 * n"
proof -
  have "(256 :: nat) ^ n = 2 ^ LENGTH('a)" by (simp add: that power_mult)
  then show ?thesis using unsigned_less [of w] by (simp add: le_value_bytes)
qed

lemma be_bytes_word: "of_nat (be_value (be_bytes n (unat w))) = (w :: 'a::len word)" if "LENGTH('a) = 8 * n"
  using le_bytes_word [OF that] by (simp add: be_value_def be_bytes_def)

section \<open>Order\<close>

text \<open>The bytewise order of a store: the first difference decides, and a proper prefix comes first.\<close>

fun bytes_less :: "bytes \<Rightarrow> bytes \<Rightarrow> bool" where
  "bytes_less _ [] = False"
| "bytes_less [] (_ # _) = True"
| "bytes_less (a # as) (b # bs) = (a < b \<or> a = b \<and> bytes_less as bs)"

lemma bytes_less_append: "bytes_less (p @ as) (p @ bs) = bytes_less as bs"
  by (induction p) simp_all

lemma bytes_less_snoc:
  assumes "length as = length bs"
  shows "bytes_less (as @ [a]) (bs @ [b]) \<longleftrightarrow> bytes_less as bs \<or> as = bs \<and> a < b"
  using assms by (induction as bs rule: list_induct2) auto

lemma bytes_less_be:
  assumes "x < 256 ^ n" "y < 256 ^ n"
  shows "bytes_less (be_bytes n x) (be_bytes n y) \<longleftrightarrow> x < y"
  using assms
proof (induction n arbitrary: x y)
  case 0
  then show ?case by (simp add: be_bytes_def)
next
  case (Suc n)
  have d: "x div 256 < 256 ^ n" "y div 256 < 256 ^ n" using Suc.prems by (simp_all add: less_mult_imp_div_less mult.commute)
  have eq: "be_bytes n (x div 256) = be_bytes n (y div 256) \<longleftrightarrow> x div 256 = y div 256"
    using d be_value_bytes [of n "x div 256"] be_value_bytes [of n "y div 256"] by (metis mod_less)
  have "(of_nat (x mod 256) :: u8) < of_nat (y mod 256) \<longleftrightarrow> x mod 256 < y mod 256"
    by (simp add: word_less_nat_alt)
  then have "bytes_less (be_bytes (Suc n) x) (be_bytes (Suc n) y) \<longleftrightarrow>
      x div 256 < y div 256 \<or> x div 256 = y div 256 \<and> x mod 256 < y mod 256"
    using Suc.IH [OF d] eq bytes_less_snoc [of "be_bytes n (x div 256)" "be_bytes n (y div 256)"] by (simp add: be_bytes_def)
  also have "\<dots> \<longleftrightarrow> x < y"
  proof -
    have "x = 256 * (x div 256) + x mod 256" "y = 256 * (y div 256) + y mod 256" by simp_all
    moreover have "x mod 256 < 256" "y mod 256 < 256" by simp_all
    ultimately show ?thesis by linarith
  qed
  finally show ?case .
qed

end
