(* ===== verification/Wire_Messages.thy ===== *)
theory Wire_Messages
  imports Channel_Types Byte_Codec
begin

text \<open>
  The messages that nodes exchange and their protobuf forms: the conversions of
  \<open>sgtypes/src/message.rs\<close>, \<open>channel_transaction.rs\<close>, \<open>channel_transaction_sigs.rs\<close>,
  \<open>signed_channel_transaction.rs\<close> and \<open>s_value.rs\<close>, with the two-byte type in front
  of every frame. The structures that prost generates are records with the fields of the
  \<open>.proto\<close> files; their bytes, and libra's checks of addresses, keys, signatures and hashes, are
  the record \<open>wire_lib\<close>.
\<close>

section \<open>The environment\<close>

record wire_lib =
  address_ok :: "bytes \<Rightarrow> bool"
  public_key_ok :: "bytes \<Rightarrow> bool"
  signature_ok :: "bytes \<Rightarrow> bool"
  hash_ok :: "bytes \<Rightarrow> bool"
  argument_into :: "transaction_argument \<Rightarrow> bytes"
  argument_from :: "bytes \<Rightarrow> chan_error + transaction_argument"

definition to_address :: "wire_lib \<Rightarrow> bytes \<Rightarrow> chan_error + account_address" where
  "to_address W b = try_bind (ensure (address_ok W b) (Bail ''address length'')) (\<lambda>_. Inr b)"

definition to_public_key :: "wire_lib \<Rightarrow> bytes \<Rightarrow> chan_error + public_key" where
  "to_public_key W b = try_bind (ensure (public_key_ok W b) (Bail ''public key'')) (\<lambda>_. Inr b)"

definition to_signature :: "wire_lib \<Rightarrow> bytes \<Rightarrow> chan_error + signature" where
  "to_signature W b = try_bind (ensure (signature_ok W b) (Bail ''signature'')) (\<lambda>_. Inr b)"

definition to_hash :: "wire_lib \<Rightarrow> bytes \<Rightarrow> chan_error + hash_value" where
  "to_hash W b = try_bind (ensure (hash_ok W b) (Bail ''hash length'')) (\<lambda>_. Inr b)"

text \<open>\<open>map\<close> with a fallible function and \<open>collect::<Result<Vec<_>>>\<close>: the first error ends it.\<close>

fun try_map :: "('a \<Rightarrow> 'e + 'b) \<Rightarrow> 'a list \<Rightarrow> 'e + 'b list" where
  "try_map f [] = Inr []"
| "try_map f (x # xs) = try_bind (f x) (\<lambda>y. try_bind (try_map f xs) (\<lambda>ys. Inr (y # ys)))"

lemma try_map_cong [fundef_cong]:
  "xs = ys \<Longrightarrow> (\<And>x. x \<in> set ys \<Longrightarrow> f x = g x) \<Longrightarrow> try_map f xs = try_map g ys"
  by (induction ys arbitrary: xs) auto

text \<open>\<open>unwrap\<close> on a missing field.\<close>

definition unwrap :: "'a option \<Rightarrow> chan_error + 'a" where
  "unwrap x = ok_or x (Panic ''unwrap on None'')"

section \<open>Opening a channel\<close>

datatype struct_tag = StructTag account_address string string "struct_tag list"

datatype p_struct_tag = PStructTag bytes string string "p_struct_tag list"

fun struct_tag_from :: "wire_lib \<Rightarrow> p_struct_tag \<Rightarrow> chan_error + struct_tag" where
  "struct_tag_from W (PStructTag a m n ps) =
     try_bind (to_address W a) (\<lambda>a.
     try_bind (try_map (struct_tag_from W) ps) (\<lambda>ps. Inr (StructTag a m n ps)))"

fun struct_tag_into :: "struct_tag \<Rightarrow> p_struct_tag" where
  "struct_tag_into (StructTag a m n ps) = PStructTag a m n (map struct_tag_into ps)"

record raw_negotiate_message =
  rn_sender_addr :: account_address
  rn_resource_type :: struct_tag
  rn_sender_amount :: "64 word"
  rn_receiver_addr :: account_address
  rn_receiver_amount :: "64 word"

record p_raw_negotiate =
  prn_sender_addr :: bytes
  prn_resource_type :: "p_struct_tag option"
  prn_sender_amount :: "64 word"
  prn_receiver_addr :: bytes
  prn_receiver_amount :: "64 word"

definition raw_negotiate_from :: "wire_lib \<Rightarrow> p_raw_negotiate \<Rightarrow> chan_error + raw_negotiate_message" where
  "raw_negotiate_from W v =
     try_bind (to_address W (prn_sender_addr v)) (\<lambda>sender.
     try_bind (ok_or (prn_resource_type v) (Bail ''Missing resource_type'')) (\<lambda>t.
     try_bind (struct_tag_from W t) (\<lambda>t.
     try_bind (to_address W (prn_receiver_addr v)) (\<lambda>receiver.
       Inr \<lparr>rn_sender_addr = sender, rn_resource_type = t, rn_sender_amount = prn_sender_amount v,
            rn_receiver_addr = receiver, rn_receiver_amount = prn_receiver_amount v\<rparr>))))"

definition raw_negotiate_into :: "raw_negotiate_message \<Rightarrow> p_raw_negotiate" where
  "raw_negotiate_into v =
     \<lparr>prn_sender_addr = rn_sender_addr v, prn_resource_type = Some (struct_tag_into (rn_resource_type v)),
      prn_sender_amount = rn_sender_amount v, prn_receiver_addr = rn_receiver_addr v,
      prn_receiver_amount = rn_receiver_amount v\<rparr>"

record open_negotiate =
  on_raw :: raw_negotiate_message
  on_sender_sign :: signature
  on_receiver_sign :: "signature option"

record p_open_negotiate =
  pon_raw_message :: "p_raw_negotiate option"
  pon_sender_sign :: bytes
  pon_receiver_sign :: bytes

definition open_negotiate_from :: "wire_lib \<Rightarrow> p_open_negotiate \<Rightarrow> chan_error + open_negotiate" where
  "open_negotiate_from W v =
     try_bind (ok_or (pon_raw_message v) (Bail ''Missing raw_message'')) (\<lambda>r.
     try_bind (raw_negotiate_from W r) (\<lambda>r.
     try_bind (to_signature W (pon_sender_sign v)) (\<lambda>s.
     try_bind (if 0 < length (pon_receiver_sign v)
               then try_bind (to_signature W (pon_receiver_sign v)) (\<lambda>s. Inr (Some s)) else Inr None) (\<lambda>rs.
       Inr \<lparr>on_raw = r, on_sender_sign = s, on_receiver_sign = rs\<rparr>))))"

definition open_negotiate_into :: "open_negotiate \<Rightarrow> p_open_negotiate" where
  "open_negotiate_into v =
     \<lparr>pon_raw_message = Some (raw_negotiate_into (on_raw v)), pon_sender_sign = on_sender_sign v,
      pon_receiver_sign = (case on_receiver_sign v of None \<Rightarrow> [] | Some s \<Rightarrow> s)\<rparr>"

section \<open>Errors\<close>

fun error_code_into :: "sg_error_code \<Rightarrow> u32" where
  "error_code_into UNKNOWN = 0"
| "error_code_into SEQUENCE_NUMBER_WRONG = 1"
| "error_code_into TIMEOUT = 2"
| "error_code_into CHANNEL_NOT_EXIST = 3"
| "error_code_into INVALID_CHANNEL_STAGE = 4"
| "error_code_into REJECT = 5"
| "error_code_into NOT_PATH = 6"
| "error_code_into BALANCE_NOT_ENOUGH = 7"

definition error_code_from :: "u32 \<Rightarrow> chan_error + sg_error_code" where
  "error_code_from n =
     ok_or (find (\<lambda>c. error_code_into c = n) [UNKNOWN, SEQUENCE_NUMBER_WRONG, TIMEOUT, CHANNEL_NOT_EXIST,
       INVALID_CHANNEL_STAGE, REJECT, NOT_PATH, BALANCE_NOT_ENOUGH]) (Bail ''no variant'')"

record error_message =
  raw_transaction_hash :: hash_value
  em_error :: sg_error

record p_error_message =
  pem_hash :: bytes
  pem_code :: u32
  pem_message :: string

definition error_message_from :: "wire_lib \<Rightarrow> p_error_message \<Rightarrow> chan_error + error_message" where
  "error_message_from W v =
     try_bind (to_hash W (pem_hash v)) (\<lambda>h.
     try_bind (error_code_from (pem_code v)) (\<lambda>c.
       Inr \<lparr>raw_transaction_hash = h, em_error = \<lparr>error_code = c, sg_message = pem_message v\<rparr>\<rparr>))"

definition error_message_into :: "error_message \<Rightarrow> p_error_message" where
  "error_message_into v =
     \<lparr>pem_hash = raw_transaction_hash v, pem_code = error_code_into (error_code (em_error v)),
      pem_message = sg_message (em_error v)\<rparr>"

section \<open>Channel transactions\<close>

text \<open>\<open>po_type\<close> is what the generated accessor \<open>op_type()\<close> returns.\<close>

datatype op_type = OpTypeOpen | OpTypeExecute | OpTypeAction | OpTypeClose

record p_channel_op =
  po_type :: op_type
  po_package_name :: string
  po_script_name :: string
  po_module_address :: bytes
  po_module_name :: string
  po_function_name :: string

definition channel_op_from :: "wire_lib \<Rightarrow> p_channel_op \<Rightarrow> chan_error + channel_op" where
  "channel_op_from W v =
     (case po_type v of
        OpTypeOpen \<Rightarrow> Inr OpOpen
      | OpTypeExecute \<Rightarrow> Inr (OpExecute (po_package_name v) (po_script_name v))
      | OpTypeAction \<Rightarrow> try_bind (to_address W (po_module_address v)) (\<lambda>a.
          Inr (OpAction a (po_module_name v) (po_function_name v)))
      | OpTypeClose \<Rightarrow> Inr OpClose)"

definition p_channel_op_default :: p_channel_op where
  "p_channel_op_default = \<lparr>po_type = OpTypeOpen, po_package_name = [], po_script_name = [],
     po_module_address = [], po_module_name = [], po_function_name = []\<rparr>"

fun channel_op_into :: "channel_op \<Rightarrow> p_channel_op" where
  "channel_op_into OpOpen = p_channel_op_default\<lparr>po_type := OpTypeOpen\<rparr>"
| "channel_op_into (OpExecute p s) =
     p_channel_op_default\<lparr>po_package_name := p, po_script_name := s, po_type := OpTypeExecute\<rparr>"
| "channel_op_into (OpAction a m f) =
     p_channel_op_default\<lparr>po_type := OpTypeAction, po_module_address := a, po_module_name := m, po_function_name := f\<rparr>"
| "channel_op_into OpClose = p_channel_op_default\<lparr>po_type := OpTypeClose\<rparr>"

record p_channel_transaction =
  pct_version :: u64
  pct_channel_address :: bytes
  pct_channel_sequence_number :: u64
  pct_operator :: "p_channel_op option"
  pct_args :: "bytes list"
  pct_proposer :: bytes
  pct_sequence_number :: u64
  pct_expiration_time :: u64

definition channel_transaction_from :: "wire_lib \<Rightarrow> p_channel_transaction \<Rightarrow> chan_error + channel_transaction" where
  "channel_transaction_from W v =
     try_bind (to_address W (pct_channel_address v)) (\<lambda>ca.
     try_bind (to_address W (pct_proposer v)) (\<lambda>proposer.
     try_bind (unwrap (pct_operator v)) (\<lambda>op.
     try_bind (channel_op_from W op) (\<lambda>op.
     try_bind (try_map (argument_from W) (pct_args v)) (\<lambda>args.
       Inr \<lparr>ct_version = pct_version v, ct_channel_address = ca,
            ct_channel_sequence_number = pct_channel_sequence_number v, ct_operator = op, ct_args = args,
            ct_proposer = proposer, ct_sequence_number = pct_sequence_number v,
            ct_expiration_time = duration_from_secs (pct_expiration_time v)\<rparr>)))))"

definition channel_transaction_into :: "wire_lib \<Rightarrow> channel_transaction \<Rightarrow> p_channel_transaction" where
  "channel_transaction_into W v =
     \<lparr>pct_version = ct_version v, pct_channel_address = ct_channel_address v,
      pct_channel_sequence_number = ct_channel_sequence_number v,
      pct_operator = Some (channel_op_into (ct_operator v)), pct_args = map (argument_into W) (ct_args v),
      pct_proposer = ct_proposer v, pct_sequence_number = ct_sequence_number v,
      pct_expiration_time = d_secs (ct_expiration_time v)\<rparr>"

record p_proposal =
  pp_channel_txn :: "p_channel_transaction option"
  pp_public_key :: bytes
  pp_signature :: bytes

definition proposal_from :: "wire_lib \<Rightarrow> p_proposal \<Rightarrow> chan_error + channel_transaction_proposal" where
  "proposal_from W v =
     try_bind (unwrap (pp_channel_txn v)) (\<lambda>t.
     try_bind (channel_transaction_from W t) (\<lambda>t.
     try_bind (to_public_key W (pp_public_key v)) (\<lambda>k.
     try_bind (to_signature W (pp_signature v)) (\<lambda>s.
       Inr \<lparr>channel_txn = t, proposer_public_key = k, proposer_signature = s\<rparr>))))"

definition proposal_into :: "wire_lib \<Rightarrow> channel_transaction_proposal \<Rightarrow> p_proposal" where
  "proposal_into W v =
     \<lparr>pp_channel_txn = Some (channel_transaction_into W (channel_txn v)), pp_public_key = proposer_public_key v,
      pp_signature = proposer_signature v\<rparr>"

record p_sigs =
  ps_address :: bytes
  ps_public_key :: bytes
  ps_payload_signature :: bytes
  ps_witness_hash :: bytes
  ps_witness_signature :: bytes
  ps_travel_signature :: bytes

definition sigs_from :: "wire_lib \<Rightarrow> p_sigs \<Rightarrow> chan_error + channel_transaction_sigs" where
  "sigs_from W v =
     try_bind (to_address W (ps_address v)) (\<lambda>a.
     try_bind (to_public_key W (ps_public_key v)) (\<lambda>k.
     try_bind (to_signature W (ps_payload_signature v)) (\<lambda>p.
     try_bind (to_hash W (ps_witness_hash v)) (\<lambda>h.
     try_bind (to_signature W (ps_witness_signature v)) (\<lambda>w.
     try_bind (if length (ps_travel_signature v) = 0 then Inr None
               else try_bind (to_signature W (ps_travel_signature v)) (\<lambda>s. Inr (Some s))) (\<lambda>t.
       Inr \<lparr>sig_address = a, sig_public_key = k, channel_payload_signature = p, witness_data_hash = h,
            witness_data_signature = w, travel_output_witness_signature = t\<rparr>))))))"

definition sigs_into :: "channel_transaction_sigs \<Rightarrow> p_sigs" where
  "sigs_into v =
     \<lparr>ps_address = sig_address v, ps_public_key = sig_public_key v,
      ps_payload_signature = channel_payload_signature v, ps_witness_hash = witness_data_hash v,
      ps_witness_signature = witness_data_signature v,
      ps_travel_signature = (case travel_output_witness_signature v of None \<Rightarrow> [] | Some s \<Rightarrow> s)\<rparr>"

record channel_transaction_request =
  rq_proposal :: channel_transaction_proposal
  rq_sigs :: channel_transaction_sigs
  rq_travel :: bool

record p_request =
  prq_proposal :: "p_proposal option"
  prq_sigs :: "p_sigs option"
  prq_travel :: bool

definition request_from :: "wire_lib \<Rightarrow> p_request \<Rightarrow> chan_error + channel_transaction_request" where
  "request_from W v =
     try_bind (unwrap (prq_proposal v)) (\<lambda>p.
     try_bind (proposal_from W p) (\<lambda>p.
     try_bind (unwrap (prq_sigs v)) (\<lambda>s.
     try_bind (sigs_from W s) (\<lambda>s.
       Inr \<lparr>rq_proposal = p, rq_sigs = s, rq_travel = prq_travel v\<rparr>))))"

definition request_into :: "wire_lib \<Rightarrow> channel_transaction_request \<Rightarrow> p_request" where
  "request_into W v =
     \<lparr>prq_proposal = Some (proposal_into W (rq_proposal v)), prq_sigs = Some (sigs_into (rq_sigs v)),
      prq_travel = rq_travel v\<rparr>"

record channel_transaction_response =
  rs_proposal :: channel_transaction_proposal
  rs_sigs :: channel_transaction_sigs

record p_response =
  prs_proposal :: "p_proposal option"
  prs_sigs :: "p_sigs option"

definition response_from :: "wire_lib \<Rightarrow> p_response \<Rightarrow> chan_error + channel_transaction_response" where
  "response_from W v =
     try_bind (unwrap (prs_proposal v)) (\<lambda>p.
     try_bind (proposal_from W p) (\<lambda>p.
     try_bind (unwrap (prs_sigs v)) (\<lambda>s.
     try_bind (sigs_from W s) (\<lambda>s.
       Inr \<lparr>rs_proposal = p, rs_sigs = s\<rparr>))))"

definition response_into :: "wire_lib \<Rightarrow> channel_transaction_response \<Rightarrow> p_response" where
  "response_into W v =
     \<lparr>prs_proposal = Some (proposal_into W (rs_proposal v)), prs_sigs = Some (sigs_into (rs_sigs v))\<rparr>"

record p_signed_txn =
  pst_raw_tx :: "p_channel_transaction option"
  pst_signers :: "bytes list"
  pst_signatures :: "p_sigs list"

definition signed_txn_from :: "wire_lib \<Rightarrow> p_signed_txn \<Rightarrow> chan_error + signed_channel_transaction" where
  "signed_txn_from W v =
     try_bind (unwrap (pst_raw_tx v)) (\<lambda>t.
     try_bind (channel_transaction_from W t) (\<lambda>t.
     try_bind (try_map (to_address W) (pst_signers v)) (\<lambda>signers.
     try_bind (try_map (sigs_from W) (pst_signatures v)) (\<lambda>sigs.
     try_bind (ensure (length signers = length sigs) (Bail ''len mismatch.'')) (\<lambda>_.
       Inr \<lparr>raw_tx = t, sct_signatures = bt_of_list (zip signers sigs)\<rparr>)))))"

definition signed_txn_into :: "wire_lib \<Rightarrow> signed_channel_transaction \<Rightarrow> p_signed_txn" where
  "signed_txn_into W v =
     \<lparr>pst_raw_tx = Some (channel_transaction_into W (raw_tx v)), pst_signers = map fst (sct_signatures v),
      pst_signatures = map (\<lambda>(_, s). sigs_into s) (sct_signatures v)\<rparr>"

record next_hop =
  nh_remote_addr :: account_address
  nh_amount :: u64

definition next_hop_from :: "wire_lib \<Rightarrow> bytes \<times> u64 \<Rightarrow> chan_error + next_hop" where
  "next_hop_from W v = try_bind (to_address W (fst v)) (\<lambda>a. Inr \<lparr>nh_remote_addr = a, nh_amount = snd v\<rparr>)"

definition next_hop_into :: "next_hop \<Rightarrow> bytes \<times> u64" where
  "next_hop_into v = (nh_remote_addr v, nh_amount v)"

record multi_hop_request =
  mh_request :: channel_transaction_request
  mh_hops :: "next_hop list"

record p_multi_hop =
  pmh_request :: "p_request option"
  pmh_hops :: "(bytes \<times> u64) list"

text \<open>The hops are converted before the request, but a failure of theirs is reported after it.\<close>

definition multi_hop_from :: "wire_lib \<Rightarrow> p_multi_hop \<Rightarrow> chan_error + multi_hop_request" where
  "multi_hop_from W v =
     try_bind (ok_or (pmh_request v) (Bail ''Missing request'')) (\<lambda>r.
     try_bind (request_from W r) (\<lambda>r.
     try_bind (try_map (next_hop_from W) (pmh_hops v)) (\<lambda>hops.
       Inr \<lparr>mh_request = r, mh_hops = hops\<rparr>)))"

definition multi_hop_into :: "wire_lib \<Rightarrow> multi_hop_request \<Rightarrow> p_multi_hop" where
  "multi_hop_into W v =
     \<lparr>pmh_request = Some (request_into W (mh_request v)), pmh_hops = map next_hop_into (mh_hops v)\<rparr>"

section \<open>Router messages\<close>

type_synonym u128 = "128 word"

definition S_VALUE_LENGTH :: nat where "S_VALUE_LENGTH = 33"

type_synonym s_value = bytes

definition s_value_from :: "bytes \<Rightarrow> chan_error + s_value" where
  "s_value_from b = try_bind (ensure (length b = S_VALUE_LENGTH) (Bail ''invalid length'')) (\<lambda>_. Inr b)"

record balance_query_request =
  bq_local_addr :: account_address
  bq_remote_addr :: account_address

definition balance_request_from :: "wire_lib \<Rightarrow> bytes \<times> bytes \<Rightarrow> chan_error + balance_query_request" where
  "balance_request_from W v =
     try_bind (to_address W (fst v)) (\<lambda>l.
     try_bind (to_address W (snd v)) (\<lambda>r. Inr \<lparr>bq_local_addr = l, bq_remote_addr = r\<rparr>))"

definition balance_request_into :: "balance_query_request \<Rightarrow> bytes \<times> bytes" where
  "balance_request_into v = (bq_local_addr v, bq_remote_addr v)"

record balance_query_response =
  local_addr :: account_address
  remote_addr :: account_address
  local_balance :: u64
  remote_balance :: u64
  total_pay_amount :: u64

definition revert :: "balance_query_response \<Rightarrow> balance_query_response" where
  "revert v = \<lparr>local_addr = remote_addr v, remote_addr = local_addr v, local_balance = remote_balance v,
     remote_balance = local_balance v, total_pay_amount = total_pay_amount v\<rparr>"

record p_balance_response =
  pbr_local_addr :: bytes
  pbr_local_balance :: u64
  pbr_remote_addr :: bytes
  pbr_remote_balance :: u64
  pbr_total_pay_amount :: u64

definition balance_response_from :: "wire_lib \<Rightarrow> p_balance_response \<Rightarrow> chan_error + balance_query_response" where
  "balance_response_from W v =
     try_bind (to_address W (pbr_local_addr v)) (\<lambda>l.
     try_bind (to_address W (pbr_remote_addr v)) (\<lambda>r.
       Inr \<lparr>local_addr = l, remote_addr = r, local_balance = pbr_local_balance v,
            remote_balance = pbr_remote_balance v, total_pay_amount = pbr_total_pay_amount v\<rparr>))"

definition balance_response_into :: "balance_query_response \<Rightarrow> p_balance_response" where
  "balance_response_into v =
     \<lparr>pbr_local_addr = local_addr v, pbr_local_balance = local_balance v, pbr_remote_addr = remote_addr v,
      pbr_remote_balance = remote_balance v, pbr_total_pay_amount = total_pay_amount v\<rparr>"

record ant_query_message =
  aq_s_value :: s_value
  aq_sender_addr :: account_address
  aq_list :: "balance_query_response list"

record p_ant_query =
  paq_s_value :: bytes
  paq_sender_addr :: bytes
  paq_list :: "p_balance_response list"

definition ant_query_from :: "wire_lib \<Rightarrow> p_ant_query \<Rightarrow> chan_error + ant_query_message" where
  "ant_query_from W v =
     try_bind (s_value_from (paq_s_value v)) (\<lambda>s.
     try_bind (to_address W (paq_sender_addr v)) (\<lambda>a.
     try_bind (try_map (balance_response_from W) (paq_list v)) (\<lambda>l.
       Inr \<lparr>aq_s_value = s, aq_sender_addr = a, aq_list = l\<rparr>)))"

definition ant_query_into :: "ant_query_message \<Rightarrow> p_ant_query" where
  "ant_query_into v =
     \<lparr>paq_s_value = aq_s_value v, paq_sender_addr = aq_sender_addr v, paq_list = map balance_response_into (aq_list v)\<rparr>"

record ant_final_message =
  r_value :: hash_value
  af_list :: "balance_query_response list"

definition ant_final_from :: "wire_lib \<Rightarrow> bytes \<times> p_balance_response list \<Rightarrow> chan_error + ant_final_message" where
  "ant_final_from W v =
     try_bind (to_hash W (fst v)) (\<lambda>r.
     try_bind (try_map (balance_response_from W) (snd v)) (\<lambda>l. Inr \<lparr>r_value = r, af_list = l\<rparr>))"

definition ant_final_into :: "ant_final_message \<Rightarrow> bytes \<times> p_balance_response list" where
  "ant_final_into v = (r_value v, map balance_response_into (af_list v))"

text \<open>\<open>copy_from_slice\<close> into an array of sixteen bytes panics on any other length.\<close>

definition seed_from :: "bytes \<Rightarrow> chan_error + u128" where
  "seed_from b =
     (if length b = 16 then Inr (of_nat (le_value b)) else Inl (Panic ''copy_from_slice: different lengths''))"

definition seed_into :: "u128 \<Rightarrow> bytes" where
  "seed_into w = le_bytes 16 (unat w)"

record exchange_seed_response =
  es_sender_seed :: u128
  es_receiver_seed :: u128

definition exchange_request_from :: "bytes \<Rightarrow> chan_error + u128" where
  "exchange_request_from b = try_bind (seed_from b) (\<lambda>s. Inr s)"

definition exchange_request_into :: "u128 \<Rightarrow> bytes" where
  "exchange_request_into s = seed_into s"

definition exchange_response_from :: "bytes \<times> bytes \<Rightarrow> chan_error + exchange_seed_response" where
  "exchange_response_from v =
     try_bind (seed_from (fst v)) (\<lambda>s.
     try_bind (seed_from (snd v)) (\<lambda>r. Inr \<lparr>es_sender_seed = s, es_receiver_seed = r\<rparr>))"

definition exchange_response_into :: "exchange_seed_response \<Rightarrow> bytes \<times> bytes" where
  "exchange_response_into v = (seed_into (es_sender_seed v), seed_into (es_receiver_seed v))"

datatype router_network_message =
    ExchangeSeedRequest u128
  | ExchangeSeedResponse exchange_seed_response
  | AntQuery ant_query_message
  | AntFinal ant_final_message
  | BalanceRequest balance_query_request
  | BalanceResponse balance_query_response

datatype router_items =
    ItemSeedRequest bytes
  | ItemSeedResponse "bytes \<times> bytes"
  | ItemAntQuery p_ant_query
  | ItemAntFinal "bytes \<times> p_balance_response list"
  | ItemBalanceRequest "bytes \<times> bytes"
  | ItemBalanceResponse p_balance_response

fun router_message_from :: "wire_lib \<Rightarrow> router_items option \<Rightarrow> chan_error + router_network_message" where
  "router_message_from W None = Inl (Bail ''Missing txn_response_items'')"
| "router_message_from W (Some (ItemSeedRequest r)) = try_bind (exchange_request_from r) (Inr \<circ> ExchangeSeedRequest)"
| "router_message_from W (Some (ItemSeedResponse r)) = try_bind (exchange_response_from r) (Inr \<circ> ExchangeSeedResponse)"
| "router_message_from W (Some (ItemAntQuery r)) = try_bind (ant_query_from W r) (Inr \<circ> AntQuery)"
| "router_message_from W (Some (ItemAntFinal r)) = try_bind (ant_final_from W r) (Inr \<circ> AntFinal)"
| "router_message_from W (Some (ItemBalanceRequest r)) = try_bind (balance_request_from W r) (Inr \<circ> BalanceRequest)"
| "router_message_from W (Some (ItemBalanceResponse r)) = try_bind (balance_response_from W r) (Inr \<circ> BalanceResponse)"

fun router_message_into :: "router_network_message \<Rightarrow> router_items option" where
  "router_message_into (ExchangeSeedRequest r) = Some (ItemSeedRequest (exchange_request_into r))"
| "router_message_into (ExchangeSeedResponse r) = Some (ItemSeedResponse (exchange_response_into r))"
| "router_message_into (AntQuery r) = Some (ItemAntQuery (ant_query_into r))"
| "router_message_into (AntFinal r) = Some (ItemAntFinal (ant_final_into r))"
| "router_message_into (BalanceRequest r) = Some (ItemBalanceRequest (balance_request_into r))"
| "router_message_into (BalanceResponse r) = Some (ItemBalanceResponse (balance_response_into r))"

section \<open>Frames\<close>

datatype message_type = TypeOpenNegotiate | TypeRequest | TypeResponse | TypeError | TypeMultiHop | TypeRouter

fun get_type :: "message_type \<Rightarrow> 16 word" where
  "get_type TypeOpenNegotiate = 1"
| "get_type TypeRequest = 2"
| "get_type TypeResponse = 3"
| "get_type TypeError = 4"
| "get_type TypeMultiHop = 5"
| "get_type TypeRouter = 6"

definition from_type :: "16 word \<Rightarrow> chan_error + message_type" where
  "from_type n =
     (if n = 1 then Inr TypeOpenNegotiate else if n = 2 then Inr TypeRequest else if n = 3 then Inr TypeResponse
      else if n = 4 then Inr TypeError else if n = 5 then Inr TypeMultiHop else if n = 6 then Inr TypeRouter
      else Inl (Bail ''no such type''))"

definition parse_message_type :: "bytes \<Rightarrow> chan_error + message_type" where
  "parse_message_type d =
     (if length d < 2 then Inl (Panic ''range end index out of range'')
      else (case from_type (of_nat (be_value (take 2 d))) of
              Inl _ \<Rightarrow> Inl (Panic ''unwrap on Err'')
            | Inr t \<Rightarrow> Inr t))"

definition add_message_type :: "bytes \<Rightarrow> message_type \<Rightarrow> bytes" where
  "add_message_type d t = be_bytes 2 (unat (get_type t)) @ d"

end
