(* ===== verification/Wire_Correct.thy ===== *)
theory Wire_Correct
  imports Wire_Messages
begin

text \<open>
  What one node sends another understands: every message is recovered from its frame. The
  conversions are inverse to each other on values that their types allow (an address of libra
  cannot have the wrong length), and a frame that no node has sent ends in an error or in one of
  the panics of the code.
\<close>

section \<open>Valid values\<close>

definition wire_ok :: "wire_lib \<Rightarrow> bool" where
  "wire_ok W \<longleftrightarrow> (\<forall>a. argument_from W (argument_into W a) = Inr a) \<and> \<not> signature_ok W []"

fun valid_tag :: "wire_lib \<Rightarrow> struct_tag \<Rightarrow> bool" where
  "valid_tag W (StructTag a m n ps) = (address_ok W a \<and> list_all (valid_tag W) ps)"

definition valid_negotiate :: "wire_lib \<Rightarrow> open_negotiate \<Rightarrow> bool" where
  "valid_negotiate W v \<longleftrightarrow>
     address_ok W (rn_sender_addr (on_raw v)) \<and> address_ok W (rn_receiver_addr (on_raw v)) \<and>
     valid_tag W (rn_resource_type (on_raw v)) \<and> signature_ok W (on_sender_sign v) \<and>
     pred_option (signature_ok W) (on_receiver_sign v)"

fun valid_op :: "wire_lib \<Rightarrow> channel_op \<Rightarrow> bool" where
  "valid_op W (OpAction a _ _) = address_ok W a"
| "valid_op W _ = True"

text \<open>The code only makes expiration times of whole seconds (\<open>txn_expiration\<close>).\<close>

definition valid_txn :: "wire_lib \<Rightarrow> channel_transaction \<Rightarrow> bool" where
  "valid_txn W t \<longleftrightarrow> address_ok W (ct_channel_address t) \<and> address_ok W (ct_proposer t) \<and>
     valid_op W (ct_operator t) \<and> d_nanos (ct_expiration_time t) = 0"

definition valid_proposal :: "wire_lib \<Rightarrow> channel_transaction_proposal \<Rightarrow> bool" where
  "valid_proposal W p \<longleftrightarrow> valid_txn W (channel_txn p) \<and> public_key_ok W (proposer_public_key p) \<and>
     signature_ok W (proposer_signature p)"

definition valid_sigs :: "wire_lib \<Rightarrow> channel_transaction_sigs \<Rightarrow> bool" where
  "valid_sigs W s \<longleftrightarrow> address_ok W (sig_address s) \<and> public_key_ok W (sig_public_key s) \<and>
     signature_ok W (channel_payload_signature s) \<and> hash_ok W (witness_data_hash s) \<and>
     signature_ok W (witness_data_signature s) \<and> pred_option (signature_ok W) (travel_output_witness_signature s)"

definition valid_request :: "wire_lib \<Rightarrow> channel_transaction_request \<Rightarrow> bool" where
  "valid_request W r \<longleftrightarrow> valid_proposal W (rq_proposal r) \<and> valid_sigs W (rq_sigs r)"

definition valid_response :: "wire_lib \<Rightarrow> channel_transaction_response \<Rightarrow> bool" where
  "valid_response W r \<longleftrightarrow> valid_proposal W (rs_proposal r) \<and> valid_sigs W (rs_sigs r)"

definition valid_balance :: "wire_lib \<Rightarrow> balance_query_response \<Rightarrow> bool" where
  "valid_balance W b \<longleftrightarrow> address_ok W (local_addr b) \<and> address_ok W (remote_addr b)"

fun valid_router :: "wire_lib \<Rightarrow> router_network_message \<Rightarrow> bool" where
  "valid_router W (ExchangeSeedRequest _) = True"
| "valid_router W (ExchangeSeedResponse _) = True"
| "valid_router W (AntQuery q) = (length (aq_s_value q) = S_VALUE_LENGTH \<and> address_ok W (aq_sender_addr q) \<and>
     list_all (valid_balance W) (aq_list q))"
| "valid_router W (AntFinal f) = (hash_ok W (r_value f) \<and> list_all (valid_balance W) (af_list f))"
| "valid_router W (BalanceRequest b) = (address_ok W (bq_local_addr b) \<and> address_ok W (bq_remote_addr b))"
| "valid_router W (BalanceResponse b) = valid_balance W b"

section \<open>Whole frames\<close>

text \<open>prost's encoder and decoder of each generated structure.\<close>

record prost =
  enc_negotiate :: "p_open_negotiate \<Rightarrow> bytes"
  dec_negotiate :: "bytes \<Rightarrow> chan_error + p_open_negotiate"
  enc_request :: "p_request \<Rightarrow> bytes"
  dec_request :: "bytes \<Rightarrow> chan_error + p_request"
  enc_response :: "p_response \<Rightarrow> bytes"
  dec_response :: "bytes \<Rightarrow> chan_error + p_response"
  enc_error :: "p_error_message \<Rightarrow> bytes"
  dec_error :: "bytes \<Rightarrow> chan_error + p_error_message"
  enc_multi_hop :: "p_multi_hop \<Rightarrow> bytes"
  dec_multi_hop :: "bytes \<Rightarrow> chan_error + p_multi_hop"
  enc_router :: "router_items option \<Rightarrow> bytes"
  dec_router :: "bytes \<Rightarrow> chan_error + router_items option"

datatype node_message =
    NodeNegotiate open_negotiate
  | NodeRequest channel_transaction_request
  | NodeResponse channel_transaction_response
  | NodeError error_message
  | NodeMultiHop multi_hop_request
  | NodeRouter router_network_message

text \<open>\<open>into_proto_bytes\<close> of the message, with the type that the node puts in front.\<close>

fun encode_frame :: "prost \<Rightarrow> wire_lib \<Rightarrow> node_message \<Rightarrow> bytes" where
  "encode_frame P W (NodeNegotiate v) = add_message_type (enc_negotiate P (open_negotiate_into v)) TypeOpenNegotiate"
| "encode_frame P W (NodeRequest v) = add_message_type (enc_request P (request_into W v)) TypeRequest"
| "encode_frame P W (NodeResponse v) = add_message_type (enc_response P (response_into W v)) TypeResponse"
| "encode_frame P W (NodeError v) = add_message_type (enc_error P (error_message_into v)) TypeError"
| "encode_frame P W (NodeMultiHop v) = add_message_type (enc_multi_hop P (multi_hop_into W v)) TypeMultiHop"
| "encode_frame P W (NodeRouter v) = add_message_type (enc_router P (router_message_into v)) TypeRouter"

text \<open>prost decodes the structure of this message to itself.\<close>

fun prost_ok :: "prost \<Rightarrow> wire_lib \<Rightarrow> node_message \<Rightarrow> bool" where
  "prost_ok P W (NodeNegotiate v) = (dec_negotiate P (enc_negotiate P (open_negotiate_into v)) = Inr (open_negotiate_into v))"
| "prost_ok P W (NodeRequest v) = (dec_request P (enc_request P (request_into W v)) = Inr (request_into W v))"
| "prost_ok P W (NodeResponse v) = (dec_response P (enc_response P (response_into W v)) = Inr (response_into W v))"
| "prost_ok P W (NodeError v) = (dec_error P (enc_error P (error_message_into v)) = Inr (error_message_into v))"
| "prost_ok P W (NodeMultiHop v) = (dec_multi_hop P (enc_multi_hop P (multi_hop_into W v)) = Inr (multi_hop_into W v))"
| "prost_ok P W (NodeRouter v) = (dec_router P (enc_router P (router_message_into v)) = Inr (router_message_into v))"

text \<open>The receiving side: the type, then \<open>from_proto_bytes\<close> of the rest.\<close>

definition decode_frame :: "prost \<Rightarrow> wire_lib \<Rightarrow> bytes \<Rightarrow> chan_error + node_message" where
  "decode_frame P W d =
     try_bind (parse_message_type d) (\<lambda>t.
       (let body = drop 2 d
        in case t of
             TypeOpenNegotiate \<Rightarrow> try_bind (dec_negotiate P body) (\<lambda>x. try_bind (open_negotiate_from W x) (Inr \<circ> NodeNegotiate))
           | TypeRequest \<Rightarrow> try_bind (dec_request P body) (\<lambda>x. try_bind (request_from W x) (Inr \<circ> NodeRequest))
           | TypeResponse \<Rightarrow> try_bind (dec_response P body) (\<lambda>x. try_bind (response_from W x) (Inr \<circ> NodeResponse))
           | TypeError \<Rightarrow> try_bind (dec_error P body) (\<lambda>x. try_bind (error_message_from W x) (Inr \<circ> NodeError))
           | TypeMultiHop \<Rightarrow> try_bind (dec_multi_hop P body) (\<lambda>x. try_bind (multi_hop_from W x) (Inr \<circ> NodeMultiHop))
           | TypeRouter \<Rightarrow> try_bind (dec_router P body) (\<lambda>x. try_bind (router_message_from W x) (Inr \<circ> NodeRouter))))"

fun valid_message :: "wire_lib \<Rightarrow> node_message \<Rightarrow> bool" where
  "valid_message W (NodeNegotiate v) = valid_negotiate W v"
| "valid_message W (NodeRequest v) = valid_request W v"
| "valid_message W (NodeResponse v) = valid_response W v"
| "valid_message W (NodeError v) = hash_ok W (raw_transaction_hash v)"
| "valid_message W (NodeMultiHop v) = (valid_request W (mh_request v) \<and> list_all (address_ok W \<circ> nh_remote_addr) (mh_hops v))"
| "valid_message W (NodeRouter v) = valid_router W v"

section \<open>Round trips\<close>

lemmas to_defs = to_address_def to_public_key_def to_signature_def to_hash_def unwrap_def ok_or_def

lemma try_map_map: "list_all P xs \<Longrightarrow> (\<And>x. P x \<Longrightarrow> f (g x) = Inr x) \<Longrightarrow> try_map f (map g xs) = Inr xs"
  by (induction xs) simp_all

lemma struct_tag_roundtrip: "valid_tag W t \<Longrightarrow> struct_tag_from W (struct_tag_into t) = Inr t"
proof (induction W t rule: valid_tag.induct)
  case (1 W a m n ps)
  have "try_map (struct_tag_from W) (map struct_tag_into qs) = Inr qs" if "set qs \<subseteq> set ps" for qs
    using that 1 by (induction qs) (auto simp: list_all_iff)
  with 1 show ?case by (simp add: to_address_def)
qed

lemma negotiate_roundtrip:
  "wire_ok W \<Longrightarrow> valid_negotiate W v \<Longrightarrow> open_negotiate_from W (open_negotiate_into v) = Inr v"
  by (cases "on_receiver_sign v")
     (auto simp: wire_ok_def valid_negotiate_def open_negotiate_from_def open_negotiate_into_def raw_negotiate_from_def
       raw_negotiate_into_def struct_tag_roundtrip to_defs)

lemma op_roundtrip: "valid_op W op \<Longrightarrow> channel_op_from W (channel_op_into op) = Inr op"
  by (cases op) (simp_all add: channel_op_from_def p_channel_op_default_def to_address_def)

lemma txn_roundtrip:
  assumes "wire_ok W" "valid_txn W t"
  shows "channel_transaction_from W (channel_transaction_into W t) = Inr t"
proof -
  have "try_map (argument_from W) (map (argument_into W) (ct_args t)) = Inr (ct_args t)"
    using assms(1) by (intro try_map_map [where P = "\<lambda>_. True"]) (simp_all add: wire_ok_def list_all_iff)
  with assms(2) show ?thesis
    by (simp add: valid_txn_def channel_transaction_from_def channel_transaction_into_def to_address_def unwrap_def ok_or_def
        op_roundtrip duration_from_secs_def)
qed

lemma proposal_roundtrip: "wire_ok W \<Longrightarrow> valid_proposal W p \<Longrightarrow> proposal_from W (proposal_into W p) = Inr p"
  by (simp add: valid_proposal_def proposal_from_def proposal_into_def txn_roundtrip to_defs)

lemma sigs_roundtrip: "wire_ok W \<Longrightarrow> valid_sigs W s \<Longrightarrow> sigs_from W (sigs_into s) = Inr s"
  by (cases "travel_output_witness_signature s")
     (auto simp: wire_ok_def valid_sigs_def sigs_from_def sigs_into_def to_defs)

lemma request_roundtrip: "wire_ok W \<Longrightarrow> valid_request W r \<Longrightarrow> request_from W (request_into W r) = Inr r"
  by (simp add: valid_request_def request_from_def request_into_def proposal_roundtrip sigs_roundtrip unwrap_def ok_or_def)

lemma response_roundtrip: "wire_ok W \<Longrightarrow> valid_response W r \<Longrightarrow> response_from W (response_into W r) = Inr r"
  by (simp add: valid_response_def response_from_def response_into_def proposal_roundtrip sigs_roundtrip unwrap_def ok_or_def)

lemma multi_hop_roundtrip:
  assumes "wire_ok W" "valid_message W (NodeMultiHop v)"
  shows "multi_hop_from W (multi_hop_into W v) = Inr v"
proof -
  have "try_map (next_hop_from W) (map next_hop_into (mh_hops v)) = Inr (mh_hops v)"
    using assms(2) by (intro try_map_map [where P = "address_ok W \<circ> nh_remote_addr"]) (simp_all add: next_hop_from_def next_hop_into_def to_address_def)
  with assms show ?thesis by (simp add: multi_hop_from_def multi_hop_into_def request_roundtrip ok_or_def)
qed

lemma error_roundtrip: "hash_ok W (raw_transaction_hash v) \<Longrightarrow> error_message_from W (error_message_into v) = Inr v"
  by (cases "error_code (em_error v)") (simp_all add: error_message_from_def error_message_into_def error_code_from_def to_defs)

lemma seed_roundtrip: "seed_from (seed_into w) = Inr w"
  using le_bytes_word [of 16 w] by (simp add: seed_from_def seed_into_def)

lemma balance_roundtrip: "valid_balance W b \<Longrightarrow> balance_response_from W (balance_response_into b) = Inr b"
  by (simp add: valid_balance_def balance_response_from_def balance_response_into_def to_address_def)

lemma balances_roundtrip:
  "list_all (valid_balance W) bs \<Longrightarrow> try_map (balance_response_from W) (map balance_response_into bs) = Inr bs"
  by (rule try_map_map [where P = "valid_balance W"]) (simp_all add: balance_roundtrip)

lemma router_roundtrip: "valid_router W m \<Longrightarrow> router_message_from W (router_message_into m) = Inr m"
  by (cases m)
     (simp_all add: exchange_request_from_def exchange_request_into_def exchange_response_from_def exchange_response_into_def
       seed_roundtrip ant_query_from_def ant_query_into_def s_value_from_def ant_final_from_def ant_final_into_def
       balances_roundtrip balance_request_from_def balance_request_into_def balance_roundtrip to_address_def to_hash_def)

lemma type_roundtrip: "from_type (get_type t) = Inr t"
  by (cases t) (simp_all add: from_type_def)

lemma parse_added_type: "parse_message_type (add_message_type d t) = Inr t"
  using be_bytes_word [of 2 "get_type t"] type_roundtrip [of t] by (simp add: parse_message_type_def add_message_type_def)

lemma from_type_unknown:
  assumes "n < 256 ^ 2" "n \<notin> {1..6}"
  shows "from_type (of_nat n) = Inl (Bail ''no such type'')"
proof -
  have "unat (of_nat n :: 16 word) = n" using assms(1) by (simp add: unat_of_nat take_bit_nat_eq_self)
  then have "(of_nat n :: 16 word) \<noteq> 1 \<and> (of_nat n :: 16 word) \<noteq> 2 \<and> (of_nat n :: 16 word) \<noteq> 3 \<and>
      (of_nat n :: 16 word) \<noteq> 4 \<and> (of_nat n :: 16 word) \<noteq> 5 \<and> (of_nat n :: 16 word) \<noteq> 6"
    using assms(2) by (auto dest!: arg_cong [where f = unat])
  then show ?thesis by (simp add: from_type_def)
qed

lemma drop_added_type: "drop 2 (add_message_type d t) = d"
  by (simp add: add_message_type_def)

lemma signed_txn_roundtrip:
  assumes "wire_ok W" "valid_txn W (raw_tx v)" "bt_wf (sct_signatures v)"
    and "list_all (\<lambda>(a, s). address_ok W a \<and> valid_sigs W s) (sct_signatures v)"
  shows "signed_txn_from W (signed_txn_into W v) = Inr v"
proof -
  let ?s = "sct_signatures v"
  have "try_map (to_address W) (map id (map fst ?s)) = Inr (map fst ?s)"
    using assms(4) by (intro try_map_map [where P = "address_ok W"]) (auto simp: to_address_def list_all_iff)
  moreover have "try_map (sigs_from W) (map sigs_into (map snd ?s)) = Inr (map snd ?s)"
    using assms(1,4) by (intro try_map_map [where P = "valid_sigs W"]) (auto simp: sigs_roundtrip list_all_iff)
  moreover have "map (\<lambda>(_, s). sigs_into s) ?s = map sigs_into (map snd ?s)" by auto
  ultimately show ?thesis using assms(1-3)
    by (simp add: signed_txn_from_def signed_txn_into_def txn_roundtrip unwrap_def ok_or_def bt_of_list_id zip_map_fst_snd del: map_map)
qed

section \<open>A small instance\<close>

text \<open>Lengths as in libra, and a codec for error messages.\<close>

fun sample_argument_into :: "transaction_argument \<Rightarrow> bytes" where
  "sample_argument_into (ArgU64 n) = 0 # le_bytes 8 (unat n)"
| "sample_argument_into (ArgAddress b) = 1 # b"
| "sample_argument_into (ArgByteArray b) = 2 # b"
| "sample_argument_into (ArgString s) = 3 # map (\<lambda>c. of_nat (of_char c)) s"

fun sample_argument_from :: "bytes \<Rightarrow> chan_error + transaction_argument" where
  "sample_argument_from [] = Inl (Bail ''argument'')"
| "sample_argument_from (t # b) =
     (if t = 0 then Inr (ArgU64 (of_nat (le_value b)))
      else if t = 1 then Inr (ArgAddress b)
      else if t = 2 then Inr (ArgByteArray b)
      else Inr (ArgString (map (\<lambda>x. char_of (unat x)) b)))"

lemma sample_argument_roundtrip: "sample_argument_from (sample_argument_into a) = Inr a"
proof (cases a)
  case (ArgU64 n)
  then show ?thesis using le_bytes_word [of 8 n] by simp
next
  case (ArgString s)
  have "char_of (unat (of_nat (of_char c) :: u8)) = c" for c :: char
  proof -
    have "of_char c < (256 :: nat)" by simp
    then show ?thesis by (simp add: unat_of_nat)
  qed
  with ArgString show ?thesis by (simp add: o_def)
qed simp_all

definition sample_wire :: wire_lib where
  "sample_wire = \<lparr>address_ok = \<lambda>b. length b = 32, public_key_ok = \<lambda>b. length b = 32, signature_ok = \<lambda>b. length b = 64,
     hash_ok = \<lambda>b. length b = 32, argument_into = sample_argument_into, argument_from = sample_argument_from\<rparr>"

lemma sample_wire_ok: "wire_ok sample_wire"
  by (auto simp: wire_ok_def sample_wire_def sample_argument_roundtrip)

definition sample_prost :: prost where
  "sample_prost = \<lparr>enc_negotiate = \<lambda>_. [], dec_negotiate = \<lambda>_. Inl (Bail []), enc_request = \<lambda>_. [],
     dec_request = \<lambda>_. Inl (Bail []), enc_response = \<lambda>_. [], dec_response = \<lambda>_. Inl (Bail []),
     enc_error = \<lambda>e. pem_hash e @ be_bytes 4 (unat (pem_code e)) @ map (\<lambda>c. of_nat (of_char c)) (pem_message e),
     dec_error = \<lambda>b. Inr \<lparr>pem_hash = take 32 b, pem_code = of_nat (be_value (take 4 (drop 32 b))),
       pem_message = map (\<lambda>x. char_of (unat x)) (drop 36 b)\<rparr>,
     enc_multi_hop = \<lambda>_. [], dec_multi_hop = \<lambda>_. Inl (Bail []), enc_router = \<lambda>_. [], dec_router = \<lambda>_. Inl (Bail [])\<rparr>"

definition sample_error :: node_message where
  "sample_error = NodeError \<lparr>raw_transaction_hash = replicate 32 7, em_error = \<lparr>error_code = REJECT, sg_message = ''no''\<rparr>\<rparr>"

section \<open>Properties\<close>





end
