(* ===== verification/Router_Stats.thy ===== *)
theory Router_Stats
  imports Wire_Messages
begin

text \<open>
  The payment statistics of the router (\<open>router/stats/src/lib.rs\<close>) and the table of open requests
  (\<open>router/src/message_processor.rs\<close>).

  An asynchronous function may wait for ever: its result is an option, \<open>None\<close> when it never
  returns. A \<open>futures::lock::Mutex\<close> is not reentrant; the guard made in the scrutinee of a \<open>match\<close>
  is held until the end of the \<open>match\<close>. \<open>stats_locked\<close> says that a task that never finishes holds
  the lock.
\<close>

section \<open>Waiting\<close>

type_synonym 'a awaited = "(chan_error + 'a) option"

definition await_bind :: "'a awaited \<Rightarrow> ('a \<Rightarrow> 'b awaited) \<Rightarrow> 'b awaited" where
  "await_bind x f = (case x of None \<Rightarrow> None | Some (Inl e) \<Rightarrow> Some (Inl e) | Some (Inr a) \<Rightarrow> f a)"

lemma await_bind_simps [simp]:
  "await_bind None f = None" "await_bind (Some (Inl e)) f = Some (Inl e)" "await_bind (Some (Inr a)) f = f a"
  by (simp_all add: await_bind_def)

lemma await_bind_ok: "await_bind x f = Some (Inr b) \<longleftrightarrow> (\<exists>a. x = Some (Inr a) \<and> f a = Some (Inr b))"
  by (auto simp: await_bind_def split: option.splits sum.splits)

section \<open>Payment statistics\<close>

datatype pay_enum = Paying | Payed

type_synonym directed_channel = "account_address \<times> account_address"
type_synonym payment_info = "hash_value \<times> u64 \<times> pay_enum"
type_synonym channel_stats = "(hash_value \<times> u64) list"

definition cs_insert :: "u64 \<Rightarrow> hash_value \<Rightarrow> channel_stats \<Rightarrow> channel_stats" where
  "cs_insert amount h cs = AList.update h amount cs"

definition cs_remove :: "hash_value \<Rightarrow> channel_stats \<Rightarrow> channel_stats" where
  "cs_remove h cs = AList.delete h cs"

definition cs_sum :: "channel_stats \<Rightarrow> u64" where
  "cs_sum cs = fold (\<lambda>(_, amount) r. r + amount) cs 0"

record stats =
  user_channel_stats :: "(directed_channel \<times> channel_stats) list"
  stats_locked :: bool

definition stats_new :: stats where
  "stats_new = \<lparr>user_channel_stats = [], stats_locked = False\<rparr>"

definition insert_channel_stats :: "directed_channel \<Rightarrow> channel_stats \<Rightarrow> stats \<Rightarrow> unit awaited \<times> stats" where
  "insert_channel_stats channel cs s =
     (if stats_locked s then (None, s)
      else (Some (Inr ()), s\<lparr>user_channel_stats := AList.update channel cs (user_channel_stats s)\<rparr>))"

text \<open>In both matches the guard of the outer lock lives until the arm has finished.\<close>

definition handle_data_message :: "directed_channel \<Rightarrow> payment_info \<Rightarrow> stats \<Rightarrow> unit awaited \<times> stats" where
  "handle_data_message channel info s =
     (if stats_locked s then (None, s)
      else (case info of
              (h, amount, Paying) \<Rightarrow>
                (case map_of (user_channel_stats s) channel of
                   Some cs \<Rightarrow>
                     (Some (Inr ()), s\<lparr>user_channel_stats := AList.update channel (cs_insert amount h cs) (user_channel_stats s)\<rparr>)
                 | None \<Rightarrow> insert_channel_stats channel (cs_insert amount h []) (s\<lparr>stats_locked := True\<rparr>))
            | (h, amount, Payed) \<Rightarrow>
                (case map_of (user_channel_stats s) channel of
                   Some cs \<Rightarrow>
                     (Some (Inr ()), s\<lparr>user_channel_stats := AList.update channel (cs_remove h cs) (user_channel_stats s)\<rparr>)
                 | None \<Rightarrow> (Some (Inr ()), s))))"

definition payment_pressure :: "directed_channel \<Rightarrow> stats \<Rightarrow> u64 awaited" where
  "payment_pressure channel s =
     (if stats_locked s then None
      else Some (Inr (case map_of (user_channel_stats s) channel of Some cs \<Rightarrow> cs_sum cs | None \<Rightarrow> 0)))"

text \<open>\<open>StatsInner::start\<close>: messages one after the other; a message that is never finished, or fails,
  ends it.\<close>

fun stats_start :: "(directed_channel \<times> payment_info) list \<Rightarrow> stats \<Rightarrow> stats" where
  "stats_start [] s = s"
| "stats_start ((channel, info) # rest) s =
     (case handle_data_message channel info s of
        (Some (Inr _), s) \<Rightarrow> stats_start rest s
      | (_, s) \<Rightarrow> s)"

section \<open>Open requests\<close>

text \<open>A future is named by a number; \<open>fut_inbox\<close> is the bounded channel behind it (one message and one
  more per sender), \<open>fut_open\<close> whether its receiver still exists. \<open>tx_map\<close> has the future that
  waits for an answer to the request with a hash.\<close>

datatype 'a answer = AnswerOk 'a | AnswerTimeout

record 'a message_processor =
  tx_map :: "(hash_value \<times> nat) list"
  fut_inbox :: "(nat \<times> 'a answer) list"
  fut_open :: "nat list"

definition processor_new :: "'a message_processor" where
  "processor_new = \<lparr>tx_map = [], fut_inbox = [], fut_open = []\<rparr>"

text \<open>A caller makes a channel for its future and registers the sender, unless one is registered.\<close>

definition add_future :: "hash_value \<Rightarrow> nat \<Rightarrow> 'a message_processor \<Rightarrow> 'a message_processor" where
  "add_future h f p =
     p\<lparr>tx_map := (case map_of (tx_map p) h of Some _ \<Rightarrow> tx_map p | None \<Rightarrow> AList.update h f (tx_map p)),
       fut_open := f # fut_open p\<rparr>"

definition send_response :: "hash_value \<Rightarrow> 'a \<Rightarrow> 'a message_processor \<Rightarrow> 'a message_processor" where
  "send_response h v p =
     (case map_of (tx_map p) h of
        Some f \<Rightarrow>
          if f \<in> set (fut_open p)
          then p\<lparr>fut_inbox := fut_inbox p @ [(f, AnswerOk v)], tx_map := AList.delete h (tx_map p)\<rparr>
          else p
      | None \<Rightarrow> p)"

text \<open>A timeout whose receiver is gone makes \<open>unwrap\<close> panic; the entry stays.\<close>

definition remove_future :: "hash_value \<Rightarrow> 'a message_processor \<Rightarrow> (chan_error + unit) \<times> 'a message_processor" where
  "remove_future h p =
     (case map_of (tx_map p) h of
        Some f \<Rightarrow>
          if f \<in> set (fut_open p)
          then (Inr (), p\<lparr>fut_inbox := fut_inbox p @ [(f, AnswerTimeout)], tx_map := AList.delete h (tx_map p)\<rparr>)
          else (Inl (Panic ''unwrap on Err''), p)
      | None \<Rightarrow> (Inr (), p))"

text \<open>The caller takes the first message; then its receiver is dropped. Without one it waits.\<close>

definition poll_future :: "nat \<Rightarrow> 'a message_processor \<Rightarrow> 'a answer option \<times> 'a message_processor" where
  "poll_future f p =
     (case map_of (fut_inbox p) f of
        Some a \<Rightarrow> (Some a, p\<lparr>fut_open := remove1 f (fut_open p)\<rparr>)
      | None \<Rightarrow> (None, p))"

section \<open>Properties\<close>

text \<open>C38. The first payment that is reported stops the statistics for good. As long as only finished
  payments are reported the pressure of every channel is zero; the first payment in progress is
  recorded under a lock that the same task holds, so that it waits for itself, and from then on
  nobody gets an answer about any channel.\<close>

theorem stats_self_deadlock:
  "payment_pressure channel (stats_start msgs stats_new) =
     (if \<exists>c h a. (c, h, a, Paying) \<in> set msgs then None else Some (Inr 0))"
proof -
  define paying where "paying msgs \<longleftrightarrow> (\<exists>c h a. (c, h, a, Paying) \<in> set msgs)" for msgs :: "(directed_channel \<times> payment_info) list"
  have step: "paying ((c, h, a, k) # msgs) \<longleftrightarrow> k = Paying \<or> paying msgs" for c h a k msgs
    unfolding paying_def by (cases c; cases k) auto
  have "payment_pressure channel (stats_start msgs s) = (if paying msgs then None else Some (Inr 0))"
    if "user_channel_stats s = []" "\<not> stats_locked s" for s
    using that
  proof (induction msgs arbitrary: s)
    case Nil
    then show ?case by (simp add: payment_pressure_def paying_def)
  next
    case (Cons m msgs)
    obtain c h a k where m: "m = (c, h, a, k)" by (cases m)
    show ?case
    proof (cases k)
      case Paying
      then show ?thesis
        using Cons.prems by (simp add: m step handle_data_message_def insert_channel_stats_def payment_pressure_def)
    next
      case Payed
      then show ?thesis using Cons by (simp add: m step handle_data_message_def)
    qed
  qed
  then show ?thesis by (simp add: stats_new_def paying_def)
qed

end
