(* ===== verification/Ant_Router.thy ===== *)
theory Ant_Router
  imports Router_Stats
begin

text \<open>
  The ant router (\<open>router/ant/src\<close>): the sender and the receiver of a payment agree on two seeds
  and each sends ants through their channels; where two ants of the same query meet, the joined
  list of channels goes back to the sender, which orders it into a path and takes the path with the
  least pressure.

  The wallet's answers are functions: the open channels, and the two balances of a channel.
\<close>

section \<open>S values\<close>

text \<open>The first byte tells the two sides apart, the other thirty-two are shared.\<close>

definition s_value_get_r :: "(bytes \<Rightarrow> hash_value) \<Rightarrow> s_value \<Rightarrow> hash_value" where
  "s_value_get_r test_hash s = test_hash (take 32 (drop 1 s))"

definition is_sender :: "s_value \<Rightarrow> bool" where
  "is_sender s \<longleftrightarrow> s ! 0 = 0"

definition get_peer :: "s_value \<Rightarrow> s_value" where
  "get_peer s = s[0 := (if s ! 0 = 0 then 1 else 0)]"

text \<open>\<open>PartialEq\<close> compares all but the first byte; \<open>Hash\<close> takes all bytes.\<close>

definition s_value_eq :: "s_value \<Rightarrow> s_value \<Rightarrow> bool" where
  "s_value_eq s t \<longleftrightarrow> list_all (\<lambda>i. s ! i = t ! i) [1..<33]"

record s_value_generator =
  sender_r :: u128
  receiver_r :: u128

definition generator_get_r :: "(bytes \<Rightarrow> hash_value) \<Rightarrow> s_value_generator \<Rightarrow> hash_value" where
  "generator_get_r test_hash g = test_hash (le_bytes 16 (unat (sender_r g)) @ le_bytes 16 (unat (receiver_r g)))"

definition generator_get_s :: "s_value_generator \<Rightarrow> bool \<Rightarrow> s_value" where
  "generator_get_s g sender =
     (if \<not> sender then 1 else 0) # (le_bytes 16 (unat (sender_r g)) @ le_bytes 16 (unat (receiver_r g)))"

section \<open>Seeds and paths\<close>

text \<open>A hash map whose keys are compared with an equality coarser than the hash: a stored key is
  looked at only if the table finds its slot from the hash of the key asked for. \<open>same_slot\<close> is
  whether that happens; it is true of equal hashes, and left open by the library otherwise.\<close>

type_synonym seed_map = "(s_value \<times> balance_query_response list) list"

definition seed_find :: "(s_value \<Rightarrow> s_value \<Rightarrow> bool) \<Rightarrow> s_value \<Rightarrow> seed_map \<Rightarrow> (s_value \<times> balance_query_response list) option" where
  "seed_find same_slot k m = find (\<lambda>(k', _). same_slot k k' \<and> s_value_eq k k') m"

definition match_or_add ::
  "(s_value \<Rightarrow> s_value \<Rightarrow> bool) \<Rightarrow> s_value \<Rightarrow> balance_query_response list \<Rightarrow> seed_map \<Rightarrow>
     balance_query_response list option \<times> seed_map" where
  "match_or_add same_slot key value m =
     (if seed_find same_slot key m \<noteq> None then (None, m)
      else (case seed_find same_slot (get_peer key) m of
              Some (k, result) \<Rightarrow> (Some (result @ value), filter (\<lambda>(k', _). k' \<noteq> k) m)
            | None \<Rightarrow> (None, (key, value) # m)))"

type_synonym path_store = "(hash_value \<times> ant_final_message list) list"

definition add_path :: "hash_value \<Rightarrow> ant_final_message \<Rightarrow> path_store \<Rightarrow> path_store" where
  "add_path r path m =
     (case map_of m r of
        None \<Rightarrow> AList.update r [path] m
      | Some v \<Rightarrow> AList.update r (v @ [path]) (AList.delete r m))"

definition take_path :: "hash_value \<Rightarrow> path_store \<Rightarrow> ant_final_message list option \<times> path_store" where
  "take_path r m = (map_of m r, AList.delete r m)"

section \<open>The router\<close>

record wallet_view =
  wv_account :: account_address
  wv_channels :: "account_address list awaited"
  wv_balance :: "account_address \<Rightarrow> u64 awaited"
  wv_peer_balance :: "account_address \<Rightarrow> u64 awaited"

record ant_router =
  ar_seeds :: seed_map
  ar_paths :: path_store
  ar_stats :: stats
  ar_processor :: "router_network_message message_processor"
  ar_sent :: "(account_address \<times> router_network_message) list"

definition ant_send :: "account_address \<Rightarrow> router_network_message \<Rightarrow> ant_router \<Rightarrow> ant_router" where
  "ant_send a msg r = r\<lparr>ar_sent := ar_sent r @ [(a, msg)]\<rparr>"

text \<open>One ant per channel whose other end is not on the way so far. An error, or a wait that never
  ends, leaves the ants that are out already.\<close>

fun send_ants ::
  "wallet_view \<Rightarrow> s_value \<Rightarrow> account_address \<Rightarrow> balance_query_response list \<Rightarrow> account_address list \<Rightarrow>
     ant_router \<Rightarrow> unit awaited \<times> ant_router" where
  "send_ants V s peer_id balance_list [] r = (Some (Inr ()), r)"
| "send_ants V s peer_id balance_list (participant # rest) r =
     (if \<exists>b \<in> set balance_list. remote_addr b = participant \<or> local_addr b = participant
      then send_ants V s peer_id balance_list rest r
      else (case await_bind (payment_pressure (wv_account V, participant) (ar_stats r)) (\<lambda>total.
                 await_bind (wv_balance V participant) (\<lambda>l.
                 await_bind (wv_peer_balance V participant) (\<lambda>p.
                   Some (Inr \<lparr>local_addr = wv_account V, remote_addr = participant, local_balance = l,
                              remote_balance = p, total_pay_amount = total\<rparr>)))) of
              None \<Rightarrow> (None, r)
            | Some (Inl e) \<Rightarrow> (Some (Inl e), r)
            | Some (Inr b) \<Rightarrow>
                send_ants V s peer_id balance_list rest
                  (ant_send participant (AntQuery \<lparr>aq_s_value = s, aq_sender_addr = peer_id, aq_list = balance_list @ [b]\<rparr>) r)))"

definition send_ant_query_message ::
  "wallet_view \<Rightarrow> s_value \<Rightarrow> account_address \<Rightarrow> balance_query_response list \<Rightarrow> ant_router \<Rightarrow> unit awaited \<times> ant_router" where
  "send_ant_query_message V s peer_id balance_list r =
     (case wv_channels V of
        None \<Rightarrow> (None, r)
      | Some (Inl e) \<Rightarrow> (Some (Inl e), r)
      | Some (Inr all_channels) \<Rightarrow> send_ants V s peer_id balance_list all_channels r)"

definition handle_ant_query_message ::
  "(bytes \<Rightarrow> hash_value) \<Rightarrow> (s_value \<Rightarrow> s_value \<Rightarrow> bool) \<Rightarrow> wallet_view \<Rightarrow> ant_query_message \<Rightarrow> ant_router \<Rightarrow>
     unit awaited \<times> ant_router" where
  "handle_ant_query_message test_hash same_slot V msg r =
     (case match_or_add same_slot (aq_s_value msg) (aq_list msg) (ar_seeds r) of
        (Some t, seeds) \<Rightarrow>
          (Some (Inr ()), ant_send (aq_sender_addr msg)
             (AntFinal \<lparr>r_value = s_value_get_r test_hash (aq_s_value msg), af_list = t\<rparr>) (r\<lparr>ar_seeds := seeds\<rparr>))
      | (None, seeds) \<Rightarrow>
          send_ant_query_message V (aq_s_value msg) (aq_sender_addr msg) (aq_list msg) (r\<lparr>ar_seeds := seeds\<rparr>))"

text \<open>\<open>receiver_seed\<close> is the random number drawn by the handler.\<close>

definition handle_exchange_seed_request ::
  "wallet_view \<Rightarrow> u128 \<Rightarrow> u128 \<Rightarrow> account_address \<Rightarrow> ant_router \<Rightarrow> unit awaited \<times> ant_router" where
  "handle_exchange_seed_request V receiver_seed sender_seed peer_id r =
     (let s = generator_get_s \<lparr>sender_r = sender_seed, receiver_r = receiver_seed\<rparr> False
      in case send_ant_query_message V s peer_id [] r of
           (Some (Inr _), r) \<Rightarrow>
             (Some (Inr ()), ant_send peer_id
                (ExchangeSeedResponse \<lparr>es_sender_seed = sender_seed, es_receiver_seed = receiver_seed\<rparr>) r)
         | x \<Rightarrow> x)"

text \<open>\<open>seed_hash\<close> is the hash of the little-endian seed.\<close>

definition handle_exchange_seed_response ::
  "(bytes \<Rightarrow> hash_value) \<Rightarrow> exchange_seed_response \<Rightarrow> ant_router \<Rightarrow> ant_router" where
  "handle_exchange_seed_response seed_hash resp r =
     r\<lparr>ar_processor := send_response (seed_hash (le_bytes 16 (unat (es_sender_seed resp)))) (ExchangeSeedResponse resp)
         (ar_processor r)\<rparr>"

definition handle_ant_final_message :: "ant_final_message \<Rightarrow> ant_router \<Rightarrow> ant_router" where
  "handle_ant_final_message resp r = r\<lparr>ar_paths := add_path (r_value resp) resp (ar_paths r)\<rparr>"

definition ant_handle_network_msg ::
  "(bytes \<Rightarrow> hash_value) \<Rightarrow> (bytes \<Rightarrow> hash_value) \<Rightarrow> (s_value \<Rightarrow> s_value \<Rightarrow> bool) \<Rightarrow> wallet_view \<Rightarrow> u128 \<Rightarrow>
     account_address \<Rightarrow> router_network_message \<Rightarrow> ant_router \<Rightarrow> unit awaited \<times> ant_router" where
  "ant_handle_network_msg test_hash seed_hash same_slot V seed peer_id msg r =
     (case msg of
        ExchangeSeedResponse resp \<Rightarrow> (Some (Inr ()), handle_exchange_seed_response seed_hash resp r)
      | AntFinal resp \<Rightarrow> (Some (Inr ()), handle_ant_final_message resp r)
      | ExchangeSeedRequest s \<Rightarrow> handle_exchange_seed_request V seed s peer_id r
      | AntQuery q \<Rightarrow> handle_ant_query_message test_hash same_slot V q r
      | _ \<Rightarrow> (Some (Inl (Bail ''should not be here'')), r))"

section \<open>Choosing a path\<close>

text \<open>The last response that mentions the address is taken out of the list, turned round if need be.\<close>

definition find_response ::
  "account_address \<Rightarrow> balance_query_response list \<Rightarrow> (balance_query_response \<times> balance_query_response list) option" where
  "find_response loc rs =
     (case find (\<lambda>i. local_addr (rs ! i) = loc \<or> remote_addr (rs ! i) = loc) (rev [0..<length rs]) of
        None \<Rightarrow> None
      | Some i \<Rightarrow>
          Some (if remote_addr (rs ! i) = loc then revert (rs ! i) else rs ! i, take i rs @ drop (Suc i) rs))"

lemma find_response_length: "find_response loc rs = Some (b, rs') \<Longrightarrow> length rs = Suc (length rs')"
  by (auto simp: find_response_def split: option.splits dest!: find_Some_in)

function format_list ::
  "account_address \<Rightarrow> account_address \<Rightarrow> balance_query_response list \<Rightarrow> balance_query_response list" where
  "format_list seed end_addr rs =
     (case find_response seed rs of
        None \<Rightarrow> []
      | Some (b, rs') \<Rightarrow> b # (if remote_addr b = end_addr then [] else format_list (remote_addr b) end_addr rs'))"
  by pat_completeness auto

termination
  by (relation "measure (\<lambda>(_, _, rs). length rs)") (auto dest: find_response_length)

definition format_response_list ::
  "ant_final_message \<Rightarrow> account_address \<Rightarrow> account_address \<Rightarrow> balance_query_response list" where
  "format_response_list resp start end_addr = format_list start end_addr (af_list resp)"

definition i128_max :: int where "i128_max = 2 ^ 127 - 1"

definition pressure_of :: "balance_query_response list \<Rightarrow> int" where
  "pressure_of balances =
     fold (\<lambda>b p. p + uint (total_pay_amount b) + uint (remote_balance b) - uint (local_balance b)) balances 0"

text \<open>The loop over candidates: the map from pressures to the latest list with it, and the minimum.\<close>

definition least_pressure ::
  "balance_query_response list list \<Rightarrow> (int \<times> balance_query_response list) list \<times> int" where
  "least_pressure candidates =
     fold (\<lambda>balances (m, least).
        (let p = pressure_of balances
         in (AList.update p balances m, if p < least then p else least))) candidates ([], i128_max)"

definition find_path_by_pressure ::
  "ant_final_message list \<Rightarrow> account_address \<Rightarrow> account_address \<Rightarrow> chan_error + balance_query_response list" where
  "find_path_by_pressure paths start end_addr =
     (let (m, least) = least_pressure (map (\<lambda>p. format_response_list p start end_addr) paths)
      in ok_or (map_of m least) (Bail ''no path find''))"

text \<open>What \<open>find_path\<close> does once the answer to its request for seeds has come: its own ants go out, and
  after the delay (in which the router changes to \<open>r'\<close>) the paths that came back are looked at. The
  answer goes to the caller.\<close>

definition ant_find_path_send ::
  "wallet_view \<Rightarrow> account_address \<Rightarrow> router_network_message answer \<Rightarrow> ant_router \<Rightarrow> unit awaited \<times> ant_router" where
  "ant_find_path_send V start response r =
     (case response of
        AnswerOk (ExchangeSeedResponse resp) \<Rightarrow>
          send_ant_query_message V
            (generator_get_s \<lparr>sender_r = es_sender_seed resp, receiver_r = es_receiver_seed resp\<rparr> True) start [] r
      | AnswerOk _ \<Rightarrow> (Some (Inr ()), r)
      | AnswerTimeout \<Rightarrow> (Some (Inl (Bail ''future time out'')), r))"

definition ant_find_path_answer ::
  "(bytes \<Rightarrow> hash_value) \<Rightarrow> account_address \<Rightarrow> account_address \<Rightarrow> exchange_seed_response \<Rightarrow> ant_router \<Rightarrow>
     (chan_error + balance_query_response list) \<times> ant_router" where
  "ant_find_path_answer test_hash start end_addr resp r =
     (let (paths, store) = take_path (generator_get_r test_hash
            \<lparr>sender_r = es_sender_seed resp, receiver_r = es_receiver_seed resp\<rparr>) (ar_paths r)
      in (case paths of
            Some ps \<Rightarrow> find_path_by_pressure ps start end_addr
          | None \<Rightarrow> Inl (Bail ''no path found''), r\<lparr>ar_paths := store\<rparr>))"

section \<open>Paths are connected\<close>

declare format_list.simps [simp del]

fun connected :: "account_address \<Rightarrow> balance_query_response list \<Rightarrow> bool" where
  "connected a [] = True"
| "connected a (b # bs) = (local_addr b = a \<and> connected (remote_addr b) bs)"

text \<open>The address a path has reached.\<close>

definition reached :: "account_address \<Rightarrow> balance_query_response list \<Rightarrow> account_address" where
  "reached a bs = (if bs = [] then a else remote_addr (last bs))"

definition same_channel :: "balance_query_response \<Rightarrow> balance_query_response \<Rightarrow> bool" where
  "same_channel b r \<longleftrightarrow> b = r \<or> b = revert r"

lemma find_response_spec:
  assumes "find_response loc rs = Some (b, rs')"
  obtains r where "local_addr b = loc" "same_channel b r" "mset rs = add_mset r (mset rs')"
proof -
  obtain i where i: "i < length rs" "local_addr (rs ! i) = loc \<or> remote_addr (rs ! i) = loc"
    and b: "b = (if remote_addr (rs ! i) = loc then revert (rs ! i) else rs ! i)" "rs' = take i rs @ drop (Suc i) rs"
    using assms by (auto simp: find_response_def split: option.splits dest!: find_Some_in)
  have "mset rs = add_mset (rs ! i) (mset rs')"
    using arg_cong [OF id_take_nth_drop [OF i(1)], of mset] b(2) by simp
  moreover have "local_addr b = loc" "same_channel b (rs ! i)"
    using i(2) b(1) by (auto simp: revert_def same_channel_def)
  ultimately show thesis using that by blast
qed

lemma find_response_None:
  "find_response loc rs = None \<Longrightarrow> r \<in> set rs \<Longrightarrow> local_addr r \<noteq> loc \<and> remote_addr r \<noteq> loc"
  by (auto simp: find_response_def find_None_iff in_set_conv_nth split: option.splits)

text \<open>Every hop is one of the responses, each used once; the path stops at its end or where no unused
  response goes on, and passes the end nowhere before.\<close>

definition ordered_path ::
  "account_address \<Rightarrow> account_address \<Rightarrow> balance_query_response list \<Rightarrow> balance_query_response list \<Rightarrow> bool" where
  "ordered_path start end_addr rs path \<longleftrightarrow>
     connected start path \<and> (\<forall>b \<in> set (butlast path). remote_addr b \<noteq> end_addr) \<and>
     (\<exists>used rest. list_all2 same_channel path used \<and> mset rs = mset used + mset rest \<and>
        (path \<noteq> [] \<and> reached start path = end_addr \<or>
         (\<forall>r \<in> set rest. local_addr r \<noteq> reached start path \<and> remote_addr r \<noteq> reached start path)))"

lemma ordered_path_stop:
  "find_response start rs = None \<Longrightarrow> ordered_path start end_addr rs []"
  using find_response_None [of start rs] unfolding ordered_path_def
  by (simp add: reached_def) (metis add.left_neutral list_all2_Nil mset.simps(1))

lemma ordered_path_last:
  assumes "local_addr b = start" "same_channel b r" "mset rs = add_mset r (mset rs')" "remote_addr b = end_addr"
  shows "ordered_path start end_addr rs [b]"
  unfolding ordered_path_def
proof (intro conjI exI)
  show "list_all2 same_channel [b] [r]" "mset rs = mset [r] + mset rs'" using assms by simp_all
qed (use assms in \<open>simp_all add: reached_def\<close>)

lemma ordered_path_step:
  assumes "local_addr b = start" "same_channel b r" "mset rs = add_mset r (mset rs')" "remote_addr b \<noteq> end_addr"
    and "ordered_path (remote_addr b) end_addr rs' path"
  shows "ordered_path start end_addr rs (b # path)"
proof -
  obtain used rest where p: "list_all2 same_channel path used" "mset rs' = mset used + mset rest"
    "path \<noteq> [] \<and> reached (remote_addr b) path = end_addr \<or>
      (\<forall>r \<in> set rest. local_addr r \<noteq> reached (remote_addr b) path \<and> remote_addr r \<noteq> reached (remote_addr b) path)"
    using assms(5) unfolding ordered_path_def by blast
  have "connected start (b # path)" using assms(1,5) by (simp add: ordered_path_def)
  moreover have "\<forall>x \<in> set (butlast (b # path)). remote_addr x \<noteq> end_addr" using assms(4,5) by (auto simp: ordered_path_def)
  moreover have "list_all2 same_channel (b # path) (r # used)" "mset rs = mset (r # used) + mset rest" using assms(2,3) p by simp_all
  moreover have "reached start (b # path) = reached (remote_addr b) path" by (simp add: reached_def)
  ultimately show ?thesis using p(3) unfolding ordered_path_def by (metis list.distinct(1))
qed

lemma format_list_ok: "ordered_path start end_addr rs (format_list start end_addr rs)"
proof (induction start end_addr rs rule: format_list.induct)
  case (1 start end_addr rs)
  show ?case
  proof (cases "find_response start rs")
    case None
    then show ?thesis using ordered_path_stop by (simp add: format_list.simps)
  next
    case (Some p)
    obtain b rs' where p: "p = (b, rs')" by (cases p)
    obtain r where r: "local_addr b = start" "same_channel b r" "mset rs = add_mset r (mset rs')"
      using find_response_spec Some p by blast
    have eq: "format_list start end_addr rs = b # (if remote_addr b = end_addr then [] else format_list (remote_addr b) end_addr rs')"
      using Some p by (simp add: format_list.simps [of start])
    show ?thesis
      unfolding eq using ordered_path_last [OF r] ordered_path_step [OF r _ 1 [OF Some p [symmetric]]]
      by (cases "remote_addr b = end_addr") simp_all
  qed
qed

section \<open>The least pressure\<close>

abbreviation load :: "balance_query_response \<Rightarrow> int" where
  "load b \<equiv> uint (total_pay_amount b) + uint (remote_balance b) - uint (local_balance b)"

lemma pressure_sum: "pressure_of bs = sum_list (map load bs)"
proof -
  have "fold (\<lambda>b p. p + uint (total_pay_amount b) + uint (remote_balance b) - uint (local_balance b)) bs p =
      p + sum_list (map load bs)" for p
    by (induction bs arbitrary: p) simp_all
  then show ?thesis by (simp add: pressure_of_def)
qed

lemma pressure_bound: "pressure_of bs \<le> int (length bs) * 2 ^ 65"
proof (induction bs)
  case (Cons b bs)
  have le: "uint (total_pay_amount b) < 2 ^ 64" "uint (remote_balance b) < 2 ^ 64"
    using uint_lt2p [of "total_pay_amount b"] uint_lt2p [of "remote_balance b"] by simp_all
  have "load b \<le> uint (total_pay_amount b) + uint (remote_balance b)" by simp
  also have "\<dots> \<le> 2 ^ 64 + 2 ^ 64" using le by (intro add_mono) simp_all
  finally have "load b \<le> 2 ^ 65" by simp
  with Cons.IH show ?case by (simp add: pressure_sum)
qed (simp add: pressure_sum)

definition best :: "balance_query_response list list \<Rightarrow> balance_query_response list \<Rightarrow> bool" where
  "best cs b \<longleftrightarrow> b \<in> set cs \<and> (\<forall>c \<in> set cs. pressure_of b \<le> pressure_of c)"

definition least_inv ::
  "balance_query_response list list \<Rightarrow> (int \<times> balance_query_response list) list \<times> int \<Rightarrow> bool" where
  "least_inv cs r \<longleftrightarrow>
     (\<forall>p b. map_of (fst r) p = Some b \<longrightarrow> b \<in> set cs \<and> pressure_of b = p) \<and>
     (\<forall>c \<in> set cs. map_of (fst r) (pressure_of c) \<noteq> None \<and> snd r \<le> pressure_of c) \<and>
     (snd r = i128_max \<or> (\<exists>c \<in> set cs. pressure_of c = snd r))"

lemma least_inv_snoc:
  assumes "least_inv cs (m, l)"
  shows "least_inv (cs @ [c]) (AList.update (pressure_of c) c m, if pressure_of c < l then pressure_of c else l)"
proof -
  have m: "map_of m p = Some b \<Longrightarrow> b \<in> set cs \<and> pressure_of b = p" for p b using assms by (simp add: least_inv_def)
  have k: "d \<in> set cs \<Longrightarrow> map_of m (pressure_of d) \<noteq> None \<and> l \<le> pressure_of d" for d using assms unfolding least_inv_def by fastforce
  have l: "l = i128_max \<or> (\<exists>c \<in> set cs. pressure_of c = l)" using assms by (simp add: least_inv_def)
  show ?thesis
    unfolding least_inv_def fst_conv snd_conv map_of_update
  proof (intro conjI allI impI ballI)
    fix p b assume "((map_of m)(pressure_of c \<mapsto> c)) p = Some b"
    then show "b \<in> set (cs @ [c])" "pressure_of b = p" using m [of p b] by (auto split: if_splits)
  next
    fix d assume "d \<in> set (cs @ [c])"
    then show "((map_of m)(pressure_of c \<mapsto> c)) (pressure_of d) \<noteq> None"
      "(if pressure_of c < l then pressure_of c else l) \<le> pressure_of d" using k [of d] by auto
  qed (use l in auto)
qed

lemma least_pressure_inv: "least_inv cs (least_pressure cs)"
proof (induction cs rule: rev_induct)
  case Nil
  then show ?case by (simp add: least_inv_def least_pressure_def)
next
  case (snoc c cs)
  obtain m l where ml: "least_pressure cs = (m, l)" by (cases "least_pressure cs")
  then have "least_pressure (cs @ [c]) = (AList.update (pressure_of c) c m, if pressure_of c < l then pressure_of c else l)"
    by (simp add: least_pressure_def Let_def)
  with least_inv_snoc [of cs m l c] snoc ml show ?case by simp
qed

lemma least_pressure_ok:
  assumes "cs \<noteq> []" "\<forall>c \<in> set cs. length c < 2 ^ 61"
  shows "\<exists>b. map_of (fst (least_pressure cs)) (snd (least_pressure cs)) = Some b \<and> best cs b"
proof -
  have found: "map_of (fst (least_pressure cs)) p = Some b \<Longrightarrow> b \<in> set cs \<and> pressure_of b = p" for p b
    using least_pressure_inv [of cs] unfolding least_inv_def by blast
  have below: "c \<in> set cs \<Longrightarrow> map_of (fst (least_pressure cs)) (pressure_of c) \<noteq> None \<and> snd (least_pressure cs) \<le> pressure_of c" for c
    using least_pressure_inv [of cs] unfolding least_inv_def by blast
  have min: "snd (least_pressure cs) = i128_max \<or> (\<exists>c \<in> set cs. pressure_of c = snd (least_pressure cs))"
    using least_pressure_inv [of cs] unfolding least_inv_def by blast
  obtain c where c: "c \<in> set cs" using assms(1) by (cases cs) auto
  then have "int (length c) < 2 ^ 61" using assms(2) by simp
  then have "pressure_of c < i128_max" using pressure_bound [of c] by (simp add: i128_max_def)
  then have "snd (least_pressure cs) \<noteq> i128_max" using below [OF c] by simp
  then obtain d where d: "d \<in> set cs" "pressure_of d = snd (least_pressure cs)" using min by blast
  obtain b where b: "map_of (fst (least_pressure cs)) (snd (least_pressure cs)) = Some b"
    using below [OF d(1)] d(2) by auto
  have "b \<in> set cs" "pressure_of b = snd (least_pressure cs)" using found [OF b] by simp_all
  then have "best cs b" using below unfolding best_def by simp
  with b show ?thesis by blast
qed

lemma least_pressure_empty: "map_of (fst (least_pressure [])) p = None"
  by (simp add: least_pressure_def)

section \<open>Meeting ants\<close>

lemma get_peer_twice: "length s = 33 \<Longrightarrow> s ! 0 \<le> 1 \<Longrightarrow> get_peer (get_peer s) = s"
proof -
  assume s: "length s = 33" "s ! 0 \<le> 1"
  then obtain b bs where "s = b # bs" by (cases s) auto
  with s(2) show ?thesis by (auto simp: get_peer_def) (metis word_le_less_eq word_less_1)
qed

lemma get_peer_eq: "s_value_eq (get_peer s) s"
  by (auto simp: s_value_eq_def get_peer_def list_all_iff)

lemma s_value_eq_refl: "s_value_eq s s"
  by (simp add: s_value_eq_def list_all_iff)

section \<open>Properties\<close>

text \<open>C28. The list of channels that came back is put in order: the result starts at the sender, each hop
  begins where the one before ended, every hop is one of the reported channels (turned round where
  needed) and none is used twice; it ends at the receiver, passing it nowhere before, or where no
  reported channel goes on. The loop ends on every list.\<close>

theorem ant_path_ordered:
  "ordered_path start end_addr (af_list resp) (format_response_list resp start end_addr)"
  unfolding format_response_list_def by (rule format_list_ok)

text \<open>C29. Of the paths that came back the router takes one of least pressure (payments under way plus
  what the far ends have, less what the near ends have); it answers with an error exactly when
  there is none.\<close>

theorem ant_least_pressure:
  assumes "\<forall>p \<in> set paths. length (format_response_list p start end_addr) < 2 ^ 61"
  shows "(case find_path_by_pressure paths start end_addr of
      Inl _ \<Rightarrow> paths = []
    | Inr b \<Rightarrow> best (map (\<lambda>p. format_response_list p start end_addr) paths) b)"
proof (cases "paths = []")
  case True
  then show ?thesis using least_pressure_empty by (simp add: find_path_by_pressure_def case_prod_beta Let_def ok_or_def)
next
  case False
  then show ?thesis using least_pressure_ok [of "map (\<lambda>p. format_response_list p start end_addr) paths"] assms
    by (auto simp: find_path_by_pressure_def case_prod_beta Let_def ok_or_def)
qed

definition sample_hop :: "bytes \<Rightarrow> bytes \<Rightarrow> u64 \<Rightarrow> balance_query_response" where
  "sample_hop a b n = \<lparr>local_addr = a, remote_addr = b, local_balance = n, remote_balance = 10 - n, total_pay_amount = 0\<rparr>"

definition sample_finals :: "ant_final_message list" where
  "sample_finals = [\<lparr>r_value = [], af_list = [sample_hop [1] [2] 3, sample_hop [3] [2] 8]\<rparr>,
     \<lparr>r_value = [], af_list = [sample_hop [1] [3] 9]\<rparr>]"

theorem ant_least_pressure_witness:
  "find_path_by_pressure sample_finals [1] [3] = Inr [sample_hop [1] [3] 9] \<and>
   best (map (\<lambda>p. format_response_list p [1] [3]) sample_finals) [sample_hop [1] [3] 9]"
proof -
  have r: "find_path_by_pressure sample_finals [1] [3] = Inr [sample_hop [1] [3] 9]" by code_simp
  have "\<forall>p \<in> set sample_finals. length (format_response_list p [1] [3]) \<le> 2" by code_simp
  then have "\<forall>p \<in> set sample_finals. length (format_response_list p [1] [3]) < 2 ^ 61" by fastforce
  with r show ?thesis using ant_least_pressure [of sample_finals "[1]" "[3]"] by simp
qed

text \<open>Two ants of one query meet when the second one comes to a node where the first has been: the
  joined list is returned, unless the seed table happens to look at the first one's slot for the
  second one's key. Equality of keys ignores the byte that tells the sides apart, so that then the
  second ant is taken for a copy of the first and goes on without an answer.\<close>

lemma ants_meet:
  assumes "length s = 33" "s ! 0 \<le> 1" "same_slot s s"
  shows "fst (match_or_add same_slot (get_peer s) second (snd (match_or_add same_slot s first []))) =
    (if same_slot (get_peer s) s then None else Some (first @ second))"
  using assms
  by (simp add: match_or_add_def seed_find_def get_peer_twice get_peer_eq s_value_eq_refl)

end
