(* ===== verification/Table_Router.thy ===== *)
theory Table_Router
  imports Ant_Router State_Actions
begin

text \<open>
  The table router (\<open>router/src/lib.rs\<close>) with its graph of channels (\<open>router/graphdb/src\<close>), and the
  router that asks it first and the ants second (\<open>router/ant/src/lib.rs\<close>). The graph itself is
  petgraph's, the record \<open>petgraph\<close>. All vertices have the same type, so that a map keyed by
  vertices is keyed by their addresses.
\<close>

section \<open>The graph\<close>

record vertex =
  v_id :: account_address
  v_t :: string

definition new_with_bi_type :: "account_address \<Rightarrow> vertex" where
  "new_with_bi_type a = \<lparr>v_id = a, v_t = ''BI''\<rparr>"

record edge =
  outbound_id :: vertex
  e_t :: string
  inbound_id :: vertex

definition edge_from_vertexes :: "vertex list \<Rightarrow> chan_error + edge" where
  "edge_from_vertexes ids =
     (case ids of
        [a, b] \<Rightarrow> Inr \<lparr>outbound_id = a, e_t = ''BI'', inbound_id = b\<rparr>
      | _ \<Rightarrow> Inl (Bail ''balances len should be 2''))"

record 'g petgraph =
  g_empty :: 'g
  g_add_node :: "vertex \<Rightarrow> 'g \<Rightarrow> nat \<times> 'g"
  g_add_edge :: "nat \<Rightarrow> nat \<Rightarrow> edge \<Rightarrow> 'g \<Rightarrow> nat \<times> 'g"
  g_remove_edge :: "nat \<Rightarrow> 'g \<Rightarrow> 'g"
  g_remove_node :: "nat \<Rightarrow> 'g \<Rightarrow> 'g"
  g_astar :: "nat \<Rightarrow> nat \<Rightarrow> 'g \<Rightarrow> nat list option"
  g_simple_paths :: "nat \<Rightarrow> nat \<Rightarrow> nat \<Rightarrow> 'g \<Rightarrow> nat list list"

section \<open>The database\<close>

text \<open>\<open>gs_cfs\<close> are the column families that were opened; \<open>gs_ok\<close> whether RocksDB accepts writes.\<close>

record graph_storage =
  gs_cfs :: "string list"
  gs_vertices :: "(account_address \<times> vertex) list"
  gs_edges :: "(edge \<times> u64) list"
  gs_offset :: "u64 option"
  gs_ok :: bool

definition storage_new :: "bool \<Rightarrow> graph_storage" where
  "storage_new ok =
     \<lparr>gs_cfs = [''default'', ''Vertex'', ''Edge''], gs_vertices = [], gs_edges = [], gs_offset = None, gs_ok = ok\<rparr>"

definition get_cf_handle :: "string \<Rightarrow> graph_storage \<Rightarrow> chan_error + unit" where
  "get_cf_handle cf s = ensure (cf \<in> set (gs_cfs s)) (Bail ''DB::cf_handle not found for column family name'')"

definition storage_get_offset :: "graph_storage \<Rightarrow> chan_error + u64 option" where
  "storage_get_offset s = try_bind (get_cf_handle ''Offset'' s) (\<lambda>_. Inr (gs_offset s))"

definition storage_write :: "string \<Rightarrow> (graph_storage \<Rightarrow> graph_storage) \<Rightarrow> graph_storage \<Rightarrow> chan_error + graph_storage" where
  "storage_write cf f s =
     try_bind (get_cf_handle cf s) (\<lambda>_.
     try_bind (ensure (gs_ok s) (Bail ''RocksDB internal error'')) (\<lambda>_. Inr (f s)))"

definition storage_put_vertex :: "vertex \<Rightarrow> graph_storage \<Rightarrow> chan_error + graph_storage" where
  "storage_put_vertex v = storage_write ''Vertex'' (\<lambda>s. s\<lparr>gs_vertices := AList.update (v_id v) v (gs_vertices s)\<rparr>)"

definition storage_put_edge :: "edge \<Rightarrow> u64 \<Rightarrow> graph_storage \<Rightarrow> chan_error + graph_storage" where
  "storage_put_edge e w = storage_write ''Edge'' (\<lambda>s. s\<lparr>gs_edges := AList.update e w (gs_edges s)\<rparr>)"

definition storage_delete_edge :: "edge \<Rightarrow> graph_storage \<Rightarrow> chan_error + graph_storage" where
  "storage_delete_edge e = storage_write ''Edge'' (\<lambda>s. s\<lparr>gs_edges := AList.delete e (gs_edges s)\<rparr>)"

definition storage_delete_vertex :: "vertex \<Rightarrow> graph_storage \<Rightarrow> chan_error + graph_storage" where
  "storage_delete_vertex v = storage_write ''Vertex'' (\<lambda>s. s\<lparr>gs_vertices := AList.delete (v_id v) (gs_vertices s)\<rparr>)"

definition storage_put_offset :: "u64 \<Rightarrow> graph_storage \<Rightarrow> chan_error + graph_storage" where
  "storage_put_offset n = storage_write ''Offset'' (\<lambda>s. s\<lparr>gs_offset := Some n\<rparr>)"

section \<open>The store\<close>

record 'g graph_store =
  gr_graph :: 'g
  node_index_map :: "(account_address \<times> nat) list"
  index_node_map :: "(nat \<times> vertex) list"
  edge_index_map :: "(edge \<times> nat) list"
  persist_data :: bool
  gr_storage :: "graph_storage option"

text \<open>A write to the storage; \<open>expect\<close> panics without one.\<close>

definition with_storage :: "(graph_storage \<Rightarrow> chan_error + graph_storage) \<Rightarrow> ('g graph_store, unit) action" where
  "with_storage f g =
     (case gr_storage g of
        None \<Rightarrow> (Inl (Panic ''should have storage''), g)
      | Some s \<Rightarrow> (case f s of Inl e \<Rightarrow> (Inl e, g) | Inr s \<Rightarrow> (Inr (), g\<lparr>gr_storage := Some s\<rparr>)))"

definition put_vertex :: "'g petgraph \<Rightarrow> vertex \<Rightarrow> ('g graph_store, nat) action" where
  "put_vertex G node =
     act_bind (\<lambda>g. if persist_data g then with_storage (storage_put_vertex node) g else (Inr (), g)) (\<lambda>_ g.
       (let (i, gr) = g_add_node G node (gr_graph g)
        in (Inr i, g\<lparr>gr_graph := gr, node_index_map := AList.update (v_id node) i (node_index_map g),
                     index_node_map := AList.update i node (index_node_map g)\<rparr>)))"

definition node_index :: "'g petgraph \<Rightarrow> vertex \<Rightarrow> ('g graph_store, nat) action" where
  "node_index G node g =
     (case map_of (node_index_map g) (v_id node) of Some i \<Rightarrow> (Inr i, g) | None \<Rightarrow> put_vertex G node g)"

definition put_edge :: "'g petgraph \<Rightarrow> edge \<Rightarrow> u64 \<Rightarrow> bool \<Rightarrow> ('g graph_store, nat) action" where
  "put_edge G e weight memory_only =
     act_bind (node_index G (inbound_id e)) (\<lambda>start_index.
     act_bind (node_index G (outbound_id e)) (\<lambda>end_index.
     act_bind (\<lambda>g. (let (i, gr) = g_add_edge G start_index end_index e (gr_graph g)
                     in (Inr i, g\<lparr>gr_graph := gr, edge_index_map := AList.update e i (edge_index_map g)\<rparr>))) (\<lambda>i.
     act_bind (\<lambda>g. if persist_data g \<and> \<not> memory_only then with_storage (storage_put_edge e weight) g else (Inr (), g)) (\<lambda>_.
       act_lift (Inr i)))))"

text \<open>The entry of the removed edge stays in the index map.\<close>

definition graph_remove_edge :: "'g petgraph \<Rightarrow> edge \<Rightarrow> ('g graph_store, unit) action" where
  "graph_remove_edge G e =
     act_bind (act_update (\<lambda>g. case map_of (edge_index_map g) e of
          Some i \<Rightarrow> g\<lparr>gr_graph := g_remove_edge G i (gr_graph g)\<rparr> | None \<Rightarrow> g)) (\<lambda>_.
       with_storage (storage_delete_edge e))"

text \<open>The index map is still borrowed by the \<open>match\<close> when it is to be changed.\<close>

definition remove_vertex :: "'g petgraph \<Rightarrow> vertex \<Rightarrow> ('g graph_store, unit) action" where
  "remove_vertex G node g =
     (case map_of (node_index_map g) (v_id node) of
        Some i \<Rightarrow>
          (Inl (Panic ''already borrowed: BorrowMutError''),
           g\<lparr>gr_graph := g_remove_node G i (gr_graph g), index_node_map := AList.delete i (index_node_map g)\<rparr>)
      | None \<Rightarrow> with_storage (storage_delete_vertex node) g)"

fun recover_edges :: "'g petgraph \<Rightarrow> (edge \<times> u64) list \<Rightarrow> ('g graph_store, unit) action" where
  "recover_edges G [] = act_lift (Inr ())"
| "recover_edges G ((e, w) # es) = act_bind (put_edge G e w True) (\<lambda>_. recover_edges G es)"

definition graph_store_new :: "'g petgraph \<Rightarrow> bool \<Rightarrow> graph_storage option \<Rightarrow> chan_error + 'g graph_store" where
  "graph_store_new G persist storage =
     (let g = \<lparr>gr_graph = g_empty G, node_index_map = [], index_node_map = [], edge_index_map = [],
               persist_data = persist, gr_storage = storage\<rparr>
      in if persist
         then (case storage of
                 None \<Rightarrow> Inl (Panic ''should have edge storage'')
               | Some s \<Rightarrow> (case recover_edges G (gs_edges s) g of (Inl e, _) \<Rightarrow> Inl e | (Inr _, g) \<Rightarrow> Inr g))
         else Inr g)"

definition path_vertices :: "'g graph_store \<Rightarrow> nat list \<Rightarrow> chan_error + vertex list" where
  "path_vertices g = try_map (\<lambda>i. ok_or (map_of (index_node_map g) i) (Panic ''should have such node with index''))"

definition node_ends :: "'g graph_store \<Rightarrow> vertex \<Rightarrow> vertex \<Rightarrow> chan_error + (nat \<times> nat)" where
  "node_ends g start_node end_node =
     try_bind (ok_or (map_of (node_index_map g) (v_id start_node)) (Bail ''no such node'')) (\<lambda>i.
     try_bind (ok_or (map_of (node_index_map g) (v_id end_node)) (Bail ''no such node'')) (\<lambda>j. Inr (i, j)))"

definition graph_find_path :: "'g petgraph \<Rightarrow> 'g graph_store \<Rightarrow> vertex \<Rightarrow> vertex \<Rightarrow> chan_error + vertex list option" where
  "graph_find_path G g start_node end_node =
     try_bind (node_ends g start_node end_node) (\<lambda>(i, j).
       (case g_astar G i j (gr_graph g) of
          Some ns \<Rightarrow> try_bind (path_vertices g ns) (\<lambda>vs. Inr (Some vs))
        | None \<Rightarrow> Inl (Bail ''no path'')))"

text \<open>The two hash sets of paths: duplicates count once, and the order is not defined.\<close>

definition find_all_path ::
  "'g petgraph \<Rightarrow> 'g graph_store \<Rightarrow> vertex \<Rightarrow> vertex \<Rightarrow> nat \<Rightarrow> chan_error + vertex list list option" where
  "find_all_path G g start_node end_node max_deep =
     try_bind (node_ends g start_node end_node) (\<lambda>(i, j).
       (let paths = remdups (g_simple_paths G i j max_deep (gr_graph g))
        in if paths = [] then Inr None
           else try_bind (try_map (path_vertices g) paths) (\<lambda>vs. Inr (Some (remdups vs)))))"

section \<open>Events of the chain\<close>

datatype channel_change_event =
    ChannelOpened account_address "(account_address \<times> u64) list"
  | ChannelLocked account_address "(account_address \<times> u64) list"
  | ChannelClosed account_address "(account_address \<times> u64) list"

text \<open>The two ends come in the order in which the hash map of balances gives them.\<close>

definition generate_edge :: "(account_address \<times> u64) list \<Rightarrow> chan_error + edge" where
  "generate_edge balances = edge_from_vertexes (map (\<lambda>(a, _). new_with_bi_type a) balances)"

definition change_edge ::
  "(account_address \<times> u64) list \<Rightarrow> (edge \<Rightarrow> ('g graph_store, unit) action) \<Rightarrow> ('g graph_store, unit) action" where
  "change_edge balances f =
     act_bind (act_lift (ensure (length balances = 2) (Bail ''balances len should be 2''))) (\<lambda>_.
     act_bind (act_lift (generate_edge balances)) f)"

definition handle_channel_stream :: "'g petgraph \<Rightarrow> u64 \<Rightarrow> channel_change_event \<Rightarrow> ('g graph_store, unit) action" where
  "handle_channel_stream G number event =
     act_bind
       (case event of
          ChannelOpened _ balances \<Rightarrow>
            change_edge balances (\<lambda>e. act_bind (put_edge G e 0 True) (\<lambda>_. act_lift (Inr ())))
        | ChannelClosed _ balances \<Rightarrow> change_edge balances (graph_remove_edge G)
        | ChannelLocked _ balances \<Rightarrow> change_edge balances (graph_remove_edge G)) (\<lambda>_ g.
       (case gr_storage g of
          Some _ \<Rightarrow> with_storage (storage_put_offset number) g
        | None \<Rightarrow> (Inr (), g)))"

text \<open>Errors are logged; a panic goes on.\<close>

definition handle_stream :: "'g petgraph \<Rightarrow> chan_error + (u64 \<times> channel_change_event) \<Rightarrow> ('g graph_store, unit) action" where
  "handle_stream G r g =
     (case r of
        Inl _ \<Rightarrow> (Inr (), g)
      | Inr (u, t) \<Rightarrow>
          (case handle_channel_stream G u t g of
             (Inl (Panic m), g) \<Rightarrow> (Inl (Panic m), g)
           | (_, g) \<Rightarrow> (Inr (), g)))"

text \<open>Where the loop of the router starts to read the stream; an error ends the router.\<close>

definition router_start_number :: "'g graph_store \<Rightarrow> chan_error + u64" where
  "router_start_number g =
     (case gr_storage g of
        Some s \<Rightarrow> try_bind (storage_get_offset s) (\<lambda>n. Inr (case n of Some t \<Rightarrow> t | None \<Rightarrow> 0))
      | None \<Rightarrow> Inr 0)"

section \<open>Looking for a path\<close>

text \<open>\<open>ask a b\<close> is what \<open>query_balance\<close> gets for the channel from \<open>a\<close> to \<open>b\<close>; it has no timeout.\<close>

fun query_hops ::
  "(account_address \<Rightarrow> account_address \<Rightarrow> balance_query_response awaited) \<Rightarrow> vertex list \<Rightarrow>
     balance_query_response list awaited" where
  "query_hops ask (a # b # vs) =
     await_bind (ask (v_id a) (v_id b)) (\<lambda>r.
     await_bind (query_hops ask (b # vs)) (\<lambda>rs. Some (Inr (r # rs))))"
| "query_hops ask _ = Some (Inr [])"

definition vertexes_to_balance_list ::
  "wallet_view \<Rightarrow> stats \<Rightarrow> (account_address \<Rightarrow> account_address \<Rightarrow> balance_query_response awaited) \<Rightarrow> vertex list \<Rightarrow>
     balance_query_response list awaited" where
  "vertexes_to_balance_list V st ask vertexes =
     (case vertexes of
        first # second # rest \<Rightarrow>
          await_bind (Some (ensure (v_id first = wv_account V) (Bail ''first hop should be local address''))) (\<lambda>_.
          await_bind (payment_pressure (v_id first, v_id second) st) (\<lambda>total.
          await_bind (wv_balance V (v_id second)) (\<lambda>l.
          await_bind (wv_peer_balance V (v_id second)) (\<lambda>p.
          await_bind (query_hops ask (second # rest)) (\<lambda>rs.
            Some (Inr (\<lparr>local_addr = v_id first, remote_addr = v_id second, local_balance = l, remote_balance = p,
                        total_pay_amount = total\<rparr> # rs)))))))
      | _ \<Rightarrow> Some (Inl (Bail ''should have at lease 1 hops'')))"

fun await_map :: "('a \<Rightarrow> 'b awaited) \<Rightarrow> 'a list \<Rightarrow> 'b list awaited" where
  "await_map f [] = Some (Inr [])"
| "await_map f (x # xs) = await_bind (f x) (\<lambda>y. await_bind (await_map f xs) (\<lambda>ys. Some (Inr (y # ys))))"

definition table_find_path ::
  "wallet_view \<Rightarrow> stats \<Rightarrow> (account_address \<Rightarrow> account_address \<Rightarrow> balance_query_response awaited) \<Rightarrow> vertex list list \<Rightarrow>
     balance_query_response list awaited" where
  "table_find_path V st ask paths =
     await_bind (await_map (vertexes_to_balance_list V st ask) paths) (\<lambda>candidates.
       (let (m, least) = least_pressure candidates
        in Some (Inr (case map_of m least of Some t \<Rightarrow> t | None \<Rightarrow> []))))"

text \<open>On an error the responder is dropped, and the caller's receiver fails.\<close>

definition table_find_path_by_addr ::
  "'g petgraph \<Rightarrow> wallet_view \<Rightarrow> stats \<Rightarrow> (account_address \<Rightarrow> account_address \<Rightarrow> balance_query_response awaited) \<Rightarrow>
     'g graph_store \<Rightarrow> account_address \<Rightarrow> account_address \<Rightarrow> balance_query_response list awaited" where
  "table_find_path_by_addr G V st ask g start end_addr =
     (case find_all_path G g (new_with_bi_type start) (new_with_bi_type end_addr) 5 of
        Inl _ \<Rightarrow> Some (Inl (Bail ''oneshot canceled''))
      | Inr None \<Rightarrow> Some (Inr [])
      | Inr (Some paths) \<Rightarrow>
          (case table_find_path V st ask paths of
             Some (Inl _) \<Rightarrow> Some (Inl (Bail ''oneshot canceled''))
           | x \<Rightarrow> x))"

text \<open>The answer of a node to a question about one of its channels; a question about another node's
  channel is dropped.\<close>

definition handle_balance_query_request ::
  "wallet_view \<Rightarrow> stats \<Rightarrow> account_address \<Rightarrow> balance_query_request \<Rightarrow>
     (account_address \<times> router_network_message) option awaited" where
  "handle_balance_query_request V st sender msg =
     (if bq_local_addr msg \<noteq> wv_account V then Some (Inr None)
      else await_bind (wv_balance V (bq_remote_addr msg)) (\<lambda>l.
           await_bind (payment_pressure (bq_local_addr msg, bq_remote_addr msg) st) (\<lambda>total.
           await_bind (wv_peer_balance V (bq_remote_addr msg)) (\<lambda>p.
             Some (Inr (Some (sender, BalanceResponse \<lparr>local_addr = bq_local_addr msg, remote_addr = bq_remote_addr msg,
               local_balance = l, remote_balance = p, total_pay_amount = total\<rparr>)))))))"

definition handle_balance_query_response ::
  "(account_address \<Rightarrow> hash_value) \<Rightarrow> account_address \<Rightarrow> balance_query_response \<Rightarrow>
     router_network_message message_processor \<Rightarrow> router_network_message message_processor" where
  "handle_balance_query_response address_hash sender msg = send_response (address_hash sender) (BalanceResponse msg)"

section \<open>Both routers\<close>

datatype router_target = ToTable | ToAnt

fun mix_route :: "router_network_message \<Rightarrow> router_target" where
  "mix_route (BalanceRequest _) = ToTable"
| "mix_route (BalanceResponse _) = ToTable"
| "mix_route (ExchangeSeedRequest _) = ToAnt"
| "mix_route (ExchangeSeedResponse _) = ToAnt"
| "mix_route (AntQuery _) = ToAnt"
| "mix_route (AntFinal _) = ToAnt"

definition mix_find_path_by_addr ::
  "balance_query_response list awaited \<Rightarrow> balance_query_response list awaited \<Rightarrow> balance_query_response list awaited" where
  "mix_find_path_by_addr table_answer ant_answer =
     (case table_answer of
        None \<Rightarrow> None
      | Some (Inr r) \<Rightarrow> if 0 < length r then Some (Inr r) else ant_answer
      | Some (Inl _) \<Rightarrow> ant_answer)"

section \<open>What petgraph promises about edge indices\<close>

text \<open>A new edge gets the next index. Removing one moves the last edge into its place.\<close>

definition swap_remove :: "nat \<Rightarrow> 'a list \<Rightarrow> 'a list" where
  "swap_remove i xs = (if i < length xs then butlast (xs[i := last xs]) else xs)"

definition petgraph_ok :: "'g petgraph \<Rightarrow> ('g \<Rightarrow> edge list) \<Rightarrow> bool" where
  "petgraph_ok G edges \<longleftrightarrow> edges (g_empty G) = [] \<and>
     (\<forall>v g. edges (snd (g_add_node G v g)) = edges g) \<and>
     (\<forall>i j e g. fst (g_add_edge G i j e g) = length (edges g) \<and> edges (snd (g_add_edge G i j e g)) = edges g @ [e]) \<and>
     (\<forall>i g. edges (g_remove_edge G i g) = swap_remove i (edges g))"

text \<open>Events one after the other, whether or not they succeed.\<close>

fun graph_events :: "'g petgraph \<Rightarrow> (u64 \<times> channel_change_event) list \<Rightarrow> 'g graph_store \<Rightarrow> 'g graph_store" where
  "graph_events G [] g = g"
| "graph_events G (ev # evs) g = graph_events G evs (snd (handle_stream G (Inr ev) g))"

section \<open>Edges in memory\<close>

definition edge_between :: "account_address \<Rightarrow> account_address \<Rightarrow> edge" where
  "edge_between a b = \<lparr>outbound_id = new_with_bi_type a, e_t = ''BI'', inbound_id = new_with_bi_type b\<rparr>"

lemma edge_between_inject [simp]: "edge_between a b = edge_between c d \<longleftrightarrow> a = c \<and> b = d"
  by (auto simp: edge_between_def new_with_bi_type_def)

text \<open>The part of a store that edges depend on.\<close>

definition edge_view :: "('g \<Rightarrow> edge list) \<Rightarrow> 'g graph_store \<Rightarrow> edge list \<times> (edge \<rightharpoonup> nat) \<times> bool \<times> graph_storage option" where
  "edge_view edges g = (edges (gr_graph g), map_of (edge_index_map g), persist_data g, gr_storage g)"

lemma node_index_view:
  assumes "petgraph_ok G edges" "edge_view edges g = (es, m, False, None)"
  obtains i g' where "node_index G v g = (Inr i, g')" "edge_view edges g' = (es, m, False, None)"
proof (cases "map_of (node_index_map g) (v_id v)")
  case None
  obtain i gr where a: "g_add_node G v (gr_graph g) = (i, gr)" by (cases "g_add_node G v (gr_graph g)")
  then have "edges gr = edges (gr_graph g)" using assms(1) unfolding petgraph_ok_def by (metis snd_conv)
  with that assms(2) None a show thesis
    by (simp add: node_index_def put_vertex_def act_bind_def edge_view_def)
qed (use that assms(2) in \<open>simp add: node_index_def\<close>)

lemma put_edge_view:
  assumes G: "petgraph_ok G edges" and g: "edge_view edges g = (es, m, False, None)"
  obtains g' where "put_edge G e w True g = (Inr (length es), g')" "edge_view edges g' = (es @ [e], m(e \<mapsto> length es), False, None)"
proof -
  obtain i g1 where 1: "node_index G (inbound_id e) g = (Inr i, g1)" "edge_view edges g1 = (es, m, False, None)"
    by (rule node_index_view [OF G g])
  obtain j g2 where 2: "node_index G (outbound_id e) g1 = (Inr j, g2)" "edge_view edges g2 = (es, m, False, None)"
    by (rule node_index_view [OF G 1(2)])
  obtain k gr where a: "g_add_edge G i j e (gr_graph g2) = (k, gr)" by (cases "g_add_edge G i j e (gr_graph g2)")
  have "k = length es" "edges gr = es @ [e]"
    using G 2(2) a unfolding petgraph_ok_def edge_view_def by (metis fst_conv snd_conv)+
  with that [of "g2\<lparr>gr_graph := gr, edge_index_map := AList.update e k (edge_index_map g2)\<rparr>"] 1(1) 2 a show thesis
    by (simp add: put_edge_def act_bind_def act_lift_def edge_view_def)
qed

lemma opened_view:
  assumes "petgraph_ok G edges" "edge_view edges g = (es, m, False, None)"
  shows "edge_view edges (snd (handle_stream G (Inr (n, ChannelOpened c [(a, x), (b, y)])) g)) =
    (es @ [edge_between a b], m(edge_between a b \<mapsto> length es), False, None)"
proof -
  obtain g' where p: "put_edge G (edge_between a b) 0 True g = (Inr (length es), g')"
    and v: "edge_view edges g' = (es @ [edge_between a b], m(edge_between a b \<mapsto> length es), False, None)"
    by (rule put_edge_view [OF assms])
  have "gr_storage g' = None" using v by (simp add: edge_view_def)
  with p v show ?thesis
    by (simp add: handle_stream_def handle_channel_stream_def change_edge_def generate_edge_def edge_from_vertexes_def
        act_bind_def act_lift_def flip: edge_between_def)
qed

lemma closed_view:
  assumes "petgraph_ok G edges" "edge_view edges g = (es, m, False, None)"
  shows "edge_view edges (snd (handle_stream G (Inr (n, ChannelClosed c [(a, x), (b, y)])) g)) =
    (case m (edge_between a b) of Some i \<Rightarrow> swap_remove i es | None \<Rightarrow> es, m, False, None)"
  using assms
  by (cases "m (edge_between a b)")
     (auto simp: handle_stream_def handle_channel_stream_def change_edge_def generate_edge_def edge_from_vertexes_def
       act_bind_def act_lift_def act_update_def graph_remove_edge_def with_storage_def edge_view_def petgraph_ok_def
       simp flip: edge_between_def)

section \<open>With a database\<close>

text \<open>The state in which a store with a database stays: no offset, and no edges.\<close>

definition offsetless :: "'g graph_store \<Rightarrow> bool" where
  "offsetless g \<longleftrightarrow> (\<exists>s. gr_storage g = Some s \<and> ''Offset'' \<notin> set (gs_cfs s) \<and> gs_edges s = [])"

lemma keeps_with_storage:
  assumes "\<And>s s'. f s = Inr s' \<Longrightarrow> ''Offset'' \<notin> set (gs_cfs s) \<Longrightarrow> gs_edges s = [] \<Longrightarrow> gs_cfs s' = gs_cfs s \<and> gs_edges s' = []"
  shows "keeps offsetless (with_storage f)"
proof (rule keepsI)
  fix g :: "'a graph_store"
  assume "offsetless g"
  then obtain s where s: "gr_storage g = Some s" "''Offset'' \<notin> set (gs_cfs s)" "gs_edges s = []" by (auto simp: offsetless_def)
  show "offsetless (snd (with_storage f g))"
  proof (cases "f s")
    case (Inr s')
    have "gs_cfs s' = gs_cfs s" "gs_edges s' = []" using assms [OF Inr s(2,3)] by simp_all
    with Inr s(1,2) show ?thesis by (simp add: with_storage_def offsetless_def)
  qed (use s in \<open>simp add: with_storage_def offsetless_def\<close>)
qed

lemma keeps_memory: "(\<And>g. gr_storage (snd (f g)) = gr_storage g) \<Longrightarrow> keeps offsetless f"
  by (simp add: keeps_def offsetless_def)

lemma keeps_when: "keeps I f \<Longrightarrow> keeps I h \<Longrightarrow> keeps I (\<lambda>g. if b g then f g else h g)"
  by (simp add: keeps_def)

lemma keeps_put_vertex: "keeps offsetless (put_vertex G v)"
  unfolding put_vertex_def
proof (intro act_rules keeps_when)
  show "keeps offsetless (with_storage (storage_put_vertex v))"
    by (rule keeps_with_storage) (auto simp: storage_put_vertex_def storage_write_def try_bind_Inr_iff)
qed (rule keeps_memory, simp add: case_prod_beta Let_def)+

lemma keeps_node_index: "keeps offsetless (node_index G v)"
  using keeps_put_vertex [of G v] by (auto simp: keeps_def node_index_def split: option.splits)

lemma keeps_put_edge: "keeps offsetless (put_edge G e w True)"
  unfolding put_edge_def not_True_eq_False simp_thms if_False
proof (intro act_rules keeps_node_index)
  show "keeps offsetless (\<lambda>g. let (i, gr) = g_add_edge G a b e (gr_graph g)
      in (Inr i, g\<lparr>gr_graph := gr, edge_index_map := AList.update e i (edge_index_map g)\<rparr>))" for a b
    by (rule keeps_memory) (simp add: case_prod_beta Let_def)
qed (simp add: keeps_def)

lemma keeps_remove_edge: "keeps offsetless (graph_remove_edge G e)"
  unfolding graph_remove_edge_def
proof (intro act_rules keeps_with_storage)
  show "keeps offsetless (act_update (\<lambda>g. case map_of (edge_index_map g) e of
      Some i \<Rightarrow> g\<lparr>gr_graph := g_remove_edge G i (gr_graph g)\<rparr> | None \<Rightarrow> g))"
    by (rule keeps_memory) (simp add: act_update_def split: option.splits)
qed (auto simp: storage_delete_edge_def storage_write_def try_bind_Inr_iff)

lemma keeps_offset: "keeps offsetless (\<lambda>g. case gr_storage g of Some _ \<Rightarrow> with_storage (storage_put_offset n) g | None \<Rightarrow> (Inr (), g))"
proof -
  have "keeps offsetless (with_storage (storage_put_offset n))"
    by (rule keeps_with_storage) (auto simp: storage_put_offset_def storage_write_def get_cf_handle_def try_bind_Inr_iff)
  then show ?thesis by (auto simp: keeps_def split: option.splits)
qed

lemma handle_stream_snd: "snd (handle_stream G (Inr (n, event)) g) = snd (handle_channel_stream G n event g)"
  by (cases "handle_channel_stream G n event g") (auto simp: handle_stream_def split: sum.splits chan_error.splits)

lemma keeps_stream: "keeps offsetless (handle_stream G (Inr ev))"
proof -
  obtain n event where ev: "ev = (n, event)" by (cases ev)
  have change: "keeps offsetless (change_edge bs f)" if "\<And>e. keeps offsetless (f e)" for bs and f :: "edge \<Rightarrow> ('a graph_store, unit) action"
    unfolding change_edge_def by (intro act_rules that)
  have "keeps offsetless (handle_channel_stream G n event)"
    unfolding handle_channel_stream_def
    by (rule keeps_bind [OF _ keeps_offset], cases event)
       (simp_all, (intro change act_rules keeps_put_edge keeps_remove_edge)+)
  then show ?thesis by (simp add: keeps_def ev handle_stream_snd)
qed

section \<open>Properties\<close>


text \<open>A graph that is its list of edges.\<close>

definition list_graph :: "edge list petgraph" where
  "list_graph = \<lparr>g_empty = [], g_add_node = \<lambda>v g. (0, g), g_add_edge = \<lambda>i j e g. (length g, g @ [e]),
     g_remove_edge = \<lambda>i g. swap_remove i g, g_remove_node = \<lambda>i g. g, g_astar = \<lambda>i j g. None, g_simple_paths = \<lambda>i j n g. []\<rparr>"


text \<open>C40. A table router with a database never starts, whatever events have gone into its database before:
  the column family of the stream offset is not among those that are opened, so that reading the
  offset fails and ends the router before its loop. Nor would it find a channel there: the edges
  of opened channels go to memory only.\<close>

theorem persistent_router_ends:
  assumes "graph_store_new G True (Some (storage_new ok)) = Inr g"
  shows "\<exists>e s. router_start_number (graph_events G evs g) = Inl (Bail e) \<and>
    gr_storage (graph_events G evs g) = Some s \<and> gs_edges s = []"
proof -
  have "offsetless g" using assms by (auto simp: graph_store_new_def storage_new_def offsetless_def act_lift_def)
  then have "offsetless (graph_events G evs g)"
    by (induction evs arbitrary: g) (simp_all add: keepsD [OF keeps_stream])
  then show ?thesis by (auto simp: offsetless_def router_start_number_def storage_get_offset_def get_cf_handle_def)
qed

theorem persistent_router_ends_witness:
  "\<exists>g e. graph_store_new list_graph True (Some (storage_new True)) = Inr g \<and>
     router_start_number (graph_events list_graph [(1, ChannelOpened [1] [([1], 5), ([2], 5)])] g) = Inl (Bail e)"
proof -
  have "\<exists>g. graph_store_new list_graph True (Some (storage_new True)) = Inr g"
    by (simp add: graph_store_new_def storage_new_def act_lift_def)
  then obtain g where g: "graph_store_new list_graph True (Some (storage_new True)) = Inr g" ..
  from persistent_router_ends [OF g, of "[(1, ChannelOpened [1] [([1], 5), ([2], 5)])]"] g show ?thesis by blast
qed

end
