(* ===== verification/Wallet_Actor.thy ===== *)
theory Wallet_Actor
  imports Channel_Actor Wire_Messages
begin

text \<open>
  The wallet (\<open>sgwallet/src/wallet.rs\<close>): an actor that owns one channel actor per peer, and the
  handle through which the node uses it. A message to an actor is answered by its handler; when
  the actor is stopping or gone, the sender gets an error, and a panic of a handler ends the actor
  it runs in and nothing else.

  The database of the wallet is one \<open>channel_db\<close> per channel address: the one inside the running
  channel, or \<open>wl_disk\<close> when none runs. When a channel is started a second time the new actor
  replaces the old one in the wallet's table.
\<close>

section \<open>State\<close>

record 'm wallet =
  wl_account :: account_address
  wl_private_key :: bytes
  wl_public_key :: public_key
  wl_registry :: package_registry
  wl_enabled :: bool
  wl_channels :: "(account_address \<times> 'm channel) list"
  wl_disk :: "(account_address \<times> channel_db) list"
  wl_stopping :: bool

text \<open>What libra provides to the wallet: the address of a set of participants, and the resources it
  reads besides those of \<open>libra\<close>.\<close>

record wallet_lib =
  address_of_set :: "account_address list \<Rightarrow> account_address"
  channel_account_path :: "account_address \<Rightarrow> bytes"
  read_channel_balance :: "bytes \<Rightarrow> u64 option"
  user_channels_path :: bytes
  read_user_channels :: "bytes \<Rightarrow> account_address list option"
  read_account_balance :: "bytes \<Rightarrow> u64 option"

text \<open>What one call of the wallet meets outside: the environment of the messages it sends to channels,
  in their order, whether the database takes a new channel, and the transactions of the chain.\<close>

record wallet_env =
  we_env :: "nat \<Rightarrow> env"
  we_open_ok :: bool
  we_by_seq :: "account_address \<Rightarrow> u64 \<Rightarrow> chan_error + chain_txn option"

definition wallet_new ::
  "account_address \<Rightarrow> bytes \<Rightarrow> public_key \<Rightarrow> package_registry \<Rightarrow> (account_address \<times> channel_db) list \<Rightarrow> 'm wallet" where
  "wallet_new account sk pk registry disk =
     \<lparr>wl_account = account, wl_private_key = sk, wl_public_key = pk, wl_registry = registry, wl_enabled = False,
      wl_channels = [], wl_disk = disk, wl_stopping = False\<rparr>"

text \<open>A \<open>BTreeSet\<close> of two addresses, and the address of their channel.\<close>

definition generate_channel_address ::
  "wallet_lib \<Rightarrow> account_address \<Rightarrow> account_address \<Rightarrow> account_address \<times> account_address list" where
  "generate_channel_address X p1 p2 =
     (let addresses = map fst (bt_insert p2 () (bt_insert p1 () []))
      in (address_of_set X addresses, addresses))"

definition get_channel_db :: "account_address \<Rightarrow> 'm wallet \<Rightarrow> channel_db" where
  "get_channel_db a w =
     (case map_of (wl_channels w) a of
        Some c \<Rightarrow> s_db (ch_store c)
      | None \<Rightarrow> (case map_of (wl_disk w) a of Some d \<Rightarrow> d | None \<Rightarrow> channel_db_empty))"

definition put_channel_db :: "account_address \<Rightarrow> channel_db \<Rightarrow> 'm wallet \<Rightarrow> 'm wallet" where
  "put_channel_db a d w = w\<lparr>wl_disk := AList.update a d (wl_disk w)\<rparr>"

definition put_channel :: "account_address \<Rightarrow> 'm channel \<Rightarrow> 'm wallet \<Rightarrow> 'm wallet" where
  "put_channel a c w = w\<lparr>wl_channels := AList.update a c (wl_channels w)\<rparr>"

text \<open>A channel leaves the table; what it has written stays on disk.\<close>

definition remove_channel :: "account_address \<Rightarrow> 'm wallet \<Rightarrow> 'm wallet" where
  "remove_channel a w = (put_channel_db a (get_channel_db a w) w)\<lparr>wl_channels := AList.delete a (wl_channels w)\<rparr>"

section \<open>Messages to actors\<close>

definition actor_gone :: "chan_error + 'a" where
  "actor_gone = Inl (Bail ''actor unavailable'')"

text \<open>\<open>channel_ref().send(..)\<close>.\<close>

definition channel_send :: "account_address \<Rightarrow> ('m channel, 'a) action \<Rightarrow> ('m wallet, 'a) action" where
  "channel_send a f w =
     (case map_of (wl_channels w) a of
        None \<Rightarrow> (actor_gone, w)
      | Some c \<Rightarrow>
          if ch_stopping c then (actor_gone, w)
          else (case f c of
                  (Inl (Panic _), c) \<Rightarrow> (actor_gone, put_channel a (c\<lparr>ch_stopping := True\<rparr>) w)
                | (r, c) \<Rightarrow> (r, put_channel a c w)))"

text \<open>\<open>actor_ref.send(..)\<close> of the wallet handle.\<close>

definition wallet_send :: "('m wallet, 'a) action \<Rightarrow> ('m wallet, 'a) action" where
  "wallet_send f w =
     (if wl_stopping w then (actor_gone, w)
      else (case f w of
              (Inl (Panic _), w) \<Rightarrow> (actor_gone, w\<lparr>wl_stopping := True\<rparr>)
            | r \<Rightarrow> r))"

section \<open>Handlers of the wallet actor\<close>

definition channel_not_exist :: "account_address \<Rightarrow> sg_error" where
  "channel_not_exist a = \<lparr>error_code = CHANNEL_NOT_EXIST, sg_message = ''Can not find channel by participant''\<rparr>"

definition wallet_get_channel :: "account_address \<Rightarrow> ('m wallet, unit) action" where
  "wallet_get_channel a w =
     (case map_of (wl_channels w) a of
        Some _ \<Rightarrow> (Inr (), w)
      | None \<Rightarrow> (Inl (BailSg (channel_not_exist a)), w))"

text \<open>Load, bootstrap, then the actor starts. A failing bootstrap leaves the table as it was, with
  what loading has written. The first thing the new actor runs is \<open>started\<close>; when that panics the
  actor is gone.\<close>

definition spawn_channel ::
  "'m ledger_lib \<Rightarrow> libra \<Rightarrow> wallet_env \<Rightarrow> account_address \<Rightarrow> account_address list option \<Rightarrow> ('m wallet, unit) action" where
  "spawn_channel A L E a participants w =
     (case channel_load A L (we_open_ok E) a (wl_account w) participants (get_channel_db a w)
             (wl_private_key w) (wl_public_key w) (wl_registry w) of
        Inl e \<Rightarrow> (Inl e, w)
      | Inr c \<Rightarrow>
          (case bootstrap A (we_env E 0) (we_by_seq E) c of
             (Inl e, c) \<Rightarrow> (Inl e, put_channel_db a (s_db (ch_store c)) w)
           | (Inr _, c) \<Rightarrow>
               (case started A L (we_env E 0) c of
                  (Inl _, c) \<Rightarrow> (Inr (), put_channel a (c\<lparr>ch_stopping := True\<rparr>) w)
                | (Inr _, c) \<Rightarrow> (Inr (), put_channel a c w))))"

definition handle_spawn_new_channel ::
  "'m ledger_lib \<Rightarrow> libra \<Rightarrow> wallet_env \<Rightarrow> account_address \<Rightarrow> account_address list \<Rightarrow> ('m wallet, unit) action" where
  "handle_spawn_new_channel A L E a participants =
     act_bind (spawn_channel A L E a (Some participants)) (\<lambda>_. wallet_get_channel a)"

text \<open>The peers of all channels. The participants without this account are at least one, or indexing
  panics.\<close>

definition handle_get_all_channels :: "('m wallet, account_address list) action" where
  "handle_get_all_channels w =
     (let peers = map (\<lambda>(_, c). filter (\<lambda>e. e \<noteq> account_address (ch_stm c)) (participant_addresses (ch_stm c))) (wl_channels w)
      in if \<exists>ps \<in> set peers. ps = [] then (Inl (Panic ''index out of bounds''), w)
         else (Inr (remdups (map hd peers)), w))"

text \<open>Stopping an actor that is gone is an error.\<close>

definition handle_stop_channel :: "wallet_lib \<Rightarrow> account_address \<Rightarrow> ('m wallet, unit) action" where
  "handle_stop_channel X participant w =
     (let (a, _) = generate_channel_address X participant (wl_account w)
      in case map_of (wl_channels w) a of
           None \<Rightarrow> (Inr (), w)
         | Some c \<Rightarrow> (if ch_stopping c then actor_gone else Inr (), remove_channel a w))"

text \<open>\<open>ChannelNotifyEvent\<close>: a channel actor has stopped.\<close>

definition handle_channel_stopped :: "account_address \<Rightarrow> ('m wallet, unit) action" where
  "handle_channel_stopped a = act_update (remove_channel a)"

text \<open>The resource of the account must exist: its absence panics.\<close>

definition wallet_account_resource :: "libra \<Rightarrow> (bytes \<Rightarrow> 'r option) \<Rightarrow> env \<Rightarrow> 'm wallet \<Rightarrow> chan_error + 'r" where
  "wallet_account_resource L read E w =
     try_bind (get_account_state (env_chain E) (wl_account w) None) (\<lambda>st.
     try_bind (ok_or (map_of (as_state st) (account_resource_path L)) (Panic ''unwrap on None'')) (\<lambda>b.
       ok_or (read b) (Bail ''account resource'')))"

definition wallet_sequence_number :: "libra \<Rightarrow> env \<Rightarrow> 'm wallet \<Rightarrow> chan_error + u64" where
  "wallet_sequence_number L E w = wallet_account_resource L (read_account_sequence_number L) E w"

definition wallet_balance :: "wallet_lib \<Rightarrow> libra \<Rightarrow> env \<Rightarrow> 'm wallet \<Rightarrow> chan_error + u64" where
  "wallet_balance X L E w = wallet_account_resource L (read_account_balance X) E w"

definition watch_transaction :: "env \<Rightarrow> account_address \<Rightarrow> u64 \<Rightarrow> chan_error + chain_txn" where
  "watch_transaction E sender seq =
     try_bind (env_watch E sender seq) (\<lambda>found. ok_or found (Bail ''proof not found''))"

definition account_txn :: "'m wallet \<Rightarrow> u64 \<Rightarrow> u64 \<Rightarrow> duration \<Rightarrow> raw_transaction" where
  "account_txn w seq gas expiration =
     \<lparr>rt_sender = wl_account w, rt_sequence_number = seq, rt_payload = PayloadOther, rt_max_gas_amount = gas,
      rt_gas_unit_price = 1, rt_expiration_time = expiration\<rparr>"

definition handle_enable_channel :: "libra \<Rightarrow> env \<Rightarrow> ('m wallet, u64) action" where
  "handle_enable_channel L E w =
     act_bind (act_lift
       (try_bind (ensure (\<not> wl_enabled w) (Bail ''channel feature is already enabled'')) (\<lambda>_.
        try_bind (wallet_sequence_number L E w) (\<lambda>seq.
        try_bind (sign_raw L (wl_private_key w) (wl_public_key w)
          (account_txn w seq 1000000 (duration_from_secs (-1)))) (\<lambda>txn.
        try_bind (env_submit E txn) (\<lambda>_. watch_transaction E (wl_account w) seq)))))) (\<lambda>proof.
     act_bind (act_update (\<lambda>w. w\<lparr>wl_enabled := True\<rparr>)) (\<lambda>_. act_lift (Inr (cx_gas_used proof)))) w"

text \<open>\<open>create_signed_payload_txn\<close> adds the clock to the expiration time.\<close>

definition handle_deploy_module :: "libra \<Rightarrow> env \<Rightarrow> ('m wallet, chain_txn) action" where
  "handle_deploy_module L E w =
     act_lift
       (try_bind (wallet_sequence_number L E w) (\<lambda>seq.
        try_bind (sign_raw L (wl_private_key w) (wl_public_key w)
          (account_txn w seq MAX_GAS_AMOUNT_ONCHAIN (env_expiration E))) (\<lambda>txn.
        try_bind (env_submit E txn) (\<lambda>_.
          watch_transaction E (rt_sender (st_raw_txn txn)) (rt_sequence_number (st_raw_txn txn)))))) w"

text \<open>The channels of the account are started one after the other; the first that cannot be started
  stops the wallet.\<close>

fun start_channels ::
  "'m ledger_lib \<Rightarrow> libra \<Rightarrow> (nat \<Rightarrow> wallet_env) \<Rightarrow> account_address list \<Rightarrow> ('m wallet, unit) action" where
  "start_channels A L E [] w = (Inr (), w)"
| "start_channels A L E (a # as) w =
     (case spawn_channel A L (E 0) a None w of
        (Inr _, w) \<Rightarrow> start_channels A L (E \<circ> Suc) as w
      | (Inl (Panic m), w) \<Rightarrow> (Inl (Panic m), w)
      | (Inl _, w) \<Rightarrow> (Inr (), w\<lparr>wl_stopping := True\<rparr>))"

definition wallet_started ::
  "wallet_lib \<Rightarrow> 'm ledger_lib \<Rightarrow> libra \<Rightarrow> chain \<Rightarrow> (nat \<Rightarrow> wallet_env) \<Rightarrow> ('m wallet, unit) action" where
  "wallet_started X A L chain E w =
     (case get_account_state chain (wl_account w) None of
        Inl (Panic m) \<Rightarrow> (Inl (Panic m), w)
      | Inl _ \<Rightarrow> (Inr (), w\<lparr>wl_stopping := True\<rparr>)
      | Inr st \<Rightarrow>
          (case map_of (as_state st) (user_channels_path X) of
             None \<Rightarrow> (Inr (), w\<lparr>wl_enabled := False\<rparr>)
           | Some blob \<Rightarrow>
               (case read_user_channels X blob of
                  None \<Rightarrow> (Inl (Panic ''parse user channels should work''), w\<lparr>wl_enabled := True\<rparr>)
                | Some channels \<Rightarrow> start_channels A L E channels (w\<lparr>wl_enabled := True\<rparr>))))"

definition wallet_stopped :: "('m wallet, unit) action" where
  "wallet_stopped = act_update (\<lambda>w. fold (remove_channel \<circ> fst) (wl_channels w) w)"

section \<open>The handle: reading\<close>

text \<open>A resource of a channel, read through its actor.\<close>

definition wallet_channel_resource ::
  "account_address \<Rightarrow> bytes \<Rightarrow> (bytes \<Rightarrow> 'r option) \<Rightarrow> ('m wallet, 'r option) action" where
  "wallet_channel_resource a path read =
     act_bind (wallet_send (wallet_get_channel a)) (\<lambda>_.
     act_bind (channel_send a (handle_accessing_resource \<lparr>ap_address = a, ap_path = path\<rparr>)) (\<lambda>blob.
       act_lift (case blob of
          None \<Rightarrow> Inr None
        | Some b \<Rightarrow> try_bind (ok_or (read b) (Bail ''make_resource'')) (\<lambda>r. Inr (Some r)))))"

definition wallet_channel_sequence_number :: "wallet_lib \<Rightarrow> libra \<Rightarrow> account_address \<Rightarrow> ('m wallet, u64) action" where
  "wallet_channel_sequence_number X L participant w =
     (let (a, _) = generate_channel_address X participant (wl_account w)
      in act_bind (wallet_channel_resource a (mirror_resource_path L a) (read_mirror L)) (\<lambda>r.
           act_lift (Inr (case r of None \<Rightarrow> 0 | Some n \<Rightarrow> n))) w)"

definition wallet_account_in_channel ::
  "wallet_lib \<Rightarrow> account_address \<Rightarrow> account_address \<Rightarrow> ('m wallet, u64) action" where
  "wallet_account_in_channel X participant address w =
     (let (a, _) = generate_channel_address X participant (wl_account w)
      in act_bind (wallet_channel_resource a (channel_account_path X address) (read_channel_balance X)) (\<lambda>r.
           act_lift (Inr (case r of None \<Rightarrow> 0 | Some n \<Rightarrow> n))) w)"

definition participant_channel_balance :: "wallet_lib \<Rightarrow> account_address \<Rightarrow> ('m wallet, u64) action" where
  "participant_channel_balance X participant = wallet_account_in_channel X participant participant"

definition channel_balance :: "wallet_lib \<Rightarrow> account_address \<Rightarrow> ('m wallet, u64) action" where
  "channel_balance X participant w = wallet_account_in_channel X participant (wl_account w) w"

text \<open>A store of its own is opened on the database of the channel.\<close>

definition wallet_applied_txn ::
  "wallet_lib \<Rightarrow> 'm ledger_lib \<Rightarrow> libra \<Rightarrow> bool \<Rightarrow> account_address \<Rightarrow> u64 \<Rightarrow> ('m wallet, applied_channel_txn) action" where
  "wallet_applied_txn X A L ok participant seq w =
     (let (a, ps) = generate_channel_address X (wl_account w) participant
      in case channel_store_new A (payload_sequence_number L) ok ps (get_channel_db a w) of
           Inl e \<Rightarrow> (Inl e, w)
         | Inr s \<Rightarrow>
             (try_bind (get_transaction_by_channel_seq_number A s seq) (\<lambda>t. Inr (tp_signed_transaction t)),
              if map_of (wl_channels w) a = None then put_channel_db a (s_db s) w else w))"

definition wallet_txn_by_sequence_number ::
  "wallet_lib \<Rightarrow> 'm ledger_lib \<Rightarrow> libra \<Rightarrow> bool \<Rightarrow> account_address \<Rightarrow> u64 \<Rightarrow> ('m wallet, signed_channel_transaction) action" where
  "wallet_txn_by_sequence_number X A L ok participant seq =
     act_bind (wallet_applied_txn X A L ok participant seq) (\<lambda>t.
       act_lift (case t of
          Offchain u \<Rightarrow> Inr u
        | Travel _ \<Rightarrow> Inl (Bail ''txn is a travel txn'')))"

definition wallet_get_pending_txn :: "wallet_lib \<Rightarrow> account_address \<Rightarrow> ('m wallet, pending_transaction option) action" where
  "wallet_get_pending_txn X participant w =
     (let (a, _) = generate_channel_address X participant (wl_account w)
      in act_bind (wallet_send (wallet_get_channel a)) (\<lambda>_. channel_send a handle_get_pending) w)"

definition get_waiting_proposal ::
  "wallet_lib \<Rightarrow> account_address \<Rightarrow> ('m wallet, channel_transaction_proposal option) action" where
  "get_waiting_proposal X participant w =
     act_bind (wallet_get_pending_txn X participant) (\<lambda>p.
       act_lift (Inr (case p of
          None \<Rightarrow> None
        | Some p \<Rightarrow>
            if is_negotiating p \<and> \<not> bt_contains (pt_signatures p) (wl_account w) \<and>
               ct_proposer (channel_txn (pt_proposal p)) \<noteq> wl_account w
            then Some (pt_proposal p) else None))) w"

text \<open>The proposer's own signature is unwrapped.\<close>

definition get_pending_txn_request ::
  "wallet_lib \<Rightarrow> account_address \<Rightarrow> ('m wallet, channel_transaction_request option) action" where
  "get_pending_txn_request X participant =
     act_bind (wallet_get_pending_txn X participant) (\<lambda>p.
       act_lift (case p of
          None \<Rightarrow> Inr None
        | Some p \<Rightarrow>
            if is_negotiating p
            then try_bind (ok_or (map_of (pt_signatures p) (ct_proposer (channel_txn (pt_proposal p)))) (Panic ''unwrap on None''))
                   (\<lambda>s. Inr (Some \<lparr>rq_proposal = pt_proposal p, rq_sigs = s, rq_travel = is_travel_txn (pt_output p)\<rparr>))
            else Inr None))"

end
