(* ===== verification/Wallet_Handle.thy ===== *)
theory Wallet_Handle
  imports Wallet_Actor
begin

text \<open>
  The operations of \<open>WalletHandle\<close> (\<open>sgwallet/src/wallet.rs\<close>) that change a channel: proposing a
  transaction, answering the one of a peer, and applying it. Each finds the channel through the
  wallet actor and sends it one or two messages. Also here: what makes an operation a hashed
  payment (\<open>sgwallet/src/utils/mod.rs\<close>, \<open>sgtypes/src/htlc.rs\<close>).
\<close>

section \<open>Proposing\<close>

definition request_id :: "libra \<Rightarrow> channel_transaction_request \<Rightarrow> hash_value" where
  "request_id L r = hash_channel_txn L (channel_txn (rq_proposal r))"

definition response_id :: "libra \<Rightarrow> channel_transaction_response \<Rightarrow> hash_value" where
  "response_id L r = hash_channel_txn L (channel_txn (rs_proposal r))"

text \<open>The channel is started when the operation opens it, and must be there otherwise.\<close>

definition reach_channel ::
  "'m ledger_lib \<Rightarrow> libra \<Rightarrow> wallet_env \<Rightarrow> channel_op \<Rightarrow> account_address \<Rightarrow> account_address list \<Rightarrow> ('m wallet, unit) action" where
  "reach_channel A L E op a participants =
     (if op_is_open op then wallet_send (handle_spawn_new_channel A L E a participants)
      else wallet_send (wallet_get_channel a))"

definition execute_async ::
  "wallet_lib \<Rightarrow> 'm ledger_lib \<Rightarrow> libra \<Rightarrow> wallet_env \<Rightarrow> account_address \<Rightarrow> channel_op \<Rightarrow> transaction_argument list \<Rightarrow>
     ('m wallet, channel_transaction_request) action" where
  "execute_async X A L E participant op args w =
     (let (a, participants) = generate_channel_address X participant (wl_account w)
      in act_bind (reach_channel A L E op a participants) (\<lambda>_.
         act_bind (channel_send a (handle_execute L (we_env E 1) op args)) (\<lambda>(proposal, sigs, output).
           act_lift (Inr \<lparr>rq_proposal = proposal, rq_sigs = sigs, rq_travel = is_travel_txn output\<rparr>))) w)"

definition channel_script :: "libra \<Rightarrow> string \<Rightarrow> channel_op" where
  "channel_script L name = OpAction (default_address L) ''ChannelScript'' name"

definition wallet_open ::
  "wallet_lib \<Rightarrow> 'm ledger_lib \<Rightarrow> libra \<Rightarrow> wallet_env \<Rightarrow> account_address \<Rightarrow> u64 \<Rightarrow> u64 \<Rightarrow>
     ('m wallet, channel_transaction_request) action" where
  "wallet_open X A L E participant sender_amount receiver_amount =
     execute_async X A L E participant OpOpen [ArgAddress participant, ArgU64 sender_amount, ArgU64 receiver_amount]"

definition wallet_deposit ::
  "wallet_lib \<Rightarrow> 'm ledger_lib \<Rightarrow> libra \<Rightarrow> wallet_env \<Rightarrow> account_address \<Rightarrow> u64 \<Rightarrow> ('m wallet, channel_transaction_request) action" where
  "wallet_deposit X A L E receiver amount = execute_async X A L E receiver (channel_script L ''deposit'') [ArgU64 amount]"

definition send_payment ::
  "wallet_lib \<Rightarrow> 'm ledger_lib \<Rightarrow> libra \<Rightarrow> wallet_env \<Rightarrow> account_address \<Rightarrow> u64 \<Rightarrow> bytes \<Rightarrow> u64 \<Rightarrow>
     ('m wallet, channel_transaction_request) action" where
  "send_payment X A L E participant amount hash_lock timeout =
     execute_async X A L E participant (channel_script L ''send_payment'')
       [ArgAddress participant, ArgU64 amount, ArgByteArray hash_lock, ArgU64 timeout]"

definition receive_payment ::
  "wallet_lib \<Rightarrow> 'm ledger_lib \<Rightarrow> libra \<Rightarrow> wallet_env \<Rightarrow> account_address \<Rightarrow> bytes \<Rightarrow> ('m wallet, channel_transaction_request) action" where
  "receive_payment X A L E participant preimage =
     execute_async X A L E participant (channel_script L ''receive_payment'') [ArgByteArray preimage]"

definition recall_timeout_payment ::
  "wallet_lib \<Rightarrow> 'm ledger_lib \<Rightarrow> libra \<Rightarrow> wallet_env \<Rightarrow> account_address \<Rightarrow> ('m wallet, channel_transaction_request) action" where
  "recall_timeout_payment X A L E participant =
     execute_async X A L E participant (channel_script L ''cancel_payment_after_timeout'') []"

definition wallet_transfer ::
  "wallet_lib \<Rightarrow> 'm ledger_lib \<Rightarrow> libra \<Rightarrow> wallet_env \<Rightarrow> account_address \<Rightarrow> u64 \<Rightarrow> ('m wallet, channel_transaction_request) action" where
  "wallet_transfer X A L E receiver amount =
     execute_async X A L E receiver (channel_script L ''transfer'') [ArgAddress receiver, ArgU64 amount]"

definition wallet_withdraw ::
  "wallet_lib \<Rightarrow> 'm ledger_lib \<Rightarrow> libra \<Rightarrow> wallet_env \<Rightarrow> account_address \<Rightarrow> u64 \<Rightarrow> ('m wallet, channel_transaction_request) action" where
  "wallet_withdraw X A L E receiver amount = execute_async X A L E receiver (channel_script L ''withdraw'') [ArgU64 amount]"

definition wallet_close ::
  "wallet_lib \<Rightarrow> 'm ledger_lib \<Rightarrow> libra \<Rightarrow> wallet_env \<Rightarrow> account_address \<Rightarrow> ('m wallet, channel_transaction_request) action" where
  "wallet_close X A L E receiver = execute_async X A L E receiver OpClose []"

definition wallet_execute_script ::
  "wallet_lib \<Rightarrow> 'm ledger_lib \<Rightarrow> libra \<Rightarrow> wallet_env \<Rightarrow> account_address \<Rightarrow> string \<Rightarrow> string \<Rightarrow> transaction_argument list \<Rightarrow>
     ('m wallet, channel_transaction_request) action" where
  "wallet_execute_script X A L E receiver package script args =
     execute_async X A L E receiver (OpExecute package script) args"

section \<open>Answering\<close>

definition verify_txn ::
  "wallet_lib \<Rightarrow> 'm ledger_lib \<Rightarrow> libra \<Rightarrow> wallet_env \<Rightarrow> account_address \<Rightarrow> channel_transaction_request \<Rightarrow>
     ('m wallet, channel_transaction_response option) action" where
  "verify_txn X A L E participant request w =
     (let txn = channel_txn (rq_proposal request);
          (a, participants) = generate_channel_address X (ct_proposer txn) (wl_account w)
      in act_bind (act_lift (ensure (participant = ct_proposer txn) (Bail ''peer id and txn proposer mismatch''))) (\<lambda>_.
         act_bind (act_lift (ensure (a = ct_channel_address txn) (Bail ''invalid channel address in txn''))) (\<lambda>_.
         act_bind (reach_channel A L E (ct_operator txn) a participants) (\<lambda>_.
         act_bind (channel_send a (handle_collect A L (we_env E 1) (rq_proposal request) (rq_sigs request))) (\<lambda>sig.
           act_lift (Inr (map_option (\<lambda>s. \<lparr>rs_proposal = rq_proposal request, rs_sigs = s\<rparr>) sig)))))) w)"

definition grant_txn_request ::
  "wallet_lib \<Rightarrow> libra \<Rightarrow> wallet_env \<Rightarrow> account_address \<Rightarrow> hash_value \<Rightarrow> bool \<Rightarrow>
     ('m wallet, channel_transaction_response option) action" where
  "grant_txn_request X L E participant txn_id grant w =
     (let (a, _) = generate_channel_address X participant (wl_account w)
      in act_bind (wallet_send (wallet_get_channel a)) (\<lambda>_.
         act_bind (channel_send a handle_get_pending) (\<lambda>pending.
         act_bind (act_lift (ok_or pending (Bail ''no pending txn to grant''))) (\<lambda>p.
           if \<not> grant
           then act_bind (channel_send a (handle_cancel L (we_env E 0) txn_id)) (\<lambda>_. act_lift (Inr None))
           else act_bind (channel_send a (handle_grant L (we_env E 0) txn_id)) (\<lambda>s.
                  act_lift (Inr (Some \<lparr>rs_proposal = pt_proposal p, rs_sigs = s\<rparr>)))))) w)"

definition approve_txn ::
  "wallet_lib \<Rightarrow> libra \<Rightarrow> wallet_env \<Rightarrow> account_address \<Rightarrow> hash_value \<Rightarrow> ('m wallet, channel_transaction_response) action" where
  "approve_txn X L E participant txn_id =
     act_bind (grant_txn_request X L E participant txn_id True) (\<lambda>r. act_lift (ok_or r (Panic ''unwrap on None'')))"

definition reject_txn :: "wallet_lib \<Rightarrow> libra \<Rightarrow> wallet_env \<Rightarrow> account_address \<Rightarrow> hash_value \<Rightarrow> ('m wallet, unit) action" where
  "reject_txn X L E participant txn_id =
     act_bind (grant_txn_request X L E participant txn_id False) (\<lambda>_. act_lift (Inr ()))"

definition cancel_pending_request ::
  "wallet_lib \<Rightarrow> libra \<Rightarrow> wallet_env \<Rightarrow> account_address \<Rightarrow> hash_value \<Rightarrow> ('m wallet, unit) action" where
  "cancel_pending_request X L E participant txn_id w =
     (let (a, _) = generate_channel_address X participant (wl_account w)
      in act_bind (wallet_send (wallet_get_channel a)) (\<lambda>_. channel_send a (handle_cancel L (we_env E 0) txn_id)) w)"

definition verify_txn_response ::
  "wallet_lib \<Rightarrow> 'm ledger_lib \<Rightarrow> libra \<Rightarrow> wallet_env \<Rightarrow> account_address \<Rightarrow> channel_transaction_response \<Rightarrow> ('m wallet, unit) action" where
  "verify_txn_response X A L E participant response w =
     (let (a, _) = generate_channel_address X participant (wl_account w)
      in act_bind (wallet_send (wallet_get_channel a)) (\<lambda>_.
         act_bind (channel_send a (handle_collect A L (we_env E 0) (rs_proposal response) (rs_sigs response))) (\<lambda>_.
           act_lift (Inr ()))) w)"

section \<open>Applying\<close>

definition watch_travel ::
  "'m ledger_lib \<Rightarrow> libra \<Rightarrow> wallet_env \<Rightarrow> account_address \<Rightarrow> account_address \<times> u64 \<Rightarrow> ('m wallet, u64) action" where
  "watch_travel A L E a = (\<lambda>(sender, seq). channel_send a (handle_watch_and_apply A L (we_env E 1) sender seq))"

definition apply_txn ::
  "wallet_lib \<Rightarrow> 'm ledger_lib \<Rightarrow> libra \<Rightarrow> wallet_env \<Rightarrow> account_address \<Rightarrow> ('m wallet, u64) action" where
  "apply_txn X A L E participant w =
     (let (a, _) = generate_channel_address X participant (wl_account w)
      in act_bind (wallet_send (wallet_get_channel a)) (\<lambda>_.
         act_bind (channel_send a (handle_apply_pending A L (we_env E 0))) (\<lambda>watch.
           (case watch of
              None \<Rightarrow> act_lift (Inr 0)
            | Some t \<Rightarrow> watch_travel A L E a t))) w)"

definition force_travel_txn ::
  "wallet_lib \<Rightarrow> 'm ledger_lib \<Rightarrow> libra \<Rightarrow> wallet_env \<Rightarrow> account_address \<Rightarrow> ('m wallet, u64) action" where
  "force_travel_txn X A L E participant w =
     (let (a, _) = generate_channel_address X participant (wl_account w)
      in act_bind (wallet_send (wallet_get_channel a)) (\<lambda>_.
         act_bind (channel_send a (handle_apply_pending A L (we_env E 0))) (\<lambda>watch.
         act_bind (act_lift (ok_or watch (Bail ''already travelling''))) (watch_travel A L E a))) w)"

text \<open>The registry is shared with the channels that run.\<close>

definition wallet_install_package :: "script_package \<Rightarrow> ('m wallet, unit) action" where
  "wallet_install_package p w =
     (case install_package p (wl_registry w) of
        Inl e \<Rightarrow> (Inl e, w)
      | Inr reg \<Rightarrow>
          (Inr (), w\<lparr>wl_registry := reg,
             wl_channels := map (\<lambda>(a, c). (a, c\<lparr>ch_stm := (ch_stm c)\<lparr>script_registry := reg\<rparr>\<rparr>)) (wl_channels w)\<rparr>))"

text \<open>Stopping the wallet stops its channels and its actor.\<close>

definition wallet_stop :: "('m wallet, unit) action" where
  "wallet_stop w = (Inr (), if wl_stopping w then w else (snd (wallet_stopped w))\<lparr>wl_stopping := True\<rparr>)"

definition start_channel ::
  "wallet_lib \<Rightarrow> 'm ledger_lib \<Rightarrow> libra \<Rightarrow> wallet_env \<Rightarrow> account_address \<Rightarrow> ('m wallet, unit) action" where
  "start_channel X A L E participant w =
     (let (a, ps) = generate_channel_address X participant (wl_account w)
      in wallet_send (handle_spawn_new_channel A L E a ps) w)"

section \<open>Hashed payments\<close>

record htlc_payment =
  hash_lock :: hash_value
  htlc_amount :: u64
  htlc_timeout :: u64

definition is_htlc_transfer :: "libra \<Rightarrow> channel_op \<Rightarrow> bool" where
  "is_htlc_transfer L op \<longleftrightarrow> op = channel_script L ''send_payment''"

definition is_htlc_receive :: "libra \<Rightarrow> channel_op \<Rightarrow> bool" where
  "is_htlc_receive L op \<longleftrightarrow> op = channel_script L ''receive_payment''"

definition parse_htlc_payment :: "wire_lib \<Rightarrow> transaction_argument list \<Rightarrow> chan_error + htlc_payment" where
  "parse_htlc_payment W args =
     (case args of
        [_, amount, lock, timeout] \<Rightarrow>
          try_bind (case amount of ArgU64 a \<Rightarrow> Inr a | _ \<Rightarrow> Inl (Bail ''1st arg of send_payment should be u64'')) (\<lambda>a.
          try_bind (case lock of ArgByteArray d \<Rightarrow> to_hash W d | _ \<Rightarrow> Inl (Bail ''3rd arg of send_payment should be byte array'')) (\<lambda>h.
          try_bind (case timeout of ArgU64 t \<Rightarrow> Inr t | _ \<Rightarrow> Inl (Bail ''4th arg of send_payment should be u64'')) (\<lambda>t.
            Inr \<lparr>hash_lock = h, htlc_amount = a, htlc_timeout = t\<rparr>)))
      | _ \<Rightarrow> Inl (Bail ''send_payment should have 4 args''))"

definition parse_htlc_preimage :: "wire_lib \<Rightarrow> transaction_argument list \<Rightarrow> chan_error + hash_value" where
  "parse_htlc_preimage W args =
     (case args of
        [ArgByteArray d] \<Rightarrow> to_hash W d
      | [_] \<Rightarrow> Inl (Bail ''the 2th arg of receive_payment should be byte array'')
      | _ \<Rightarrow> Inl (Bail ''receive_payment should have 1 args''))"

end
