(* ===== verification/Invoices.thy ===== *)
theory Invoices
  imports Wire_Messages
begin

text \<open>
  Invoices (\<open>node/node_internal/src/invoice.rs\<close>): what a receiver hands to the payer, and the
  tables from hash locks to preimages and to the hop a payment came from. The hexadecimal codec,
  the hash and the random source are libraries and are in the record \<open>invoice_lib\<close>.
\<close>

section \<open>Invoices\<close>

record invoice =
  r_hash :: bytes
  inv_amount :: u64
  inv_receiver :: account_address

record invoice_lib =
  hex_encode_upper :: "bytes \<Rightarrow> string"
  hex_decode :: "string \<Rightarrow> chan_error + bytes"
  sha3_256 :: "bytes \<Rightarrow> hash_value"
  random_hash :: "u64 \<Rightarrow> hash_value"
  address_length :: nat

definition invoice_as_vec :: "invoice \<Rightarrow> bytes" where
  "invoice_as_vec v = inv_receiver v @ be_bytes 8 (unat (inv_amount v)) @ r_hash v"

text \<open>A slice beyond the end panics.\<close>

definition slice :: "nat \<Rightarrow> nat \<Rightarrow> bytes \<Rightarrow> chan_error + bytes" where
  "slice i j b = (if j \<le> length b then Inr (take (j - i) (drop i b)) else Inl (Panic ''slice index out of range''))"

definition invoice_from_bytes :: "wire_lib \<Rightarrow> invoice_lib \<Rightarrow> bytes \<Rightarrow> chan_error + invoice" where
  "invoice_from_bytes W I v =
     (let n = address_length I
      in try_bind (slice 0 n v) (\<lambda>a.
         try_bind (to_address W a) (\<lambda>receiver.
         try_bind (slice n (n + 8) v) (\<lambda>amount.
           Inr \<lparr>r_hash = drop (n + 8) v, inv_amount = of_nat (be_value amount), inv_receiver = receiver\<rparr>))))"

definition invoice_from_string :: "wire_lib \<Rightarrow> invoice_lib \<Rightarrow> string \<Rightarrow> chan_error + invoice" where
  "invoice_from_string W I s = try_bind (hex_decode I s) (invoice_from_bytes W I)"

definition invoice_into_string :: "invoice_lib \<Rightarrow> invoice \<Rightarrow> string" where
  "invoice_into_string I v = hex_encode_upper I (invoice_as_vec v)"

section \<open>The invoice manager\<close>

record invoice_manager =
  r_hash_map :: "(bytes \<times> bytes) list"
  previous_hop_map :: "(bytes \<times> account_address) list"

definition invoice_manager_new :: invoice_manager where
  "invoice_manager_new = \<lparr>r_hash_map = [], previous_hop_map = []\<rparr>"

text \<open>The random source is seeded with the clock.\<close>

definition new_invoice ::
  "invoice_lib \<Rightarrow> u64 \<Rightarrow> u64 \<Rightarrow> account_address \<Rightarrow> invoice_manager \<Rightarrow> invoice \<times> invoice_manager" where
  "new_invoice I now amount receiver m =
     (let preimage = random_hash I now; h = sha3_256 I preimage
      in (\<lparr>r_hash = h, inv_amount = amount, inv_receiver = receiver\<rparr>,
          m\<lparr>r_hash_map := AList.update h preimage (r_hash_map m)\<rparr>))"

definition get_preimage :: "hash_value \<Rightarrow> invoice_manager \<Rightarrow> bytes option" where
  "get_preimage h m = map_of (r_hash_map m) h"

definition add_previous_hop :: "hash_value \<Rightarrow> account_address \<Rightarrow> invoice_manager \<Rightarrow> invoice_manager" where
  "add_previous_hop h a m = m\<lparr>previous_hop_map := AList.update h a (previous_hop_map m)\<rparr>"

definition get_previous_hop :: "invoice_lib \<Rightarrow> bytes \<Rightarrow> invoice_manager \<Rightarrow> account_address option" where
  "get_previous_hop I preimage m = map_of (previous_hop_map m) (sha3_256 I preimage)"

text \<open>Every preimage of the table opens its lock.\<close>

definition invoices_ok :: "invoice_lib \<Rightarrow> invoice_manager \<Rightarrow> bool" where
  "invoices_ok I m \<longleftrightarrow> (\<forall>h p. get_preimage h m = Some p \<longrightarrow> sha3_256 I p = h)"

lemma invoices_ok_new: "invoices_ok I invoice_manager_new"
  by (simp add: invoices_ok_def get_preimage_def invoice_manager_new_def)

lemma invoices_ok_add: "invoices_ok I m \<Longrightarrow> invoices_ok I (snd (new_invoice I now amount receiver m))"
  by (auto simp: invoices_ok_def get_preimage_def new_invoice_def Let_def map_of_update)

lemma invoices_ok_hop [simp]: "invoices_ok I (add_previous_hop h a m) = invoices_ok I m"
  by (simp add: invoices_ok_def get_preimage_def add_previous_hop_def)

lemma get_previous_hop_add: "sha3_256 I p = h \<Longrightarrow> get_previous_hop I p (add_previous_hop h a m) = Some a"
  by (simp add: get_previous_hop_def add_previous_hop_def map_of_update)

section \<open>Properties\<close>

text \<open>The hexadecimal codec decodes what it encodes.\<close>

definition hex_ok :: "invoice_lib \<Rightarrow> bool" where
  "hex_ok I \<longleftrightarrow> (\<forall>b. hex_decode I (hex_encode_upper I b) = Inr b)"

text \<open>A codec that writes each byte as one character, with addresses of two bytes.\<close>

definition sample_invoice_lib :: invoice_lib where
  "sample_invoice_lib = \<lparr>hex_encode_upper = map (\<lambda>x. char_of (unat x)), hex_decode = (\<lambda>s. Inr (map (\<lambda>c. of_nat (of_char c)) s)),
     sha3_256 = rev, random_hash = (\<lambda>n. be_bytes 8 (unat n)), address_length = 2\<rparr>"

lemma sample_hex_ok: "hex_ok sample_invoice_lib"
proof -
  have "(of_nat (unat x mod 256) :: u8) = x" for x
  proof -
    have "unat x < 256" using unsigned_less [of x] by simp
    then show ?thesis by simp
  qed
  then show ?thesis by (simp add: hex_ok_def sample_invoice_lib_def o_def of_char_of)
qed

text \<open>C24. The text of an invoice gives back the invoice, whatever its hash and amount. A text that
  decodes to fewer bytes than an address and an amount is not an invoice: the payer's node panics on
  it, unless there are enough bytes for an address and these are refused.\<close>

theorem invoice_roundtrip:
  assumes "hex_ok I" "address_ok W (inv_receiver v)" "length (inv_receiver v) = address_length I"
    and "hex_decode I s = Inr b" "length b < address_length I + 8"
  shows "invoice_from_string W I (invoice_into_string I v) = Inr v \<and>
    (\<exists>e. invoice_from_string W I s = Inl e \<and>
       (length b < address_length I \<or> address_ok W (take (address_length I) b) \<longrightarrow> (\<exists>m. e = Panic m)))"
proof
  have "of_nat (be_value (be_bytes 8 (unat (inv_amount v)))) = inv_amount v" by (simp add: be_bytes_word)
  then have "invoice_from_bytes W I (invoice_as_vec v) = Inr v"
    using assms(2,3) by (simp add: invoice_from_bytes_def invoice_as_vec_def slice_def to_address_def)
  then show "invoice_from_string W I (invoice_into_string I v) = Inr v"
    using assms(1) by (simp add: invoice_from_string_def invoice_into_string_def hex_ok_def)
qed (use assms(4,5) in \<open>auto simp: invoice_from_string_def invoice_from_bytes_def slice_def to_address_def Let_def ensure_def\<close>)

theorem invoice_roundtrip_witness:
  "\<exists>W. invoice_from_string W sample_invoice_lib
      (invoice_into_string sample_invoice_lib \<lparr>r_hash = [9, 8], inv_amount = 1000, inv_receiver = [1, 2]\<rparr>) =
      Inr \<lparr>r_hash = [9, 8], inv_amount = 1000, inv_receiver = [1, 2]\<rparr> \<and>
    (\<exists>m. invoice_from_string W sample_invoice_lib ''12'' = Inl (Panic m))"
proof -
  define W where "W = \<lparr>address_ok = \<lambda>b. length b = 2, public_key_ok = \<lambda>_. True, signature_ok = \<lambda>_. True, hash_ok = \<lambda>_. True,
    argument_into = \<lambda>_. [], argument_from = \<lambda>_. Inl (Bail [])\<rparr>"
  have "hex_decode sample_invoice_lib ''12'' = Inr [49, 50]" "address_length sample_invoice_lib = 2"
    by (simp_all add: sample_invoice_lib_def)
  then show ?thesis
    using invoice_roundtrip [OF sample_hex_ok, of W "\<lparr>r_hash = [9, 8], inv_amount = 1000, inv_receiver = [1, 2]\<rparr>" "''12''" "[49, 50]"]
    by (intro exI [of _ W]) (auto simp: W_def)
qed

end
