(* ===== verification/Node_Futures.thy ===== *)
theory Node_Futures
  imports Wire_Messages State_Actions
begin

text \<open>
  Answers that a node waits for (\<open>node/node_internal/src/message_processor.rs\<close>): a table from request
  hashes to the senders of futures. A future is a number; \<open>np_open\<close> are those whose receiver still
  exists, \<open>np_inbox\<close> what was sent to them. A sender that leaves the table is dropped, which ends
  the stream of its future.
\<close>

record node_processor =
  np_tx_map :: "(hash_value \<times> nat) list"
  np_inbox :: "(nat \<times> (chan_error + u64)) list"
  np_open :: "nat list"
  np_next :: nat

definition node_processor_new :: node_processor where
  "node_processor_new = \<lparr>np_tx_map = [], np_inbox = [], np_open = [], np_next = 0\<rparr>"

text \<open>A new channel, and its sender in the table unless the hash is there already; then the new
  sender is dropped.\<close>

definition node_add_future :: "hash_value \<Rightarrow> node_processor \<Rightarrow> nat \<times> node_processor" where
  "node_add_future h p =
     (let f = np_next p
      in (f, p\<lparr>np_tx_map := (case map_of (np_tx_map p) h of Some _ \<Rightarrow> np_tx_map p | None \<Rightarrow> AList.update h f (np_tx_map p)),
               np_open := f # np_open p, np_next := Suc f\<rparr>))"

definition node_drop_future :: "nat \<Rightarrow> node_processor \<Rightarrow> node_processor" where
  "node_drop_future f p = p\<lparr>np_open := removeAll f (np_open p)\<rparr>"

definition node_send_response :: "hash_value \<Rightarrow> u64 \<Rightarrow> node_processor \<Rightarrow> node_processor" where
  "node_send_response h v p =
     (case map_of (np_tx_map p) h of
        None \<Rightarrow> p
      | Some f \<Rightarrow>
          if f \<in> set (np_open p)
          then p\<lparr>np_inbox := np_inbox p @ [(f, Inr v)], np_tx_map := AList.delete h (np_tx_map p)\<rparr>
          else p)"

definition node_remove_future :: "hash_value \<Rightarrow> node_processor \<Rightarrow> node_processor" where
  "node_remove_future h p = p\<lparr>np_tx_map := AList.delete h (np_tx_map p)\<rparr>"

definition node_future_error :: "error_message \<Rightarrow> (node_processor, unit) action" where
  "node_future_error msg p =
     (case map_of (np_tx_map p) (raw_transaction_hash msg) of
        None \<Rightarrow> (Inr (), p)
      | Some f \<Rightarrow>
          if f \<in> set (np_open p)
          then (Inr (), p\<lparr>np_inbox := np_inbox p @ [(f, Inl (BailSg (em_error msg)))],
                          np_tx_map := AList.delete (raw_transaction_hash msg) (np_tx_map p)\<rparr>)
          else (Inl (Bail ''send failed because receiver is gone''), p))"

text \<open>Other errors than \<open>SgError\<close> become one with their text.\<close>

fun error_translate :: "chan_error \<Rightarrow> sg_error" where
  "error_translate (BailSg e) = e"
| "error_translate (Bail m) = \<lparr>error_code = UNKNOWN, sg_message = m\<rparr>"
| "error_translate (Panic m) = \<lparr>error_code = UNKNOWN, sg_message = m\<rparr>"

text \<open>\<open>None\<close> is \<open>NotReady\<close>. Without an answer and without a sender the stream has ended.\<close>

definition node_poll :: "nat \<Rightarrow> node_processor \<Rightarrow> (sg_error + u64) option" where
  "node_poll f p =
     (case map_of (np_inbox p) f of
        Some (Inr v) \<Rightarrow> Some (Inr v)
      | Some (Inl e) \<Rightarrow> Some (Inl (error_translate e))
      | None \<Rightarrow>
          if f \<in> snd ` set (np_tx_map p) then None
          else Some (Inl \<lparr>error_code = TIMEOUT, sg_message = ''future time out''\<rparr>))"

section \<open>Each future has one answer\<close>

datatype future_event = Added hash_value | Dropped nat | Answered hash_value u64 | TimedOut hash_value | Failed error_message

fun future_step :: "future_event \<Rightarrow> node_processor \<Rightarrow> node_processor" where
  "future_step (Added h) p = snd (node_add_future h p)"
| "future_step (Dropped f) p = node_drop_future f p"
| "future_step (Answered h v) p = node_send_response h v p"
| "future_step (TimedOut h) p = node_remove_future h p"
| "future_step (Failed m) p = snd (node_future_error m p)"

text \<open>A sender in the table belongs to a future that has no answer yet, and to one hash only.\<close>

abbreviation waiting_futures :: "node_processor \<Rightarrow> nat set" where
  "waiting_futures p \<equiv> snd ` set (np_tx_map p)"

abbreviation answered_futures :: "node_processor \<Rightarrow> nat set" where
  "answered_futures p \<equiv> fst ` set (np_inbox p)"

definition futures_inv :: "node_processor \<Rightarrow> bool" where
  "futures_inv p \<longleftrightarrow> distinct (map fst (np_tx_map p)) \<and> inj_on snd (set (np_tx_map p)) \<and>
     answered_futures p \<inter> waiting_futures p = {} \<and>
     answered_futures p \<subseteq> {..<np_next p} \<and> waiting_futures p \<subseteq> {..<np_next p}"

lemma delete_values: "snd ` set (AList.delete h m) \<subseteq> snd ` set m" "inj_on snd (set m) \<Longrightarrow> inj_on snd (set (AList.delete h m))"
  by (auto simp: AList.delete_eq inj_on_def)

lemma delete_value:
  assumes "inj_on snd (set m)" "map_of m h = Some f"
  shows "f \<notin> snd ` set (AList.delete h m)"
proof
  assume "f \<in> snd ` set (AList.delete h m)"
  then obtain k where k: "(k, f) \<in> set m" "k \<noteq> h" by (auto simp: AList.delete_eq)
  from inj_onD [OF assms(1) _ k(1) map_of_SomeD [OF assms(2)]] k(2) show False by simp
qed

lemma update_new: "map_of m k = None \<Longrightarrow> AList.update k v m = m @ [(k, v)]"
  by (induction m) (auto split: if_splits)

lemma map_of_waiting: "map_of m h = Some f \<Longrightarrow> f \<in> snd ` set m"
  by (force dest: map_of_SomeD)

lemma futures_new: "futures_inv node_processor_new"
  by (simp add: futures_inv_def node_processor_new_def)

lemma futures_add:
  assumes "futures_inv p"
  shows "futures_inv (snd (node_add_future h p))"
proof (cases "map_of (np_tx_map p) h")
  case None
  then have "h \<notin> fst ` set (np_tx_map p)" by (simp add: map_of_eq_None_iff)
  moreover have "np_next p \<notin> waiting_futures p" "np_next p \<notin> answered_futures p"
    using assms by (auto simp: futures_inv_def)
  moreover have "np_next p \<notin> snd ` (set (np_tx_map p) - {(h, np_next p)})" using calculation(2) by blast
  ultimately show ?thesis
    using assms by (simp add: futures_inv_def node_add_future_def update_new None Let_def lessThan_Suc subset_insertI2)
next
  case (Some f)
  with assms show ?thesis
    by (simp add: futures_inv_def node_add_future_def Let_def lessThan_Suc subset_insertI2)
qed

lemma futures_delete:
  assumes "futures_inv p"
  shows "futures_inv (p\<lparr>np_tx_map := AList.delete h (np_tx_map p)\<rparr>)"
proof -
  let ?W = "snd ` set (AList.delete h (np_tx_map p))"
  have sub: "?W \<subseteq> waiting_futures p" by (rule delete_values(1))
  have "answered_futures p \<inter> ?W = {}" using sub assms unfolding futures_inv_def by fast
  moreover have "?W \<subseteq> {..<np_next p}" using sub assms unfolding futures_inv_def by (meson order_trans)
  ultimately show ?thesis
    using assms delete_values(2) [of "np_tx_map p" h] by (simp add: futures_inv_def distinct_delete)
qed

lemma futures_answer:
  assumes "futures_inv p" "map_of (np_tx_map p) h = Some f"
  shows "futures_inv (p\<lparr>np_inbox := np_inbox p @ [(f, r)], np_tx_map := AList.delete h (np_tx_map p)\<rparr>)"
proof -
  have "f \<in> waiting_futures p" "f \<notin> snd ` set (AList.delete h (np_tx_map p))"
    using map_of_waiting [OF assms(2)] delete_value [OF _ assms(2)] assms(1) by (simp_all add: futures_inv_def)
  moreover have "f < np_next p" using calculation(1) assms(1) unfolding futures_inv_def by fast
  ultimately show ?thesis using futures_delete [OF assms(1), of h] by (simp add: futures_inv_def)
qed

lemma futures_step_inv:
  assumes "futures_inv p"
  shows "futures_inv (future_step e p)"
proof (cases e)
  case (Dropped f)
  with assms show ?thesis by (simp add: futures_inv_def node_drop_future_def)
qed (use assms in \<open>simp_all add: futures_add futures_delete futures_answer node_send_response_def node_remove_future_def
      node_future_error_def split: option.split\<close>)

text \<open>What a caller has seen of a future does not change, and a future that is no longer in the table
  stays out of it.\<close>

lemma poll_settled: "node_poll f p \<noteq> None \<longleftrightarrow> f \<in> answered_futures p \<or> f \<notin> waiting_futures p"
proof (cases "map_of (np_inbox p) f")
  case None
  then have "f \<notin> answered_futures p" by (simp add: map_of_eq_None_iff)
  with None show ?thesis by (simp add: node_poll_def)
next
  case (Some r)
  then have "f \<in> answered_futures p" by (force dest: map_of_SomeD)
  with Some show ?thesis by (cases r) (simp_all add: node_poll_def)
qed

lemma future_step_poll:
  assumes "futures_inv p" "f < np_next p" "node_poll f p = Some r"
  shows "node_poll f (future_step e p) = Some r \<and> f < np_next (future_step e p)"
proof -
  have out: "f \<notin> waiting_futures p"
    using poll_settled [of f p] assms(1,3) by (auto simp: futures_inv_def)
  have keep: "node_poll f p' = Some r" if "map_of (np_inbox p') f = map_of (np_inbox p) f" "f \<notin> waiting_futures p'" for p'
    using assms(3) that out by (auto simp: node_poll_def split: option.splits sum.splits)
  have del: "f \<notin> snd ` set (AList.delete h (np_tx_map p))" for h
    using out delete_values(1) [of h "np_tx_map p"] by blast
  have new: "map_of (np_inbox p @ [(g, x)]) f = map_of (np_inbox p) f" if "map_of (np_tx_map p) h = Some g" for g h x
    using out map_of_waiting [OF that] by (auto simp: map_add_def split: option.split)
  have ans: "node_poll f (p\<lparr>np_inbox := np_inbox p @ [(g, x)], np_tx_map := AList.delete h (np_tx_map p)\<rparr>) = Some r"
    if "map_of (np_tx_map p) h = Some g" for g h x
    by (rule keep) (use new [OF that, of x] del in simp_all)
  show ?thesis
  proof (cases e)
    case (Added h)
    have "node_poll f (snd (node_add_future h p)) = Some r"
      by (rule keep; cases "map_of (np_tx_map p) h") (use out assms(2) in \<open>simp_all add: node_add_future_def update_new Let_def\<close>)
    with Added assms(2) show ?thesis by (simp add: node_add_future_def Let_def)
  next
    case (Dropped g)
    have "node_poll f (node_drop_future g p) = Some r"
      by (rule keep) (simp_all add: node_drop_future_def out)
    with Dropped assms(2) show ?thesis by (simp add: node_drop_future_def)
  next
    case (TimedOut h)
    have "node_poll f (node_remove_future h p) = Some r"
      by (rule keep) (simp_all add: node_remove_future_def del)
    with TimedOut assms(2) show ?thesis by (simp add: node_remove_future_def)
  qed (use assms(2,3) ans in \<open>simp_all add: node_send_response_def node_future_error_def split: option.split\<close>)
qed

definition future_run :: "future_event list \<Rightarrow> node_processor \<Rightarrow> node_processor" where
  "future_run es p = fold future_step es p"

lemma future_run_inv: "futures_inv p \<Longrightarrow> futures_inv (future_run es p)"
  by (induction es arbitrary: p) (auto simp: future_run_def futures_step_inv)

section \<open>Properties\<close>



end
