(* ===== verification/Node_Inner.thy ===== *)
theory Node_Inner
  imports Wallet_Handle Invoices Node_Futures Router_Stats Wire_Correct
begin

text \<open>
  The node (\<open>node/node_internal/src/node.rs\<close>): it answers the messages of its peers and the commands
  of its user by calls of the wallet, and sends the frames of \<open>Wire_Correct\<close>. Each task of the node
  is one operation on the state, from its start to its end. The result of a command is what its
  caller gets; a responder that is dropped without an answer is an error.

  The network and the router are outside: what is sent to them is recorded in the order of sending.
  A message type is put in front of a frame by \<open>encode_frame\<close>.
\<close>

section \<open>State\<close>

record 'm node_state =
  nd_wallet :: "'m wallet"
  nd_processor :: node_processor
  nd_timeout :: u64
  nd_auto_approve :: bool
  nd_invoices :: invoice_manager
  nd_sent :: "(account_address \<times> bytes) list"
  nd_net_open :: bool
  nd_router :: "(account_address \<times> router_network_message) list"
  nd_stats :: "(directed_channel \<times> payment_info) list"
  nd_timers :: "(hash_value \<times> u64) list"

text \<open>The libraries a node is built on.\<close>

record 'm node_lib =
  nl_prost :: prost
  nl_wire :: wire_lib
  nl_wallet :: wallet_lib
  nl_ledger :: "'m ledger_lib"
  nl_libra :: libra
  nl_invoice :: invoice_lib

definition node_new :: "'m wallet \<Rightarrow> bool \<Rightarrow> u64 \<Rightarrow> 'm node_state" where
  "node_new w auto_approve timeout =
     \<lparr>nd_wallet = w, nd_processor = node_processor_new, nd_timeout = timeout, nd_auto_approve = auto_approve,
      nd_invoices = invoice_manager_new, nd_sent = [], nd_net_open = True, nd_router = [], nd_stats = [], nd_timers = []\<rparr>"

definition on_wallet :: "('m wallet, 'a) action \<Rightarrow> ('m node_state, 'a) action" where
  "on_wallet f n = (let (r, w) = f (nd_wallet n) in (r, n\<lparr>nd_wallet := w\<rparr>))"

definition node_account :: "'m node_state \<Rightarrow> account_address" where
  "node_account n = wl_account (nd_wallet n)"

text \<open>\<open>unwrap\<close> on the result of a call: an error ends the task.\<close>

definition unwrapped :: "('s, 'a) action \<Rightarrow> ('s, 'a) action" where
  "unwrapped f s =
     (case f s of
        (Inl (Bail m), s) \<Rightarrow> (Inl (Panic m), s)
      | (Inl (BailSg e), s) \<Rightarrow> (Inl (Panic (sg_message e)), s)
      | r \<Rightarrow> r)"

section \<open>Sending\<close>

definition send_frame :: "'m node_lib \<Rightarrow> account_address \<Rightarrow> node_message \<Rightarrow> ('m node_state, unit) action" where
  "send_frame N peer msg n =
     (if nd_net_open n
      then (Inr (), n\<lparr>nd_sent := nd_sent n @ [(peer, encode_frame (nl_prost N) (nl_wire N) msg)]\<rparr>)
      else (Inl (Bail ''send failed because receiver is gone''), n))"

definition error_message_of :: "chan_error \<Rightarrow> hash_value \<Rightarrow> node_message" where
  "error_message_of e h = NodeError \<lparr>raw_transaction_hash = h, em_error = error_translate e\<rparr>"

definition report_stats :: "account_address \<Rightarrow> payment_info \<Rightarrow> ('m node_state, unit) action" where
  "report_stats peer info = act_update (\<lambda>n. n\<lparr>nd_stats := nd_stats n @ [((node_account n, peer), info)]\<rparr>)"

text \<open>A future for an answer, with its timer. A timeout of zero means none.\<close>

definition future_timeout :: "hash_value \<Rightarrow> 'm node_state \<Rightarrow> 'm node_state" where
  "future_timeout h n = (if nd_timeout n = 0 then n else n\<lparr>nd_timers := nd_timers n @ [(h, nd_timeout n)]\<rparr>)"

definition await_answer :: "hash_value \<Rightarrow> ('m node_state, nat) action" where
  "await_answer h n =
     (let (f, p) = node_add_future h (nd_processor n)
      in (Inr f, future_timeout h (n\<lparr>nd_processor := p\<rparr>)))"

definition send_channel_request :: "'m node_lib \<Rightarrow> account_address \<Rightarrow> channel_transaction_request \<Rightarrow> ('m node_state, nat) action" where
  "send_channel_request N peer request =
     act_bind (send_frame N peer (NodeRequest request)) (\<lambda>_. await_answer (request_id (nl_libra N) request))"

definition send_multi_hop_channel_request :: "'m node_lib \<Rightarrow> account_address \<Rightarrow> multi_hop_request \<Rightarrow> ('m node_state, nat) action" where
  "send_multi_hop_channel_request N peer m =
     act_bind (send_frame N peer (NodeMultiHop m)) (\<lambda>_. await_answer (request_id (nl_libra N) (mh_request m)))"

text \<open>A caller that does not keep the future drops its receiver.\<close>

definition forget :: "('m node_state, nat) action \<Rightarrow> ('m node_state, unit) action" where
  "forget a = act_bind a (\<lambda>f. act_update (\<lambda>n. n\<lparr>nd_processor := node_drop_future f (nd_processor n)\<rparr>))"

definition send_router_message :: "'m node_lib \<Rightarrow> account_address \<Rightarrow> router_network_message \<Rightarrow> ('m node_state, unit) action" where
  "send_router_message N peer msg = send_frame N peer (NodeRouter msg)"

section \<open>Messages of peers\<close>

definition node_apply_txn ::
  "'m node_lib \<Rightarrow> wallet_env \<Rightarrow> account_address \<Rightarrow> hash_value \<Rightarrow> channel_transaction_response \<Rightarrow> ('m node_state, unit) action" where
  "node_apply_txn N E peer h response =
     act_bind (unwrapped (send_frame N peer (NodeResponse response))) (\<lambda>_ n.
       (case on_wallet (apply_txn (nl_wallet N) (nl_ledger N) (nl_libra N) E peer) n of
          (Inr _, n) \<Rightarrow> (Inr (), n)
        | (Inl (Panic m), n) \<Rightarrow> (Inl (Panic m), n)
        | (Inl e, n) \<Rightarrow> unwrapped (send_frame N peer (error_message_of e h)) n))"

text \<open>After a request has been answered: the last hop of a hashed payment claims it with its preimage,
  and a hop whose own payment was claimed claims the one it came from.\<close>

definition settle_htlc :: "'m node_lib \<Rightarrow> wallet_env \<Rightarrow> account_address \<Rightarrow> channel_transaction \<Rightarrow> ('m node_state, unit) action" where
  "settle_htlc N E peer txn =
     act_bind
       (if is_htlc_transfer (nl_libra N) (ct_operator txn)
        then act_bind (act_lift (parse_htlc_payment (nl_wire N) (ct_args txn))) (\<lambda>payment.
             act_bind (act_get (get_preimage (hash_lock payment) \<circ> nd_invoices)) (\<lambda>found.
               (case found of
                  None \<Rightarrow> act_lift (Inr ())
                | Some preimage \<Rightarrow>
                    act_bind (on_wallet (receive_payment (nl_wallet N) (nl_ledger N) (nl_libra N) E peer preimage)) (\<lambda>request.
                      forget (send_channel_request N peer request)))))
        else act_lift (Inr ())) (\<lambda>_.
     if is_htlc_receive (nl_libra N) (ct_operator txn)
     then act_bind (act_lift (parse_htlc_preimage (nl_wire N) (ct_args txn))) (\<lambda>preimage.
          act_bind (act_get (get_previous_hop (nl_invoice N) preimage \<circ> nd_invoices)) (\<lambda>found.
            (case found of
               None \<Rightarrow> act_lift (Inr ())
             | Some previous \<Rightarrow>
                 act_bind (on_wallet (receive_payment (nl_wallet N) (nl_ledger N) (nl_libra N) E previous preimage)) (\<lambda>request.
                   forget (send_channel_request N previous request)))))
     else act_lift (Inr ()))"

text \<open>\<open>E 0\<close> is the environment of the check, \<open>E 1\<close> that of the approval, \<open>E 2\<close> that of the application
  and \<open>E 3\<close> that of the claim. A request that does not pass, or waits for the user, ends here without
  an error.\<close>

definition handle_channel_transaction_request ::
  "'m node_lib \<Rightarrow> (nat \<Rightarrow> wallet_env) \<Rightarrow> account_address \<Rightarrow> channel_transaction_request \<Rightarrow> ('m node_state, unit) action" where
  "handle_channel_transaction_request N E peer request n =
     (let h = request_id (nl_libra N) request;
          answer = (\<lambda>response. act_bind (node_apply_txn N (E 2) peer h response) (\<lambda>_.
                      settle_htlc N (E 3) peer (channel_txn (rq_proposal request))))
      in case on_wallet (verify_txn (nl_wallet N) (nl_ledger N) (nl_libra N) (E 0) peer request) n of
           (Inl (Panic m), n) \<Rightarrow> (Inl (Panic m), n)
         | (Inl e, n) \<Rightarrow> unwrapped (send_frame N peer (error_message_of e h)) n
         | (Inr (Some response), n) \<Rightarrow> answer response n
         | (Inr None, n) \<Rightarrow>
             if nd_auto_approve n
             then act_bind (unwrapped (on_wallet (approve_txn (nl_wallet N) (nl_libra N) (E 1) peer h))) answer n
             else (Inr (), n))"

definition handle_receiver_channel ::
  "'m node_lib \<Rightarrow> (nat \<Rightarrow> wallet_env) \<Rightarrow> bytes \<Rightarrow> account_address \<Rightarrow> ('m node_state, unit) action" where
  "handle_receiver_channel N E d peer =
     act_bind (act_lift (try_bind (dec_request (nl_prost N) d) (request_from (nl_wire N)))) (\<lambda>request.
       handle_channel_transaction_request N E peer request)"

text \<open>A payment over several hops: the request is handled like any other, and then the next hop is paid,
  whatever came of it. \<open>E 4\<close> is the environment of that payment.\<close>

definition forward_payment ::
  "'m node_lib \<Rightarrow> wallet_env \<Rightarrow> account_address \<Rightarrow> channel_transaction \<Rightarrow> next_hop \<Rightarrow> next_hop list \<Rightarrow> ('m node_state, unit) action" where
  "forward_payment N E peer txn hop rest =
     (if is_htlc_transfer (nl_libra N) (ct_operator txn)
      then act_bind (act_lift (parse_htlc_payment (nl_wire N) (ct_args txn))) (\<lambda>payment.
           act_bind (on_wallet (send_payment (nl_wallet N) (nl_ledger N) (nl_libra N) E (nh_remote_addr hop) (nh_amount hop)
                       (hash_lock payment) (htlc_timeout payment))) (\<lambda>request.
           act_bind (forget (send_multi_hop_channel_request N (nh_remote_addr hop) \<lparr>mh_request = request, mh_hops = rest\<rparr>)) (\<lambda>_.
             act_update (\<lambda>n. n\<lparr>nd_invoices := add_previous_hop (hash_lock payment) peer (nd_invoices n)\<rparr>))))
      else act_lift (Inr ()))"

definition handle_multi_hop_receiver_channel ::
  "'m node_lib \<Rightarrow> (nat \<Rightarrow> wallet_env) \<Rightarrow> bytes \<Rightarrow> account_address \<Rightarrow> ('m node_state, unit) action" where
  "handle_multi_hop_receiver_channel N E d peer =
     act_bind (act_lift (try_bind (dec_multi_hop (nl_prost N) d) (multi_hop_from (nl_wire N)))) (\<lambda>m.
     act_bind (handle_channel_transaction_request N E peer (mh_request m)) (\<lambda>_.
       (case mh_hops m of
          [] \<Rightarrow> act_lift (Inr ())
        | hop # rest \<Rightarrow> forward_payment N (E 4) peer (channel_txn (rq_proposal (mh_request m))) hop rest)))"

definition handle_sender_channel ::
  "'m node_lib \<Rightarrow> (nat \<Rightarrow> wallet_env) \<Rightarrow> bytes \<Rightarrow> account_address \<Rightarrow> ('m node_state, unit) action" where
  "handle_sender_channel N E d peer =
     act_bind (act_lift (try_bind (dec_response (nl_prost N) d) (response_from (nl_wire N)))) (\<lambda>response.
     act_bind (on_wallet (verify_txn_response (nl_wallet N) (nl_ledger N) (nl_libra N) (E 0) peer response)) (\<lambda>_.
     act_bind (on_wallet (apply_txn (nl_wallet N) (nl_ledger N) (nl_libra N) (E 1) peer)) (\<lambda>_.
     act_bind (on_wallet (wallet_channel_sequence_number (nl_wallet N) (nl_libra N) peer)) (\<lambda>seq.
     act_bind (act_update (\<lambda>n. n\<lparr>nd_processor := node_send_response (response_id (nl_libra N) response) seq (nd_processor n)\<rparr>)) (\<lambda>_.
       report_stats peer (response_id (nl_libra N) response, 0, Payed))))))"

definition handle_error_message :: "'m node_lib \<Rightarrow> bytes \<Rightarrow> ('m node_state, unit) action" where
  "handle_error_message N d n =
     (case try_bind (dec_error (nl_prost N) d) (error_message_from (nl_wire N)) of
        Inl (Panic m) \<Rightarrow> (Inl (Panic m), n)
      | Inl _ \<Rightarrow> (Inr (), n)
      | Inr msg \<Rightarrow>
          (let (r, p) = unwrapped (node_future_error msg) (nd_processor n)
           in (r, n\<lparr>nd_processor := p\<rparr>)))"

definition handle_router_msg :: "'m node_lib \<Rightarrow> account_address \<Rightarrow> bytes \<Rightarrow> ('m node_state, unit) action" where
  "handle_router_msg N peer d =
     act_bind (act_lift (try_bind (dec_router (nl_prost N) d) (router_message_from (nl_wire N)))) (\<lambda>msg.
       act_update (\<lambda>n. n\<lparr>nd_router := nd_router n @ [(peer, msg)]\<rparr>))"

definition handle_network_msg ::
  "'m node_lib \<Rightarrow> (nat \<Rightarrow> wallet_env) \<Rightarrow> account_address \<Rightarrow> bytes \<Rightarrow> ('m node_state, unit) action" where
  "handle_network_msg N E peer d =
     act_bind (act_lift (parse_message_type d)) (\<lambda>t.
       (case t of
          TypeOpenNegotiate \<Rightarrow> act_lift (Inr ())
        | TypeRequest \<Rightarrow> unwrapped (handle_receiver_channel N E (drop 2 d) peer)
        | TypeResponse \<Rightarrow> unwrapped (handle_sender_channel N E (drop 2 d) peer)
        | TypeError \<Rightarrow> handle_error_message N (drop 2 d)
        | TypeMultiHop \<Rightarrow> unwrapped (handle_multi_hop_receiver_channel N E (drop 2 d) peer)
        | TypeRouter \<Rightarrow> unwrapped (handle_router_msg N peer (drop 2 d))))"

end
