(* ===== verification/Node_Commands.thy ===== *)
theory Node_Commands
  imports Node_Inner
begin

text \<open>
  The commands of the node's user (\<open>node/node_internal/src/node.rs\<close>, \<open>node_command.rs\<close>): the handlers of
  \<open>NodeMessage\<close>, the checks that \<open>Node\<close> makes before it sends one, and the recovery of pending requests
  at the start.
\<close>

section \<open>Payments\<close>

definition off_chain_pay :: "'m node_lib \<Rightarrow> wallet_env \<Rightarrow> account_address \<Rightarrow> u64 \<Rightarrow> ('m node_state, nat) action" where
  "off_chain_pay N E receiver amount =
     act_bind (on_wallet (wallet_transfer (nl_wallet N) (nl_ledger N) (nl_libra N) E receiver amount)) (\<lambda>request.
     act_bind (report_stats receiver (request_id (nl_libra N) request, amount, Paying)) (\<lambda>_.
       send_channel_request N receiver request))"

fun check_balance :: "balance_query_response list \<Rightarrow> u64 \<Rightarrow> bool" where
  "check_balance [] amount = True"
| "check_balance (r # rs) amount = (if local_balance r < amount then False else check_balance rs amount)"

definition balance_response_to_address :: "balance_query_response list \<Rightarrow> chan_error + account_address list" where
  "balance_response_to_address rs =
     (case rs of
        [] \<Rightarrow> Inl (Bail ''should have at least 1 hops'')
      | r # _ \<Rightarrow> Inr (local_addr r # map remote_addr rs))"

text \<open>The path starts with this node; the first hop gets the payment, the others are written into the
  request.\<close>

definition get_multi_hop_request ::
  "'m node_lib \<Rightarrow> wallet_env \<Rightarrow> account_address list \<Rightarrow> u64 \<Rightarrow> bytes \<Rightarrow> u64 \<Rightarrow>
     ('m node_state, multi_hop_request \<times> account_address) action" where
  "get_multi_hop_request N E vertexes amount lock timeout n =
     (case vertexes of
        first # receiver # others \<Rightarrow>
          if node_account n = first
          then act_bind (on_wallet (send_payment (nl_wallet N) (nl_ledger N) (nl_libra N) E receiver amount lock timeout)) (\<lambda>request.
                 act_lift (Inr (\<lparr>mh_request = request,
                   mh_hops = map (\<lambda>a. \<lparr>nh_remote_addr = a, nh_amount = amount\<rparr>) others\<rparr>, receiver))) n
          else (Inl (Bail ''can not gen multi hop request''), n)
      | _ \<Rightarrow> (Inl (Bail ''should have at least 2 hops''), n))"

definition sg_fail :: "sg_error_code \<Rightarrow> string \<Rightarrow> chan_error + 'a" where
  "sg_fail c m = Inl (BailSg \<lparr>error_code = c, sg_message = m\<rparr>)"

text \<open>\<open>path\<close> is the answer of the router. An error of the address list drops the responder.\<close>

definition off_chain_pay_htlc ::
  "'m node_lib \<Rightarrow> wallet_env \<Rightarrow> chan_error + balance_query_response list \<Rightarrow> account_address \<Rightarrow> u64 \<Rightarrow> bytes \<Rightarrow> u64 \<Rightarrow>
     ('m node_state, nat) action" where
  "off_chain_pay_htlc N E path receiver amount lock timeout =
     act_bind (report_stats receiver (sha3_256 (nl_invoice N) lock, amount, Paying)) (\<lambda>_.
       (case path of
          Inl _ \<Rightarrow> act_lift (sg_fail NOT_PATH ''could not find path'')
        | Inr v \<Rightarrow>
            if \<not> check_balance v amount then act_lift (sg_fail BALANCE_NOT_ENOUGH ''path balance is not enough'')
            else act_bind (unwrapped (act_lift (balance_response_to_address v))) (\<lambda>addresses.
                 act_bind (get_multi_hop_request N E addresses amount lock timeout) (\<lambda>(request, next_addr).
                   send_multi_hop_channel_request N next_addr request))))"

section \<open>Channels\<close>

text \<open>The results of these wallet calls are unwrapped.\<close>

definition node_open_channel :: "'m node_lib \<Rightarrow> wallet_env \<Rightarrow> account_address \<Rightarrow> u64 \<Rightarrow> u64 \<Rightarrow> ('m node_state, nat) action" where
  "node_open_channel N E receiver sender_amount receiver_amount =
     act_bind (unwrapped (on_wallet (wallet_open (nl_wallet N) (nl_ledger N) (nl_libra N) E receiver sender_amount receiver_amount)))
       (send_channel_request N receiver)"

definition node_deposit :: "'m node_lib \<Rightarrow> wallet_env \<Rightarrow> account_address \<Rightarrow> u64 \<Rightarrow> ('m node_state, nat) action" where
  "node_deposit N E receiver amount =
     act_bind (unwrapped (on_wallet (wallet_deposit (nl_wallet N) (nl_ledger N) (nl_libra N) E receiver amount)))
       (send_channel_request N receiver)"

definition node_withdraw :: "'m node_lib \<Rightarrow> wallet_env \<Rightarrow> account_address \<Rightarrow> u64 \<Rightarrow> ('m node_state, nat) action" where
  "node_withdraw N E receiver amount =
     act_bind (unwrapped (on_wallet (wallet_withdraw (nl_wallet N) (nl_ledger N) (nl_libra N) E receiver amount)))
       (send_channel_request N receiver)"

text \<open>Forced execution puts the transaction on the chain without the peer; the answer is the gas.\<close>

definition node_execute_script ::
  "'m node_lib \<Rightarrow> wallet_env \<Rightarrow> wallet_env \<Rightarrow> account_address \<Rightarrow> string \<Rightarrow> string \<Rightarrow> bool \<Rightarrow> transaction_argument list \<Rightarrow>
     ('m node_state, nat) action" where
  "node_execute_script N E F receiver package script force args =
     act_bind (on_wallet (wallet_execute_script (nl_wallet N) (nl_ledger N) (nl_libra N) E receiver package script args)) (\<lambda>request.
       if \<not> force then send_channel_request N receiver request
       else act_bind (on_wallet (force_travel_txn (nl_wallet N) (nl_ledger N) (nl_libra N) F receiver)) (\<lambda>gas n.
              (let p = nd_processor n; f = np_next p
               in (Inr f, n\<lparr>nd_processor := p\<lparr>np_inbox := np_inbox p @ [(f, Inr gas)], np_open := f # np_open p,
                                              np_next := Suc f\<rparr>\<rparr>))))"

text \<open>The user accepts or refuses a proposal. In every case a future is registered under its hash.\<close>

definition channel_transaction_proposal_cmd ::
  "'m node_lib \<Rightarrow> wallet_env \<Rightarrow> wallet_env \<Rightarrow> account_address \<Rightarrow> hash_value \<Rightarrow> bool \<Rightarrow> ('m node_state, nat) action" where
  "channel_transaction_proposal_cmd N E F peer h approve n =
     act_bind (\<lambda>n.
       (if approve
        then (case on_wallet (approve_txn (nl_wallet N) (nl_libra N) E peer h) n of
                (Inr response, n) \<Rightarrow> node_apply_txn N F peer h response n
              | (Inl (Panic m), n) \<Rightarrow> (Inl (Panic m), n)
              | (Inl e, n) \<Rightarrow> unwrapped (send_frame N peer (error_message_of e h)) n)
        else (case on_wallet (reject_txn (nl_wallet N) (nl_libra N) E peer h) n of
                (Inr _, n) \<Rightarrow> unwrapped (send_frame N peer (error_message_of
                   (BailSg \<lparr>error_code = REJECT, sg_message = ''transaction reject by participant''\<rparr>) h)) n
              | (Inl (Panic m), n) \<Rightarrow> (Inl (Panic m), n)
              | (Inl e, n) \<Rightarrow> unwrapped (send_frame N peer (error_message_of e h)) n)))
       (\<lambda>_. await_answer h) n"

section \<open>Recovery\<close>

text \<open>The recovery waits for a future while nothing but the timers runs: the loops that handle messages
  and commands are spawned after it. \<open>None\<close> is waiting for ever.\<close>

definition await_timer :: "nat \<Rightarrow> hash_value \<Rightarrow> 'm node_state \<Rightarrow> (sg_error + u64) option \<times> 'm node_state" where
  "await_timer f h n =
     (case node_poll f (nd_processor n) of
        Some r \<Rightarrow> (Some r, n)
      | None \<Rightarrow>
          if nd_timeout n = 0 then (None, n)
          else (let p = node_remove_future h (nd_processor n) in (node_poll f p, n\<lparr>nd_processor := p\<rparr>)))"

text \<open>The pending requests are sent again to the peers that are connected, one after the other.\<close>

fun init_channels ::
  "'m node_lib \<Rightarrow> (account_address \<Rightarrow> bool) \<Rightarrow> account_address list \<Rightarrow> 'm node_state \<Rightarrow> unit awaited \<times> 'm node_state" where
  "init_channels N online [] n = (Some (Inr ()), n)"
| "init_channels N online (peer # peers) n =
     (case on_wallet (get_pending_txn_request (nl_wallet N) peer) n of
        (Inl (Panic m), n) \<Rightarrow> (Some (Inl (Panic m)), n)
      | (Inl _, n) \<Rightarrow> init_channels N online peers n
      | (Inr None, n) \<Rightarrow> init_channels N online peers n
      | (Inr (Some request), n) \<Rightarrow>
          if \<not> online peer then init_channels N online peers n
          else (case send_channel_request N peer request n of
                  (Inl _, n) \<Rightarrow> init_channels N online peers n
                | (Inr f, n) \<Rightarrow>
                    (case await_timer f (request_id (nl_libra N) request) n of
                       (None, n) \<Rightarrow> (None, n)
                     | (Some (Inr _), n) \<Rightarrow> init_channels N online peers n
                     | (Some (Inl e), n) \<Rightarrow> (Some (Inl (BailSg e)), n))))"

definition node_init :: "'m node_lib \<Rightarrow> (account_address \<Rightarrow> bool) \<Rightarrow> 'm node_state \<Rightarrow> unit awaited \<times> 'm node_state" where
  "node_init N online n =
     (case on_wallet (wallet_send handle_get_all_channels) n of
        (Inl e, n) \<Rightarrow> (Some (Inl e), n)
      | (Inr peers, n) \<Rightarrow> init_channels N online peers n)"

text \<open>An error of the recovery is a panic of the caller, and the loops are not started.\<close>

definition start_server :: "'m node_lib \<Rightarrow> (account_address \<Rightarrow> bool) \<Rightarrow> 'm node_state \<Rightarrow> unit awaited \<times> 'm node_state" where
  "start_server N online n =
     (case node_init N online n of
        (Some (Inl e), n) \<Rightarrow> (Some (Inl (Panic ''init node error'')), n)
      | r \<Rightarrow> r)"

section \<open>The commands\<close>

datatype node_command =
    CmdExecute account_address string string bool "transaction_argument list"
  | CmdInstall script_package
  | CmdDeposit account_address u64
  | CmdOpenChannel account_address u64 u64
  | CmdWithdraw account_address u64
  | CmdChannelPay account_address u64
  | CmdChannelPayHTLC account_address u64 bytes u64
  | CmdChannelBalance account_address
  | CmdDeployModule
  | CmdChainBalance
  | CmdTxnBySn account_address u64
  | CmdSetTimeout u64
  | CmdProposal account_address hash_value bool

datatype node_response =
    RespFuture nat
  | RespDone
  | RespU64 u64
  | RespProof chain_txn
  | RespTxn signed_channel_transaction

definition responds :: "('a \<Rightarrow> node_response) \<Rightarrow> ('m node_state, 'a) action \<Rightarrow> ('m node_state, node_response) action" where
  "responds r f = act_bind f (\<lambda>a. act_lift (Inr (r a)))"

fun handle_node_msg ::
  "'m node_lib \<Rightarrow> (nat \<Rightarrow> wallet_env) \<Rightarrow> chan_error + balance_query_response list \<Rightarrow> node_command \<Rightarrow>
     ('m node_state, node_response) action" where
  "handle_node_msg N E path (CmdExecute a p s force args) =
     responds RespFuture (node_execute_script N (E 0) (E 1) a p s force args)"
| "handle_node_msg N E path (CmdInstall p) = responds (\<lambda>_. RespDone) (on_wallet (wallet_install_package p))"
| "handle_node_msg N E path (CmdDeposit a x) = responds RespFuture (node_deposit N (E 0) a x)"
| "handle_node_msg N E path (CmdOpenChannel a x y) = responds RespFuture (node_open_channel N (E 0) a x y)"
| "handle_node_msg N E path (CmdWithdraw a x) = responds RespFuture (node_withdraw N (E 0) a x)"
| "handle_node_msg N E path (CmdChannelPay a x) = responds RespFuture (off_chain_pay N (E 0) a x)"
| "handle_node_msg N E path (CmdChannelPayHTLC a x h t) = responds RespFuture (off_chain_pay_htlc N (E 0) path a x h t)"
| "handle_node_msg N E path (CmdChannelBalance a) = responds RespU64 (on_wallet (channel_balance (nl_wallet N) a))"
| "handle_node_msg N E path CmdDeployModule =
     responds RespProof (on_wallet (wallet_send (handle_deploy_module (nl_libra N) (we_env (E 0) 0))))"
| "handle_node_msg N E path CmdChainBalance =
     responds RespU64 (\<lambda>n. (wallet_balance (nl_wallet N) (nl_libra N) (we_env (E 0) 0) (nd_wallet n), n))"
| "handle_node_msg N E path (CmdTxnBySn a i) =
     responds RespTxn (on_wallet (wallet_txn_by_sequence_number (nl_wallet N) (nl_ledger N) (nl_libra N) (we_open_ok (E 0)) a i))"
| "handle_node_msg N E path (CmdSetTimeout t) = responds (\<lambda>_. RespDone) (act_update (\<lambda>n. n\<lparr>nd_timeout := t\<rparr>))"
| "handle_node_msg N E path (CmdProposal a h approve) =
     responds RespFuture (channel_transaction_proposal_cmd N (E 0) (E 1) a h approve)"

section \<open>Checks of the front end\<close>

definition DEFAULT_MAX_DEPOSIT :: u64 where
  "DEFAULT_MAX_DEPOSIT = 10000000"

definition open_channel_async :: "bool \<Rightarrow> account_address \<Rightarrow> u64 \<Rightarrow> u64 \<Rightarrow> chan_error + node_command" where
  "open_channel_async is_connected receiver sender_amount receiver_amount =
     (if DEFAULT_MAX_DEPOSIT < receiver_amount then Inl (Bail ''deposit coin amount too big'')
      else if sender_amount < receiver_amount then Inl (Bail ''sender amount should bigger than receiver amount.'')
      else if \<not> is_connected then Inl (Bail ''could not connect to receiver'')
      else Inr (CmdOpenChannel receiver sender_amount receiver_amount))"

definition deposit_async :: "bool \<Rightarrow> account_address \<Rightarrow> u64 \<Rightarrow> chan_error + node_command" where
  "deposit_async is_connected receiver amount =
     (if \<not> is_connected then Inl (Bail ''could not connect to receiver'') else Inr (CmdDeposit receiver amount))"

definition withdraw_async :: "bool \<Rightarrow> account_address \<Rightarrow> u64 \<Rightarrow> chan_error + node_command" where
  "withdraw_async is_connected receiver amount =
     (if \<not> is_connected then Inl (Bail ''could not connect to receiver'') else Inr (CmdWithdraw receiver amount))"

definition off_chain_pay_async :: "bool \<Rightarrow> account_address \<Rightarrow> u64 \<Rightarrow> chan_error + node_command" where
  "off_chain_pay_async is_connected receiver amount =
     (if \<not> is_connected then Inl (Bail ''could not connect to receiver'') else Inr (CmdChannelPay receiver amount))"

definition off_chain_pay_htlc_async :: "bool \<Rightarrow> account_address \<Rightarrow> u64 \<Rightarrow> bytes \<Rightarrow> u64 \<Rightarrow> chan_error + node_command" where
  "off_chain_pay_htlc_async is_connected receiver amount lock timeout =
     (if \<not> is_connected then Inl (Bail ''could not connect to receiver'')
      else Inr (CmdChannelPayHTLC receiver amount lock timeout))"

definition off_chain_pay_htlc_async_string ::
  "wire_lib \<Rightarrow> invoice_lib \<Rightarrow> (account_address \<Rightarrow> bool) \<Rightarrow> string \<Rightarrow> chan_error + node_command" where
  "off_chain_pay_htlc_async_string W I online s =
     try_bind (invoice_from_string W I s) (\<lambda>v.
       off_chain_pay_htlc_async (online (inv_receiver v)) (inv_receiver v) (inv_amount v) (r_hash v) 20000)"

definition add_invoice :: "'m node_lib \<Rightarrow> u64 \<Rightarrow> u64 \<Rightarrow> 'm node_state \<Rightarrow> invoice \<times> 'm node_state" where
  "add_invoice N now amount n =
     (let (v, m) = new_invoice (nl_invoice N) now amount (node_account n) (nd_invoices n)
      in (v, n\<lparr>nd_invoices := m\<rparr>))"

text \<open>The \<open>oneshot\<close> variants wait for the future; \<open>p\<close> is the state of the answers when they look.\<close>

definition oneshot_answer :: "chan_error + node_response \<Rightarrow> node_processor \<Rightarrow> u64 awaited" where
  "oneshot_answer r p =
     (case r of
        Inl e \<Rightarrow> Some (Inl e)
      | Inr (RespFuture f) \<Rightarrow>
          (case node_poll f p of
             None \<Rightarrow> None
           | Some (Inr v) \<Rightarrow> Some (Inr v)
           | Some (Inl e) \<Rightarrow> Some (Inl (BailSg e)))
      | Inr _ \<Rightarrow> Some (Inl (Bail ''canceled'')))"

section \<open>Commands and their answers\<close>

text \<open>A command goes through the command channel; a task that panics drops its responder.\<close>

definition run_command ::
  "'m node_lib \<Rightarrow> (nat \<Rightarrow> wallet_env) \<Rightarrow> chan_error + balance_query_response list \<Rightarrow> chan_error + node_command \<Rightarrow>
     ('m node_state, node_response) action" where
  "run_command N E path cmd = act_bind (act_lift cmd) (\<lambda>c n.
     (case handle_node_msg N E path c n of
        (Inl (Panic m), n) \<Rightarrow> (Inl (Bail ''oneshot canceled''), n)
      | r \<Rightarrow> r))"

text \<open>\<open>later\<close> is the state of the answers when the future is looked at.\<close>

definition run_oneshot ::
  "'m node_lib \<Rightarrow> (nat \<Rightarrow> wallet_env) \<Rightarrow> chan_error + node_command \<Rightarrow> ('m node_state \<Rightarrow> node_processor) \<Rightarrow> 'm node_state \<Rightarrow>
     u64 awaited \<times> 'm node_state" where
  "run_oneshot N E cmd later n = (let (r, n) = run_command N E (Inr []) cmd n in (oneshot_answer r (later n), n))"

definition open_channel_oneshot where
  "open_channel_oneshot N E is_connected receiver sender_amount receiver_amount =
     run_oneshot N E (open_channel_async is_connected receiver sender_amount receiver_amount)"

definition deposit_oneshot where
  "deposit_oneshot N E is_connected receiver amount = run_oneshot N E (deposit_async is_connected receiver amount)"

definition withdraw_oneshot where
  "withdraw_oneshot N E is_connected receiver amount = run_oneshot N E (withdraw_async is_connected receiver amount)"

definition off_chain_pay_oneshot where
  "off_chain_pay_oneshot N E is_connected receiver amount = run_oneshot N E (off_chain_pay_async is_connected receiver amount)"

definition execute_script_oneshot where
  "execute_script_oneshot N E receiver package script force args = run_oneshot N E (Inr (CmdExecute receiver package script force args))"

definition get_channel_transaction_proposal_async ::
  "'m node_lib \<Rightarrow> account_address \<Rightarrow> ('m node_state, channel_transaction option) action" where
  "get_channel_transaction_proposal_async N peer =
     act_bind (on_wallet (get_waiting_proposal (nl_wallet N) peer)) (\<lambda>p. act_lift (Inr (map_option channel_txn p)))"

definition channel_transaction_proposal_async ::
  "'m node_lib \<Rightarrow> (nat \<Rightarrow> wallet_env) \<Rightarrow> account_address \<Rightarrow> hash_value \<Rightarrow> bool \<Rightarrow> ('m node_state, unit) action" where
  "channel_transaction_proposal_async N E peer h approve =
     act_bind (run_command N E (Inr []) (Inr (CmdProposal peer h approve))) (\<lambda>_. act_lift (Inr ()))"

section \<open>The loops\<close>

text \<open>The events of the network loop in the order in which it takes them. A message is handled by a task
  of its own, whose panic does not reach the loop; a message of the router is sent by the loop
  itself.\<close>

datatype network_event =
    NetMessage "nat \<Rightarrow> wallet_env" account_address bytes
  | NetRouterOut account_address router_network_message
  | NetShutdown

fun start_network :: "'m node_lib \<Rightarrow> network_event list \<Rightarrow> ('m node_state, bool) action" where
  "start_network N [] n = (Inr True, n)"
| "start_network N (NetMessage E peer d # es) n = start_network N es (snd (handle_network_msg N E peer d n))"
| "start_network N (NetRouterOut peer m # es) n =
     (case unwrapped (send_router_message N peer m) n of
        (Inl e, n) \<Rightarrow> (Inl e, n)
      | (Inr _, n) \<Rightarrow> start_network N es n)"
| "start_network N (NetShutdown # es) n = (Inr False, n)"

datatype command_event =
    CmdMessage "nat \<Rightarrow> wallet_env" "chan_error + balance_query_response list" node_command
  | CmdShutdown

text \<open>The wallet is stopped with the command loop.\<close>

fun start_command :: "'m node_lib \<Rightarrow> command_event list \<Rightarrow> ('m node_state, bool) action" where
  "start_command N [] n = (Inr True, n)"
| "start_command N (CmdMessage E path c # es) n = start_command N es (snd (handle_node_msg N E path c n))"
| "start_command N (CmdShutdown # es) n = (Inr False, snd (on_wallet wallet_stop n))"

end
