(* ===== verification/Node_Links.thy ===== *)
theory Node_Links
  imports Node_Commands Channel_Rounds
begin

text \<open>
  Wallets and nodes that share a channel: what the operations of \<open>Wallet_Handle\<close> and the handlers of
  \<open>Node_Inner\<close> do when the channel runs, in terms of the handlers of the channel actor.
\<close>

section \<open>A channel of a wallet\<close>

abbreviation channel_with :: "wallet_lib \<Rightarrow> account_address \<Rightarrow> 'm wallet \<Rightarrow> account_address" where
  "channel_with X peer w \<equiv> fst (generate_channel_address X peer (wl_account w))"

definition serves :: "wallet_lib \<Rightarrow> account_address \<Rightarrow> 'm channel \<Rightarrow> 'm wallet \<Rightarrow> bool" where
  "serves X peer c w \<longleftrightarrow> \<not> wl_stopping w \<and> \<not> ch_stopping c \<and> map_of (wl_channels w) (channel_with X peer w) = Some c"

definition set_channel :: "wallet_lib \<Rightarrow> account_address \<Rightarrow> 'm channel \<Rightarrow> 'm wallet \<Rightarrow> 'm wallet" where
  "set_channel X peer c w = put_channel (channel_with X peer w) c w"

lemma generate_channel_address_sym: "generate_channel_address X p q = generate_channel_address X q p"
  by (auto simp: generate_channel_address_def)

lemma put_channel_simps [simp]:
  "wl_account (put_channel a c w) = wl_account w" "wl_stopping (put_channel a c w) = wl_stopping w"
  "map_of (wl_channels (put_channel a c w)) b = (if b = a then Some c else map_of (wl_channels w) b)"
  "put_channel a c (put_channel a d w) = put_channel a c w"
  by (simp_all add: put_channel_def map_of_update)

lemma update_same: "map_of m k = Some v \<Longrightarrow> AList.update k v m = m"
  by (induction m) (auto split: if_splits)

lemma set_channel_simps [simp]:
  "wl_account (set_channel X peer c w) = wl_account w" "wl_stopping (set_channel X peer c w) = wl_stopping w"
  "set_channel X peer c (set_channel X peer d w) = set_channel X peer c w"
  by (simp_all add: set_channel_def)

lemma set_channel_same: "serves X peer c w \<Longrightarrow> set_channel X peer c w = w"
  by (simp add: serves_def set_channel_def put_channel_def update_same)

lemma serves_set: "serves X peer c w \<Longrightarrow> \<not> ch_stopping d \<Longrightarrow> serves X peer d (set_channel X peer d w)"
  by (simp add: serves_def set_channel_def)

lemma send_served:
  assumes "serves X peer c w" "f c = (Inr r, d)"
  shows "channel_send (channel_with X peer w) f w = (Inr r, set_channel X peer d w)"
  using assms by (simp add: serves_def channel_send_def set_channel_def)

lemma get_served: "serves X peer c w \<Longrightarrow> wallet_send (wallet_get_channel (channel_with X peer w)) w = (Inr (), w)"
  by (auto simp: serves_def wallet_send_def wallet_get_channel_def)

section \<open>Wallet operations on it\<close>

lemma execute_served:
  assumes "serves X peer c w" "\<not> op_is_open op" "handle_execute L (we_env E 1) op args c = (Inr (proposal, s, out), d)"
  shows "execute_async X A L E peer op args w =
    (Inr \<lparr>rq_proposal = proposal, rq_sigs = s, rq_travel = is_travel_txn out\<rparr>, set_channel X peer d w)"
proof -
  have "channel_send (channel_with X peer w) (handle_execute L (we_env E 1) op args) w = (Inr (proposal, s, out), set_channel X peer d w)"
    by (rule send_served [OF assms(1)], rule assms(3))
  with assms(2) get_served [OF assms(1)] show ?thesis
    by (simp add: execute_async_def case_prod_beta reach_channel_def act_bind_def act_lift_def)
qed

lemma verify_served:
  assumes "serves X peer c w" "ct_proposer (channel_txn (rq_proposal r)) = peer"
    and "ct_channel_address (channel_txn (rq_proposal r)) = channel_with X peer w" "\<not> op_is_open (ct_operator (channel_txn (rq_proposal r)))"
    and "handle_collect A L (we_env E 1) (rq_proposal r) (rq_sigs r) c = (Inr s, d)"
  shows "verify_txn X A L E peer r w =
    (Inr (map_option (\<lambda>s. \<lparr>rs_proposal = rq_proposal r, rs_sigs = s\<rparr>) s), set_channel X peer d w)"
proof -
  have "channel_send (channel_with X peer w) (handle_collect A L (we_env E 1) (rq_proposal r) (rq_sigs r)) w = (Inr s, set_channel X peer d w)"
    by (rule send_served [OF assms(1)], rule assms(5))
  with assms(2,3,4) get_served [OF assms(1)] show ?thesis
    by (simp add: verify_txn_def Let_def case_prod_beta reach_channel_def act_bind_def act_lift_def)
qed

lemma approve_served:
  assumes "serves X peer c w" "ch_pending c = Some p" "handle_grant L (we_env E 0) h c = (Inr s, d)"
  shows "approve_txn X L E peer h w = (Inr \<lparr>rs_proposal = pt_proposal p, rs_sigs = s\<rparr>, set_channel X peer d w)"
proof -
  have "channel_send (channel_with X peer w) handle_get_pending w = (Inr (Some p), w)"
    using send_served [OF assms(1), of handle_get_pending "Some p" c] assms(2) set_channel_same [OF assms(1)]
    by (simp add: handle_get_pending_def)
  moreover have "channel_send (channel_with X peer w) (handle_grant L (we_env E 0) h) w = (Inr s, set_channel X peer d w)"
    by (rule send_served [OF assms(1)], rule assms(3))
  ultimately show ?thesis
    using get_served [OF assms(1)]
    by (simp add: approve_txn_def grant_txn_request_def case_prod_beta act_bind_def act_lift_def ok_or_def)
qed

lemma apply_served:
  assumes "serves X peer c w" "handle_apply_pending A L (we_env E 0) c = (Inr None, d)"
  shows "apply_txn X A L E peer w = (Inr 0, set_channel X peer d w)"
proof -
  have "channel_send (channel_with X peer w) (handle_apply_pending A L (we_env E 0)) w = (Inr None, set_channel X peer d w)"
    by (rule send_served [OF assms(1)], rule assms(2))
  with get_served [OF assms(1)] show ?thesis
    by (simp add: apply_txn_def case_prod_beta act_bind_def act_lift_def)
qed

lemma response_served:
  assumes "serves X peer c w" "handle_collect A L (we_env E 0) (rs_proposal r) (rs_sigs r) c = (Inr s, d)"
  shows "verify_txn_response X A L E peer r w = (Inr (), set_channel X peer d w)"
proof -
  have "channel_send (channel_with X peer w) (handle_collect A L (we_env E 0) (rs_proposal r) (rs_sigs r)) w = (Inr s, set_channel X peer d w)"
    by (rule send_served [OF assms(1)], rule assms(2))
  with get_served [OF assms(1)] show ?thesis
    by (simp add: verify_txn_response_def case_prod_beta act_bind_def act_lift_def)
qed

text \<open>The sequence number that the wallet reads is that of the state machine.\<close>

lemma sequence_number_served:
  assumes "serves X peer c w" "channel_address (ch_stm c) = channel_with X peer w" "channel_sequence_number L (ch_stm c) = Inr v"
  shows "wallet_channel_sequence_number X L peer w = (Inr v, w)"
proof -
  let ?a = "channel_with X peer w" and ?m = "ch_stm c"
  obtain b where b: "access_local (witness_write_set (stm_witness ?m)) (stm_channel_state ?m)
      \<lparr>ap_address = ?a, ap_path = mirror_resource_path L ?a\<rparr> = Inr b"
    "(case b of None \<Rightarrow> v = 0 | Some d \<Rightarrow> read_mirror L d = Some v)"
    using assms(2,3) by (auto simp: channel_sequence_number_def get_local_def try_bind_Inr_iff split: sum.splits option.splits)
  have "channel_send ?a (handle_accessing_resource \<lparr>ap_address = ?a, ap_path = mirror_resource_path L ?a\<rparr>) w = (Inr b, w)"
    using send_served [OF assms(1), of "handle_accessing_resource \<lparr>ap_address = ?a, ap_path = mirror_resource_path L ?a\<rparr>" b c] b(1)
      set_channel_same [OF assms(1)] by (simp add: handle_accessing_resource_def act_lift_def)
  with get_served [OF assms(1)] b(2) show ?thesis
    by (auto simp: wallet_channel_sequence_number_def wallet_channel_resource_def case_prod_beta act_bind_def act_lift_def ok_or_def
        split: option.split)
qed

section \<open>A channel of a node\<close>

definition hosts :: "'m node_lib \<Rightarrow> account_address \<Rightarrow> 'm channel \<Rightarrow> 'm node_state \<Rightarrow> bool" where
  "hosts N peer c n \<longleftrightarrow> serves (nl_wallet N) peer c (nd_wallet n) \<and> nd_net_open n \<and>
     account_address (ch_stm c) = node_account n \<and> channel_address (ch_stm c) = channel_with (nl_wallet N) peer (nd_wallet n)"

definition host :: "'m node_lib \<Rightarrow> account_address \<Rightarrow> 'm channel \<Rightarrow> 'm node_state \<Rightarrow> 'm node_state" where
  "host N peer c n = n\<lparr>nd_wallet := set_channel (nl_wallet N) peer c (nd_wallet n)\<rparr>"

lemma host_simps [simp]:
  "node_account (host N peer c n) = node_account n" "nd_net_open (host N peer c n) = nd_net_open n"
  "nd_sent (host N peer c n) = nd_sent n" "nd_processor (host N peer c n) = nd_processor n"
  "nd_auto_approve (host N peer c n) = nd_auto_approve n" "nd_invoices (host N peer c n) = nd_invoices n"
  "nd_wallet (host N peer c n) = set_channel (nl_wallet N) peer c (nd_wallet n)"
  "host N peer c (host N peer d n) = host N peer c n"
  by (simp_all add: host_def node_account_def)

lemma hosts_host:
  assumes "hosts N peer c n" "\<not> ch_stopping d" "account_address (ch_stm d) = account_address (ch_stm c)"
    "channel_address (ch_stm d) = channel_address (ch_stm c)"
  shows "hosts N peer d (host N peer d n)"
  using assms serves_set [of "nl_wallet N" peer c "nd_wallet n" d] by (simp add: hosts_def)

lemma on_wallet_served: "f (nd_wallet n) = (r, set_channel (nl_wallet N) peer c (nd_wallet n)) \<Longrightarrow> on_wallet f n = (r, host N peer c n)"
  by (simp add: on_wallet_def host_def)

lemma hosts_serves: "hosts N peer c n \<Longrightarrow> serves (nl_wallet N) peer c (nd_wallet n)"
  by (simp add: hosts_def)

section \<open>Frames\<close>

text \<open>A message whose values its Rust type allows, and which prost decodes from what it encoded, arrives
  as it was sent.\<close>

definition faithful :: "'m node_lib \<Rightarrow> node_message \<Rightarrow> bool" where
  "faithful N m \<longleftrightarrow> wire_ok (nl_wire N) \<and> valid_message (nl_wire N) m \<and> prost_ok (nl_prost N) (nl_wire N) m"

abbreviation frame :: "'m node_lib \<Rightarrow> node_message \<Rightarrow> bytes" where
  "frame N m \<equiv> encode_frame (nl_prost N) (nl_wire N) m"

lemma request_frame:
  assumes "faithful N (NodeRequest r)"
  shows "handle_network_msg N E peer (frame N (NodeRequest r)) = unwrapped (handle_channel_transaction_request N E peer r)"
  using assms
  by (simp add: faithful_def handle_network_msg_def handle_receiver_channel_def parse_added_type drop_added_type request_roundtrip
      fun_eq_iff unwrapped_def)

lemma response_frame:
  assumes "faithful N (NodeResponse r)"
  shows "handle_network_msg N E peer (frame N (NodeResponse r)) = unwrapped
    (act_bind (on_wallet (verify_txn_response (nl_wallet N) (nl_ledger N) (nl_libra N) (E 0) peer r)) (\<lambda>_.
     act_bind (on_wallet (apply_txn (nl_wallet N) (nl_ledger N) (nl_libra N) (E 1) peer)) (\<lambda>_.
     act_bind (on_wallet (wallet_channel_sequence_number (nl_wallet N) (nl_libra N) peer)) (\<lambda>seq.
     act_bind (act_update (\<lambda>n. n\<lparr>nd_processor := node_send_response (response_id (nl_libra N) r) seq (nd_processor n)\<rparr>)) (\<lambda>_.
       report_stats peer (response_id (nl_libra N) r, 0, Payed))))))"
  using assms
  by (simp add: faithful_def handle_network_msg_def handle_sender_channel_def parse_added_type drop_added_type response_roundtrip
      fun_eq_iff unwrapped_def)

lemma multi_hop_frame:
  assumes "faithful N (NodeMultiHop m)"
  shows "handle_network_msg N E peer (frame N (NodeMultiHop m)) = unwrapped
    (act_bind (handle_channel_transaction_request N E peer (mh_request m)) (\<lambda>_.
       (case mh_hops m of
          [] \<Rightarrow> act_lift (Inr ())
        | hop # rest \<Rightarrow> forward_payment N (E 4) peer (channel_txn (rq_proposal (mh_request m))) hop rest)))"
  using assms
  by (simp add: faithful_def handle_network_msg_def handle_multi_hop_receiver_channel_def parse_added_type drop_added_type multi_hop_roundtrip
      fun_eq_iff unwrapped_def)

lemma unwrapped_Inr: "f s = (Inr a, t) \<Longrightarrow> unwrapped f s = (Inr a, t)"
  by (simp add: unwrapped_def)

section \<open>Answering a request\<close>

definition put_frame :: "account_address \<Rightarrow> bytes \<Rightarrow> 'm node_state \<Rightarrow> 'm node_state" where
  "put_frame peer d n = n\<lparr>nd_sent := nd_sent n @ [(peer, d)]\<rparr>"

lemma send_open: "nd_net_open n \<Longrightarrow> send_frame N peer m n = (Inr (), put_frame peer (frame N m) n)"
  by (simp add: send_frame_def put_frame_def)

lemma put_frame_simps [simp]:
  "nd_wallet (put_frame peer d n) = nd_wallet n" "nd_net_open (put_frame peer d n) = nd_net_open n"
  "nd_processor (put_frame peer d n) = nd_processor n" "nd_invoices (put_frame peer d n) = nd_invoices n"
  "nd_sent (put_frame peer d n) = nd_sent n @ [(peer, d)]" "node_account (put_frame peer d n) = node_account n"
  "nd_auto_approve (put_frame peer d n) = nd_auto_approve n"
  "host N peer' c (put_frame peer d n) = put_frame peer d (host N peer' c n)"
  by (simp_all add: put_frame_def host_def node_account_def)

lemma hosts_put_frame [simp]: "hosts N peer c (put_frame a d n) = hosts N peer c n"
  by (simp add: hosts_def)

text \<open>The handler of a request, on a node that approves by itself: the answer that the channel gives is
  sent and applied, and then the payment is settled.\<close>

lemma request_answered:
  assumes h: "hosts N peer c n" "nd_auto_approve n"
    and r: "ct_proposer (channel_txn (rq_proposal r)) = peer" "ct_channel_address (channel_txn (rq_proposal r)) = channel_address (ch_stm c)"
      "\<not> op_is_open (ct_operator (channel_txn (rq_proposal r)))"
    and ans: "answer_proposal (nl_ledger N) (nl_libra N) (we_env (E 0) 1) (we_env (E 1) 0) (rq_proposal r) (rq_sigs r) c = (Inr s, d)"
    and same: "\<And>c'. handle_collect (nl_ledger N) (nl_libra N) (we_env (E 0) 1) (rq_proposal r) (rq_sigs r) c = (Inr None, c') \<Longrightarrow>
      \<not> ch_stopping c' \<and> (\<exists>p. ch_pending c' = Some p \<and> pt_proposal p = rq_proposal r)"
    and app: "handle_apply_pending (nl_ledger N) (nl_libra N) (we_env (E 2) 0) d = (Inr None, d')" and run: "\<not> ch_stopping d"
  shows "handle_channel_transaction_request N E peer r n =
    settle_htlc N (E 3) peer (channel_txn (rq_proposal r))
      (put_frame peer (frame N (NodeResponse \<lparr>rs_proposal = rq_proposal r, rs_sigs = s\<rparr>)) (host N peer d' n))"
proof -
  let ?X = "nl_wallet N" and ?A = "nl_ledger N" and ?L = "nl_libra N"
  let ?resp = "\<lparr>rs_proposal = rq_proposal r, rs_sigs = s\<rparr>" and ?h = "request_id (nl_libra N) r"
  have sv: "serves ?X peer c (nd_wallet n)" and net: "nd_net_open n"
    and ca: "ct_channel_address (channel_txn (rq_proposal r)) = channel_with ?X peer (nd_wallet n)"
    using h(1) r(2) by (simp_all add: hosts_def)
  have applied: "node_apply_txn N (E 2) peer ?h ?resp (host N peer d n) =
      (Inr (), put_frame peer (frame N (NodeResponse ?resp)) (host N peer d' n))"
  proof -
    have "apply_txn ?X ?A ?L (E 2) peer (nd_wallet (host N peer d n)) = (Inr 0, set_channel ?X peer d' (nd_wallet (host N peer d n)))"
      by (rule apply_served [OF _ app]) (simp add: serves_set [OF sv run])
    then have "on_wallet (apply_txn ?X ?A ?L (E 2) peer) (put_frame peer (frame N (NodeResponse ?resp)) (host N peer d n)) =
        (Inr 0, host N peer d' (put_frame peer (frame N (NodeResponse ?resp)) (host N peer d n)))"
      by (intro on_wallet_served) simp
    with net show ?thesis
      by (simp add: node_apply_txn_def act_bind_def send_open unwrapped_def)
  qed
  obtain o1 c' where col: "handle_collect ?A ?L (we_env (E 0) 1) (rq_proposal r) (rq_sigs r) c = (Inr o1, c')"
    and rest: "(case o1 of Some s' \<Rightarrow> act_lift (Inr s') | None \<Rightarrow> handle_grant ?L (we_env (E 1) 0) ?h) c' = (Inr s, d)"
    using ans unfolding answer_proposal_def act_bind_Inr_iff request_id_def by blast
  have ver: "on_wallet (verify_txn ?X ?A ?L (E 0) peer r) n =
      (Inr (map_option (\<lambda>s. \<lparr>rs_proposal = rq_proposal r, rs_sigs = s\<rparr>) o1), host N peer c' n)"
    by (rule on_wallet_served) (rule verify_served [OF sv r(1) ca r(3) col])
  show ?thesis
  proof (cases o1)
    case (Some s')
    with rest have "s' = s" "c' = d" by (simp_all add: act_lift_def)
    with ver Some applied show ?thesis by (simp add: handle_channel_transaction_request_def Let_def act_bind_def)
  next
    case None
    then obtain p where p: "\<not> ch_stopping c'" "ch_pending c' = Some p" "pt_proposal p = rq_proposal r"
      using same col by blast
    have "on_wallet (approve_txn ?X ?L (E 1) peer ?h) (host N peer c' n) = (Inr ?resp, host N peer d (host N peer c' n))"
      by (rule on_wallet_served)
         (use approve_served [of ?X peer c' "nd_wallet (host N peer c' n)" p ?L "E 1" ?h s d] rest None p serves_set [OF sv p(1)]
          in \<open>simp\<close>)
    with ver None applied h(2) show ?thesis
      by (simp add: handle_channel_transaction_request_def Let_def act_bind_def unwrapped_def)
  qed
qed

end
