(* ===== verification/Node_Payments.thy ===== *)
theory Node_Payments
  imports Node_Links
begin

text \<open>
  Payments between nodes: a payment to a neighbour from the command to its answer, and what the nodes on
  the way do with a payment over several hops.
\<close>

section \<open>Handlers of the channel\<close>

lemma signature_keeps_proposal:
  assumes "handle_proposal_signature L m p i s = Inr q"
  shows "pt_proposal q = pt_proposal p"
  using assms
  by (auto simp: handle_proposal_signature_def try_bind_Inr_iff Let_def try_reach_consensus_eq add_signature_def
      split: if_splits proposal_lifecycle.splits)

lemma new_keeps_proposal: "handle_new_proposal L chain m None q = Inr (Some p) \<Longrightarrow> pt_proposal p = q"
  by (auto simp: handle_new_proposal_def try_bind_Inr_iff pending_new_def split: if_splits)

lemma execute_fields:
  assumes "handle_execute L E op args c = (Inr (proposal, s, out), c')" "ch_pending c = None"
  shows "ct_proposer (channel_txn proposal) = account_address (ch_stm c)"
    "ct_channel_address (channel_txn proposal) = channel_address (ch_stm c)"
    "ct_operator (channel_txn proposal) = op" "ct_args (channel_txn proposal) = args"
proof -
  let ?m = "ch_stm c"
  obtain q p p' where g: "generate_proposal L (env_chain E) (env_expiration E) ?m op args = Inr q"
    and np: "handle_new_proposal L (env_chain E) ?m None q = Inr (Some p)"
    and sig: "handle_proposal_signature L ?m p (hash_channel_txn L (channel_txn (pt_proposal p))) s = Inr p'" "pt_proposal p' = proposal"
    using assms by (auto simp: handle_execute_def Let_def try_bind_Inr_iff act_bind_Inr_iff act_lift_def split: sum.splits)
  have "proposal = q" using new_keeps_proposal [OF np] signature_keeps_proposal [OF sig(1)] sig(2) by simp
  with g show "ct_proposer (channel_txn proposal) = account_address (ch_stm c)"
    "ct_channel_address (channel_txn proposal) = channel_address (ch_stm c)"
    "ct_operator (channel_txn proposal) = op" "ct_args (channel_txn proposal) = args"
    by (auto simp: generate_proposal_def try_bind_Inr_iff Let_def)
qed

lemma collect_pending:
  assumes "ch_pending c = None" "handle_collect A L E proposal s c = (Inr None, c')"
  shows "ch_stopping c' = ch_stopping c \<and> (\<exists>p. ch_pending c' = Some p \<and> pt_proposal p = proposal)"
proof -
  obtain p where p: "collect_signature L (env_chain E) (ch_stm c) None proposal s = Inr p" "save_pending_txn E p c = (Inr (), c')"
    using assms by (auto simp: handle_collect_def act_bind_Inr_iff act_lift_def split: option.splits applied_channel_txn.splits if_splits sum.splits)
  have "pt_proposal p = proposal"
    using p(1) by (auto simp: collect_signature_def try_bind_Inr_iff split: if_splits
        dest!: new_keeps_proposal signature_keeps_proposal)
  moreover have "ch_pending c' = Some p \<and> ch_stopping c' = ch_stopping c"
    using p(2) assms(1) by (auto simp: save_pending_txn_def store_save_pending_txn_def try_bind_Inr_iff split: if_splits sum.splits)
  ultimately show ?thesis by simp
qed

text \<open>Applying off the chain leaves the actor running and its addresses as they are.\<close>

lemma apply_pending_frame:
  assumes "handle_apply_pending A L E c = (Inr None, c')"
  shows "ch_stopping c' = ch_stopping c" "account_address (ch_stm c') = account_address (ch_stm c)"
    "channel_address (ch_stm c') = channel_address (ch_stm c)"
proof -
  obtain p where "channel_apply A L E p c = (Inr (), c')"
    using assms
    by (auto simp: handle_apply_pending_def act_bind_Inr_iff act_lift_def send_travel_def Let_def
        split: sum.splits proposal_lifecycle.splits)
  then show "ch_stopping c' = ch_stopping c" "account_address (ch_stm c') = account_address (ch_stm c)"
    "channel_address (ch_stm c') = channel_address (ch_stm c)"
    by (auto simp: channel_apply_def apply_and_advance_def advance_state_def split: sum.splits prod.splits)
qed

text \<open>The VM writes the next sequence number of the channel into the mirror resource.\<close>

definition counts_on :: "libra \<Rightarrow> channel_stm \<Rightarrow> transaction_output \<Rightarrow> u64 \<Rightarrow> bool" where
  "counts_on L m out n \<longleftrightarrow> (\<exists>v. map_of (out_write_set out)
     \<lparr>ap_address = channel_address m, ap_path = mirror_resource_path L (channel_address m)\<rparr> = Some (WriteValue v) \<and> read_mirror L v = Some n)"

lemma advanced_seq:
  assumes "counts_on L m out n" "applied_seq pseq (tc_txn (round_txn proposal out sigs)) = Inr k"
  shows "channel_sequence_number L (advanced pseq (round_txn proposal out sigs) keys m) = Inr n"
  using assms
  by (auto simp: counts_on_def channel_sequence_number_def get_local_def advanced_def advance_state_def generate_witness_def
      round_txn_def access_local_def)

section \<open>Two nodes with a channel\<close>

text \<open>The nodes have the two ends of a channel, whose histories are the same list and of which nothing is
  pending.\<close>

definition linked ::
  "'m node_lib \<Rightarrow> (hash_value list \<Rightarrow> hash_value) \<Rightarrow> ((u64 \<Rightarrow> hash_value option) \<Rightarrow> hash_value list \<Rightarrow> bool) \<Rightarrow>
     ('m \<Rightarrow> hash_value list \<Rightarrow> bool) \<Rightarrow> transaction_to_commit list \<Rightarrow> 'm channel \<Rightarrow> 'm channel \<Rightarrow> 'm node_state \<Rightarrow> 'm node_state \<Rightarrow> bool" where
  "linked N rooth acc_rep mem_rep txs ca cb na nb \<longleftrightarrow>
     synced (nl_ledger N) (nl_libra N) rooth acc_rep mem_rep txs ca cb \<and>
     hosts N (node_account nb) ca na \<and> hosts N (node_account na) cb nb \<and>
     channel_sequence_number (nl_libra N) (ch_stm ca) = Inr (of_nat (length txs))"

text \<open>Disks that take every write.\<close>

definition disks_ok :: "wallet_env \<Rightarrow> bool" where
  "disks_ok E \<longleftrightarrow> (\<forall>i. disk_ok (we_env E i))"

text \<open>The state of the sender after the answer: the new channel, the answered future, and the report.\<close>

definition answered_by :: "account_address \<Rightarrow> hash_value \<Rightarrow> u64 \<Rightarrow> 'm node_state \<Rightarrow> 'm node_state" where
  "answered_by peer h seq n = n\<lparr>nd_processor := node_send_response h seq (nd_processor n),
     nd_stats := nd_stats n @ [((node_account n, peer), h, 0, Payed)]\<rparr>"

lemma answer_received:
  assumes "faithful N (NodeResponse r)" "hosts N peer c n"
    and "handle_collect (nl_ledger N) (nl_libra N) (we_env (E 0) 0) (rs_proposal r) (rs_sigs r) c = (Inr s, c1)"
    and "handle_apply_pending (nl_ledger N) (nl_libra N) (we_env (E 1) 0) c1 = (Inr None, c2)"
    and "\<not> ch_stopping c1" "\<not> ch_stopping c2" "channel_address (ch_stm c2) = channel_address (ch_stm c)"
      "channel_sequence_number (nl_libra N) (ch_stm c2) = Inr seq"
  shows "handle_network_msg N E peer (frame N (NodeResponse r)) n =
    (Inr (), answered_by peer (response_id (nl_libra N) r) seq (host N peer c2 n))"
proof -
  let ?X = "nl_wallet N" and ?A = "nl_ledger N" and ?L = "nl_libra N"
  have sv: "serves ?X peer c (nd_wallet n)" by (rule hosts_serves [OF assms(2)])
  have sv1: "serves ?X peer c1 (nd_wallet (host N peer c1 n))" and sv2: "serves ?X peer c2 (nd_wallet (host N peer c2 n))"
    using serves_set [OF sv] assms(5,6) by simp_all
  have 1: "on_wallet (verify_txn_response ?X ?A ?L (E 0) peer r) n = (Inr (), host N peer c1 n)"
    by (rule on_wallet_served) (rule response_served [OF sv assms(3)])
  have 2: "on_wallet (apply_txn ?X ?A ?L (E 1) peer) (host N peer c1 n) = (Inr 0, host N peer c2 n)"
    using on_wallet_served [of "apply_txn ?X ?A ?L (E 1) peer" "host N peer c1 n" "Inr 0" N peer c2]
      apply_served [OF sv1 assms(4)] by simp
  have 3: "on_wallet (wallet_channel_sequence_number ?X ?L peer) (host N peer c2 n) = (Inr seq, host N peer c2 n)"
    using sequence_number_served [OF sv2 _ assms(8)] assms(2,7) by (simp add: on_wallet_def hosts_def)
  show ?thesis
    unfolding response_frame [OF assms(1)]
    by (rule unwrapped_Inr) (simp add: act_bind_def 1 2 [unfolded One_nat_def] 3 act_update_def report_stats_def answered_by_def node_account_def)
qed

lemma exchange:
  assumes A: "accumulator_ok (nl_ledger N) rooth acc_rep mem_rep" and l: "linked N rooth acc_rep mem_rep txs ca cb na nb"
    and lib: "signer_invisible (nl_libra N)"
    and env: "same_history Ea (we_env (Eb 0) 1)" "disk_ok Ea" "\<And>i. disks_ok (Eb i)" "\<And>i. disks_ok (Fa i)" "nd_auto_approve nb"
    and x: "handle_execute (nl_libra N) Ea op args ca = (Inr (proposal, s, out), ca1)" "\<not> op_is_open op"
    and out: "\<not> is_travel_txn out" "length (out_write_set out) < 2 ^ 64" "length txs < 2 ^ 64 - 1"
      "counts_on (nl_libra N) (ch_stm ca) out (of_nat (length txs) + 1)"
    and resp: "\<And>s'. generate_txn_sigs (nl_libra N) (ch_stm cb) (channel_txn proposal) out = Inr s' \<Longrightarrow>
      faithful N (NodeResponse \<lparr>rs_proposal = proposal, rs_sigs = s'\<rparr>)"
  obtains s' sigs ca' cb' where
    "handle_channel_transaction_request N Eb (node_account na)
        \<lparr>rq_proposal = proposal, rq_sigs = s, rq_travel = is_travel_txn out\<rparr> nb =
      settle_htlc N (Eb 3) (node_account na) (channel_txn proposal)
        (put_frame (node_account na) (frame N (NodeResponse \<lparr>rs_proposal = proposal, rs_sigs = s'\<rparr>)) (host N (node_account na) cb' nb))"
    "\<And>n. hosts N (node_account nb) ca1 n \<Longrightarrow>
      handle_network_msg N Fa (node_account nb) (frame N (NodeResponse \<lparr>rs_proposal = proposal, rs_sigs = s'\<rparr>)) n =
        (Inr (), answered_by (node_account nb) (hash_channel_txn (nl_libra N) (channel_txn proposal)) (of_nat (length txs) + 1)
          (host N (node_account nb) ca' n))"
    "synced (nl_ledger N) (nl_libra N) rooth acc_rep mem_rep (txs @ [round_txn proposal out sigs]) ca' cb'"
    "channel_sequence_number (nl_libra N) (ch_stm ca') = Inr (of_nat (length txs) + 1)"
    "\<not> ch_stopping ca'" "\<not> ch_stopping cb'" "\<not> ch_stopping ca1" "ch_stm ca1 = ch_stm ca"
    "account_address (ch_stm ca') = account_address (ch_stm ca)" "channel_address (ch_stm ca') = channel_address (ch_stm ca)"
    "account_address (ch_stm cb') = account_address (ch_stm cb)" "channel_address (ch_stm cb') = channel_address (ch_stm cb)"
proof -
  let ?A = "nl_ledger N" and ?L = "nl_libra N" and ?a = "node_account na" and ?b = "node_account nb"
  let ?r = "\<lparr>rq_proposal = proposal, rq_sigs = s, rq_travel = is_travel_txn out\<rparr>"
  have sync: "synced ?A ?L rooth acc_rep mem_rep txs ca cb" and ha: "hosts N ?b ca na" and hb: "hosts N ?a cb nb"
    and seq: "channel_sequence_number ?L (ch_stm ca) = Inr (of_nat (length txs))"
    using l by (simp_all add: linked_def)
  have d: "disk_ok (we_env (Eb i) j)" "disk_ok (we_env (Fa i) j)" for i j using env(3,4) by (simp_all add: disks_ok_def)
  have none: "ch_pending ca = None" "ch_pending cb = None" and same_ch: "channel_address (ch_stm cb) = channel_address (ch_stm ca)"
    using sync by (simp_all add: synced_def in_step_def)
  have stop: "\<not> ch_stopping ca" "\<not> ch_stopping cb" and acc: "account_address (ch_stm ca) = ?a"
    using ha hb by (simp_all add: hosts_def serves_def)
  obtain s' sigs where ag: "ca1 = with_pending (pending_of proposal out [(account_address (ch_stm ca), s)] Negotiating) ca"
    "answer_proposal ?A ?L (we_env (Eb 0) 1) (we_env (Eb 1) 0) proposal s cb = (Inr s', with_pending (pending_of proposal out sigs Agreed) cb)"
    "handle_collect ?A ?L (we_env (Fa 0) 0) proposal s' ca1 = (Inr (Some s), with_pending (pending_of proposal out sigs Agreed) ca)"
    "ct_channel_sequence_number (channel_txn proposal) = of_nat (length txs)"
    "generate_txn_sigs ?L (ch_stm cb) (channel_txn proposal) out = Inr s'"
    using round_agreement [OF A sync lib env(1,2) d(1) d(2) d(1) seq x(1)] by metis
  obtain ca' cb' where ap: "handle_apply_pending ?A ?L (we_env (Fa 1) 0) (with_pending (pending_of proposal out sigs Agreed) ca) = (Inr None, ca')"
    "handle_apply_pending ?A ?L (we_env (Eb 2) 0) (with_pending (pending_of proposal out sigs Agreed) cb) = (Inr None, cb')"
    and sync': "synced ?A ?L rooth acc_rep mem_rep (txs @ [round_txn proposal out sigs]) ca' cb'"
    and adv: "ch_stm ca' = advanced (payload_sequence_number ?L) (round_txn proposal out sigs) (s_participant_keys (ch_store ca)) (ch_stm ca)"
    using round_applied [OF A sync d(2) d(1) out(3,1,2) ag(4)] by metis
  have wp: "ch_stopping (with_pending p c) = ch_stopping c" for p and c :: "'a channel" by (simp add: with_pending_def)
  note fa = apply_pending_frame [OF ap(1), simplified wp with_pending_simps] and fb = apply_pending_frame [OF ap(2), simplified wp with_pending_simps]
  have seq': "channel_sequence_number ?L (ch_stm ca') = Inr (of_nat (length txs) + 1)"
    unfolding adv by (rule advanced_seq [OF out(4)]) (simp add: round_txn_def)
  note fields = execute_fields [OF x(1) none(1)]
  have req: "handle_channel_transaction_request N Eb ?a ?r nb =
      settle_htlc N (Eb 3) ?a (channel_txn proposal)
        (put_frame ?a (frame N (NodeResponse \<lparr>rs_proposal = proposal, rs_sigs = s'\<rparr>)) (host N ?a cb' nb))"
    using request_answered [OF hb env(5), of ?r Eb s' "with_pending (pending_of proposal out sigs Agreed) cb" cb']
      fields x(2) acc same_ch ag(2) ap(2) collect_pending [OF none(2)] stop wp by simp
  have ans: "handle_network_msg N Fa ?b (frame N (NodeResponse \<lparr>rs_proposal = proposal, rs_sigs = s'\<rparr>)) n =
        (Inr (), answered_by ?b (hash_channel_txn ?L (channel_txn proposal)) (of_nat (length txs) + 1) (host N ?b ca' n))"
    if "hosts N ?b ca1 n" for n
    using answer_received [OF resp [OF ag(5)] that, of Fa "Some s" "with_pending (pending_of proposal out sigs Agreed) ca" ca'] ag(1,3) ap(1)
      stop wp fa seq' by (simp add: response_id_def)
  show thesis
    by (rule that [OF req ans sync' seq']) (use fa fb stop wp ag(1) in simp_all)
qed

text \<open>Nothing follows a request that is not about a hashed payment.\<close>

lemma settle_other:
  "\<not> is_htlc_transfer (nl_libra N) (ct_operator txn) \<Longrightarrow> \<not> is_htlc_receive (nl_libra N) (ct_operator txn) \<Longrightarrow>
   settle_htlc N E peer txn n = (Inr (), n)"
  by (simp add: settle_htlc_def act_bind_def act_lift_def)

text \<open>The sender after a request: the changed channel, the frame, and a future under the request's hash.\<close>

definition waits_for :: "hash_value \<Rightarrow> 'm node_state \<Rightarrow> 'm node_state" where
  "waits_for h n = future_timeout h (n\<lparr>nd_processor := snd (node_add_future h (nd_processor n))\<rparr>)"

lemma waits_for_simps [simp]:
  "nd_wallet (waits_for h n) = nd_wallet n" "nd_net_open (waits_for h n) = nd_net_open n" "nd_sent (waits_for h n) = nd_sent n"
  "nd_processor (waits_for h n) = snd (node_add_future h (nd_processor n))" "node_account (waits_for h n) = node_account n"
  "nd_invoices (waits_for h n) = nd_invoices n"
  by (simp_all add: waits_for_def future_timeout_def node_account_def)

lemma hosts_waits_for [simp]: "hosts N peer c (waits_for h n) = hosts N peer c n"
  by (simp add: hosts_def)

lemma await_waits: "await_answer h n = (Inr (np_next (nd_processor n)), waits_for h n)"
  by (simp add: await_answer_def waits_for_def node_add_future_def Let_def)

lemma request_sent:
  assumes "nd_net_open n"
  shows "send_channel_request N peer r n =
    (Inr (np_next (nd_processor n)), waits_for (request_id (nl_libra N) r) (put_frame peer (frame N (NodeRequest r)) n))"
  using assms
  by (simp add: send_channel_request_def act_bind_def send_open await_waits)

lemma payment_sent:
  assumes "hosts N receiver c n"
    and "handle_execute (nl_libra N) (we_env E 1) (channel_script (nl_libra N) ''transfer'') [ArgAddress receiver, ArgU64 amount] c =
      (Inr (proposal, s, out), c1)"
  obtains n1 where
    "off_chain_pay N E receiver amount n = (Inr (np_next (nd_processor n)), waits_for (hash_channel_txn (nl_libra N) (channel_txn proposal))
       (put_frame receiver (frame N (NodeRequest \<lparr>rq_proposal = proposal, rq_sigs = s, rq_travel = is_travel_txn out\<rparr>)) n1))"
    "nd_wallet n1 = nd_wallet (host N receiver c1 n)" "nd_net_open n1" "nd_sent n1 = nd_sent n" "nd_processor n1 = nd_processor n"
proof -
  let ?r = "\<lparr>rq_proposal = proposal, rq_sigs = s, rq_travel = is_travel_txn out\<rparr>"
  let ?n = "host N receiver c1 n"
  let ?n1 = "?n\<lparr>nd_stats := nd_stats ?n @ [((node_account ?n, receiver), (request_id (nl_libra N) ?r, amount, Paying))]\<rparr>"
  have "on_wallet (wallet_transfer (nl_wallet N) (nl_ledger N) (nl_libra N) E receiver amount) n = (Inr ?r, ?n)"
    unfolding wallet_transfer_def
    by (rule on_wallet_served) (rule execute_served [OF hosts_serves [OF assms(1)] _ assms(2)], simp add: channel_script_def)
  moreover have net: "nd_net_open ?n1" using assms(1) by (simp add: hosts_def)
  ultimately have "off_chain_pay N E receiver amount n = (Inr (np_next (nd_processor n)),
      waits_for (hash_channel_txn (nl_libra N) (channel_txn proposal)) (put_frame receiver (frame N (NodeRequest ?r)) ?n1))"
    using request_sent [OF net, of N receiver ?r] by (simp add: off_chain_pay_def act_bind_def report_stats_def act_update_def request_id_def)
  then show thesis by (rule that) (use net in simp_all)
qed

lemma answer_polled:
  assumes "futures_inv p" "map_of (np_tx_map p) h = None"
  shows "node_poll (np_next p) (node_send_response h v (snd (node_add_future h p))) = Some (Inr v)"
proof -
  have "np_next p \<notin> fst ` set (np_inbox p)" using assms(1) by (auto simp: futures_inv_def)
  then have "map_of (np_inbox p) (np_next p) = None" by (simp add: map_of_eq_None_iff)
  with assms(2) show ?thesis
    by (simp add: node_add_future_def node_send_response_def node_poll_def Let_def map_of_update map_add_def)
qed

lemma answered_by_simps [simp]:
  "nd_wallet (answered_by peer h v n) = nd_wallet n" "node_account (answered_by peer h v n) = node_account n"
  "nd_processor (answered_by peer h v n) = node_send_response h v (nd_processor n)"
  "hosts N p c (answered_by peer h v n) = hosts N p c n"
  by (simp_all add: answered_by_def node_account_def hosts_def)

section \<open>Payments over several hops\<close>

lemma forget_request:
  assumes "nd_net_open n"
  shows "\<exists>n'. forget (send_channel_request N peer r) n = (Inr (), n') \<and> nd_sent n' = nd_sent n @ [(peer, frame N (NodeRequest r))]"
  using request_sent [OF assms, of N peer r] by (simp add: forget_def act_bind_def act_update_def)

lemma forget_multi_hop:
  assumes "nd_net_open n"
  shows "\<exists>n'. forget (send_multi_hop_channel_request N peer m) n = (Inr (), n') \<and>
    nd_sent n' = nd_sent n @ [(peer, frame N (NodeMultiHop m))]"
  using assms by (simp add: forget_def act_update_def send_multi_hop_channel_request_def act_bind_def send_open await_waits)

text \<open>A claim is passed on to the hop that the payment came from.\<close>

lemma settle_passes_back:
  assumes "is_htlc_receive (nl_libra N) (ct_operator txn)" "parse_htlc_preimage (nl_wire N) (ct_args txn) = Inr preimage"
    and "get_previous_hop (nl_invoice N) preimage (nd_invoices n) = Some previous" "hosts N previous c n"
    and "handle_execute (nl_libra N) (we_env E 1) (channel_script (nl_libra N) ''receive_payment'') [ArgByteArray preimage] c =
      (Inr (q, t, out), c1)"
  obtains n' where "settle_htlc N E peer txn n = (Inr (), n')"
    "nd_sent n' = nd_sent n @ [(previous, frame N (NodeRequest \<lparr>rq_proposal = q, rq_sigs = t, rq_travel = is_travel_txn out\<rparr>))]"
proof -
  let ?r = "\<lparr>rq_proposal = q, rq_sigs = t, rq_travel = is_travel_txn out\<rparr>" and ?n = "host N previous c1 n"
  have other: "\<not> is_htlc_transfer (nl_libra N) (ct_operator txn)"
    using assms(1) by (simp add: is_htlc_receive_def is_htlc_transfer_def channel_script_def)
  have pay: "on_wallet (receive_payment (nl_wallet N) (nl_ledger N) (nl_libra N) E previous preimage) n = (Inr ?r, ?n)"
    unfolding receive_payment_def
    by (rule on_wallet_served) (rule execute_served [OF hosts_serves [OF assms(4)] _ assms(5)], simp add: channel_script_def)
  have net: "nd_net_open ?n" using assms(4) by (simp add: hosts_def)
  obtain n' where "forget (send_channel_request N previous ?r) ?n = (Inr (), n')"
    "nd_sent n' = nd_sent n @ [(previous, frame N (NodeRequest ?r))]"
    using forget_request [OF net, of N previous ?r] by auto
  with other assms(1-3) pay show thesis
    by (intro that) (simp_all add: settle_htlc_def act_bind_def act_lift_def act_get_def)
qed

section \<open>A small instance\<close>

definition sample_request :: "string \<Rightarrow> transaction_argument list \<Rightarrow> channel_transaction_request" where
  "sample_request script args = \<lparr>rq_proposal = \<lparr>channel_txn = \<lparr>ct_version = 3, ct_channel_address = [9], ct_channel_sequence_number = 0,
         ct_operator = channel_script (sample_libra False) script, ct_args = args, ct_proposer = [1],
         ct_sequence_number = 0, ct_expiration_time = duration_from_secs 60\<rparr>, proposer_public_key = [1], proposer_signature = [1, 0, 60]\<rparr>,
     rq_sigs = sample_sigs [1], rq_travel = False\<rparr>"

definition short_wire :: wire_lib where
  "short_wire = sample_wire\<lparr>address_ok := \<lambda>_. True, public_key_ok := \<lambda>_. True, signature_ok := \<lambda>b. b \<noteq> [], hash_ok := \<lambda>_. True\<rparr>"

text \<open>A payment over two hops, with a proposer that is not the peer it comes from.\<close>

definition sample_multi_hop :: multi_hop_request where
  "sample_multi_hop = \<lparr>mh_request = sample_request ''send_payment'' [ArgAddress [2], ArgU64 5, ArgByteArray [7], ArgU64 9],
     mh_hops = [\<lparr>nh_remote_addr = [1], nh_amount = 1000\<rparr>]\<rparr>"

text \<open>A codec for one request, its answer and that payment.\<close>

definition sample_response :: "channel_transaction_request \<Rightarrow> channel_transaction_response" where
  "sample_response r = \<lparr>rs_proposal = rq_proposal r, rs_sigs = sample_sigs [2]\<rparr>"

definition pay_prost :: "channel_transaction_request \<Rightarrow> prost" where
  "pay_prost r = sample_prost\<lparr>dec_request := \<lambda>_. Inr (request_into short_wire r),
     dec_response := \<lambda>_. Inr (response_into short_wire (sample_response r)),
     dec_multi_hop := \<lambda>_. Inr (multi_hop_into short_wire sample_multi_hop)\<rparr>"

text \<open>The channels with \<open>[3]\<close> have one address, all others another one.\<close>

definition sample_wallet_lib :: wallet_lib where
  "sample_wallet_lib = \<lparr>address_of_set = \<lambda>s. if [3] \<in> set s then [8] else [9], channel_account_path = \<lambda>_. [],
     read_channel_balance = \<lambda>_. None, user_channels_path = [], read_user_channels = \<lambda>_. None, read_account_balance = \<lambda>_. None\<rparr>"

definition sample_node_lib :: "channel_transaction_request \<Rightarrow> hash_value list node_lib" where
  "sample_node_lib r = \<lparr>nl_prost = pay_prost r, nl_wire = short_wire, nl_wallet = sample_wallet_lib,
     nl_ledger = flat_ledger, nl_libra = sample_libra False, nl_invoice = sample_invoice_lib\<rparr>"

definition sample_node :: "bytes \<Rightarrow> hash_value list node_state" where
  "sample_node me = node_new ((wallet_new me me me [] [])\<lparr>wl_enabled := True, wl_channels := [([9], sample_channel me)]\<rparr>) True 10"

definition sample_wallet_env :: wallet_env where
  "sample_wallet_env = \<lparr>we_env = \<lambda>_. sample_env, we_open_ok = True, we_by_seq = \<lambda>_ _. Inr None\<rparr>"

lemma sample_disks: "disks_ok sample_wallet_env"
  by (simp add: disks_ok_def sample_wallet_env_def sample_disk)

lemma sample_account [simp]: "node_account (sample_node me) = me"
  by (simp add: sample_node_def node_new_def node_account_def wallet_new_def)

lemma sample_lib_simps [simp]:
  "nl_libra (sample_node_lib r) = sample_libra False" "nl_ledger (sample_node_lib r) = flat_ledger" "nl_wire (sample_node_lib r) = short_wire"
  "nl_prost (sample_node_lib r) = pay_prost r" "nl_invoice (sample_node_lib r) = sample_invoice_lib"
  "nl_wallet (sample_node_lib r) = sample_wallet_lib"
  by (simp_all add: sample_node_lib_def)

lemma short_wire_ok: "wire_ok short_wire"
  by (auto simp: wire_ok_def short_wire_def sample_wire_def sample_argument_roundtrip)

lemma sample_ends:
  "channel_sequence_number (sample_libra False) (ch_stm (sample_channel [1])) = Inr 0"
  "account_address (ch_stm (sample_channel [1])) = [1]" "account_address (ch_stm (sample_channel [2])) = [2]"
  "channel_address (ch_stm (sample_channel [1])) = [9]" "channel_address (ch_stm (sample_channel [2])) = [9]"
  "\<not> ch_stopping (sample_channel [1])" "\<not> ch_stopping (sample_channel [2])"
  "fst (generate_channel_address sample_wallet_lib [1] [2]) = [9]" "fst (generate_channel_address sample_wallet_lib [2] [1]) = [9]"
  by code_simp+

lemma sample_linked:
  "linked (sample_node_lib r) concat flat_rep (=) [] (sample_channel [1]) (sample_channel [2]) (sample_node [1]) (sample_node [2])"
  using sample_synced sample_ends
  by (simp add: linked_def hosts_def serves_def) (simp add: sample_node_def node_new_def wallet_new_def)

lemma sample_faithful:
  assumes "valid_request short_wire r"
  shows "faithful (sample_node_lib r) (NodeRequest r)" "faithful (sample_node_lib r) (NodeResponse (sample_response r))"
    "faithful (sample_node_lib r) (NodeMultiHop sample_multi_hop)"
proof -
  have "valid_response short_wire (sample_response r)"
    using assms by (simp add: valid_request_def valid_response_def sample_response_def valid_sigs_def sample_sigs_def short_wire_def)
  moreover have "valid_message short_wire (NodeMultiHop sample_multi_hop)" by (code_simp, simp)
  ultimately show "faithful (sample_node_lib r) (NodeRequest r)" "faithful (sample_node_lib r) (NodeResponse (sample_response r))"
    "faithful (sample_node_lib r) (NodeMultiHop sample_multi_hop)"
    using assms by (simp_all add: faithful_def short_wire_ok pay_prost_def)
qed

abbreviation sample_transfer :: channel_transaction_request where
  "sample_transfer \<equiv> sample_request ''transfer'' [ArgAddress [2], ArgU64 5]"

lemma sample_request_valid: "valid_request short_wire (sample_request script args)"
  by (simp add: valid_request_def valid_proposal_def valid_txn_def sample_request_def valid_sigs_def sample_sigs_def short_wire_def
      channel_script_def duration_from_secs_def)

text \<open>A hop between \<open>[3]\<close>, where a payment came from, and \<open>[1]\<close>.\<close>

definition previous_channel :: "hash_value list channel" where
  "previous_channel = projr (channel_load flat_ledger (sample_libra False) True [8] [2] (Some [[2], [3]]) channel_db_empty [2] [2] [])"

definition hop_node :: "hash_value list node_state" where
  "hop_node = (sample_node [2])\<lparr>nd_wallet := put_channel [8] previous_channel (nd_wallet (sample_node [2])),
     nd_invoices := add_previous_hop (sha3_256 sample_invoice_lib [7]) [3] (nd_invoices (sample_node [2]))\<rparr>"

abbreviation sample_claim :: channel_transaction_request where
  "sample_claim \<equiv> sample_request ''receive_payment'' [ArgByteArray [7]]"

lemma hop_node_linked:
  "linked (sample_node_lib r) concat flat_rep (=) [] (sample_channel [1]) (sample_channel [2]) (sample_node [1]) hop_node"
  "hosts (sample_node_lib r) [3] previous_channel hop_node" "channel_address (ch_stm previous_channel) = [8]"
proof -
  have p: "account_address (ch_stm previous_channel) = [2]" "channel_address (ch_stm previous_channel) = [8]" "\<not> ch_stopping previous_channel"
    "fst (generate_channel_address sample_wallet_lib [3] [2]) = [8]" by code_simp+
  have n: "node_account hop_node = [2]" "nd_net_open hop_node = nd_net_open (sample_node [2])"
    using sample_account [of "[2]"] by (simp_all add: hop_node_def node_account_def)
  show "linked (sample_node_lib r) concat flat_rep (=) [] (sample_channel [1]) (sample_channel [2]) (sample_node [1]) hop_node"
    using sample_linked [of r] n sample_ends(8,9)
    by (simp add: linked_def hosts_def serves_def hop_node_def) (simp add: sample_node_def node_new_def wallet_new_def)
  show "hosts (sample_node_lib r) [3] previous_channel hop_node"
    using p n by (simp add: hosts_def serves_def hop_node_def) (simp add: sample_node_def node_new_def wallet_new_def)
  show "channel_address (ch_stm previous_channel) = [8]" by (rule p(2))
qed

section \<open>Properties\<close>

text \<open>C3. A payment to a neighbour, from the command to its answer. Two nodes have the two ends of a
  channel, in step; the payer's user asks for a transfer, and the VM gives an output that stays off the
  chain. Then the payer sends one frame; the peer, which approves by itself, answers it with one frame,
  and that frame settles the payer's future with the next sequence number of the channel. Afterwards
  both wallets have the same transaction, signed by both, at the end of their ledgers, and the nodes
  are linked as before, ready for the next payment.\<close>

theorem payment_round:
  assumes "accumulator_ok (nl_ledger N) rooth acc_rep mem_rep" "linked N rooth acc_rep mem_rep txs ca cb na nb"
    and "signer_invisible (nl_libra N)" "same_history (we_env Ea 1) (we_env (Eb 0) 1)"
    and "disks_ok Ea" "\<And>i. disks_ok (Eb i)" "\<And>i. disks_ok (Fa i)" "nd_auto_approve nb"
    and "handle_execute (nl_libra N) (we_env Ea 1) (channel_script (nl_libra N) ''transfer'')
      [ArgAddress (node_account nb), ArgU64 amount] ca = (Inr (proposal, s, out), ca1)"
    and "\<not> is_travel_txn out" "length (out_write_set out) < 2 ^ 64" "length txs < 2 ^ 64 - 1"
      "counts_on (nl_libra N) (ch_stm ca) out (of_nat (length txs) + 1)"
    and "faithful N (NodeRequest \<lparr>rq_proposal = proposal, rq_sigs = s, rq_travel = is_travel_txn out\<rparr>)"
      "\<And>s'. generate_txn_sigs (nl_libra N) (ch_stm cb) (channel_txn proposal) out = Inr s' \<Longrightarrow>
        faithful N (NodeResponse \<lparr>rs_proposal = proposal, rs_sigs = s'\<rparr>)"
    and "futures_inv (nd_processor na)"
      "map_of (np_tx_map (nd_processor na)) (hash_channel_txn (nl_libra N) (channel_txn proposal)) = None"
  shows "\<exists>f na1 d1 nb' d2 na' sigs ca' cb'.
    off_chain_pay N Ea (node_account nb) amount na = (Inr f, na1) \<and> nd_sent na1 = nd_sent na @ [(node_account nb, d1)] \<and>
    handle_network_msg N Eb (node_account na) d1 nb = (Inr (), nb') \<and> nd_sent nb' = nd_sent nb @ [(node_account na, d2)] \<and>
    handle_network_msg N Fa (node_account nb) d2 na1 = (Inr (), na') \<and>
    node_poll f (nd_processor na') = Some (Inr (of_nat (length txs) + 1)) \<and>
    linked N rooth acc_rep mem_rep (txs @ [round_txn proposal out sigs]) ca' cb' na' nb'"
proof -
  let ?L = "nl_libra N" and ?a = "node_account na" and ?b = "node_account nb" and ?h = "hash_channel_txn (nl_libra N) (channel_txn proposal)"
  let ?r = "\<lparr>rq_proposal = proposal, rq_sigs = s, rq_travel = is_travel_txn out\<rparr>" and ?v = "of_nat (length txs) + 1 :: u64"
  have d: "disk_ok (we_env Ea 1)" and op: "\<not> op_is_open (channel_script ?L ''transfer'')"
    using assms(5) by (simp_all add: disks_ok_def channel_script_def)
  have ha: "hosts N ?b ca na" and hb: "hosts N ?a cb nb" and none: "ch_pending ca = None"
    using assms(2) by (simp_all add: linked_def synced_def)
  obtain n1 where n1: "off_chain_pay N Ea ?b amount na = (Inr (np_next (nd_processor na)), waits_for ?h (put_frame ?b (frame N (NodeRequest ?r)) n1))"
    "nd_wallet n1 = nd_wallet (host N ?b ca1 na)" "nd_net_open n1" "nd_sent n1 = nd_sent na" "nd_processor n1 = nd_processor na"
    by (rule payment_sent [OF ha assms(9)])
  obtain s' sigs ca' cb' where e: "handle_channel_transaction_request N Eb ?a ?r nb = settle_htlc N (Eb 3) ?a (channel_txn proposal)
        (put_frame ?a (frame N (NodeResponse \<lparr>rs_proposal = proposal, rs_sigs = s'\<rparr>)) (host N ?a cb' nb))"
    "\<And>n. hosts N ?b ca1 n \<Longrightarrow> handle_network_msg N Fa ?b (frame N (NodeResponse \<lparr>rs_proposal = proposal, rs_sigs = s'\<rparr>)) n =
        (Inr (), answered_by ?b ?h ?v (host N ?b ca' n))"
    "synced (nl_ledger N) ?L rooth acc_rep mem_rep (txs @ [round_txn proposal out sigs]) ca' cb'"
    "channel_sequence_number ?L (ch_stm ca') = Inr ?v"
    and run: "\<not> ch_stopping ca'" "\<not> ch_stopping cb'" "\<not> ch_stopping ca1" "ch_stm ca1 = ch_stm ca"
    "account_address (ch_stm ca') = account_address (ch_stm ca)" "channel_address (ch_stm ca') = channel_address (ch_stm ca)"
    "account_address (ch_stm cb') = account_address (ch_stm cb)" "channel_address (ch_stm cb') = channel_address (ch_stm cb)"
    by (rule exchange [where Eb = Eb and Fa = Fa, OF assms(1-4) d assms(6-9) op assms(10-13,15)], assumption) (rule that)
  let ?na1 = "waits_for ?h (put_frame ?b (frame N (NodeRequest ?r)) n1)"
  let ?d2 = "frame N (NodeResponse \<lparr>rs_proposal = proposal, rs_sigs = s'\<rparr>)"
  have acc: "node_account n1 = ?a" using n1(2) by (simp add: node_account_def)
  have h1: "hosts N ?b ca1 ?na1" using hosts_host [OF ha run(3)] run(4) n1(2,3) acc by (simp add: hosts_def)
  have h2: "hosts N ?b ca' (host N ?b ca' ?na1)" using hosts_host [OF h1 run(1)] run(4-6) by simp
  have h3: "hosts N ?a cb' (host N ?a cb' nb)" using hosts_host [OF hb run(2)] run(7,8) by simp
  have rcv: "handle_network_msg N Eb ?a (frame N (NodeRequest ?r)) nb = (Inr (), put_frame ?a ?d2 (host N ?a cb' nb))"
    unfolding request_frame [OF assms(14)]
    by (rule unwrapped_Inr)
       (simp add: e(1) settle_other execute_fields(3) [OF assms(9) none] is_htlc_transfer_def is_htlc_receive_def channel_script_def)
  have sent: "nd_sent ?na1 = nd_sent na @ [(?b, frame N (NodeRequest ?r))]" using n1(4) by simp
  have reply: "nd_sent (put_frame ?a ?d2 (host N ?a cb' nb)) = nd_sent nb @ [(?a, ?d2)]" by simp
  have link: "linked N rooth acc_rep mem_rep (txs @ [round_txn proposal out sigs]) ca' cb' (answered_by ?b ?h ?v (host N ?b ca' ?na1))
      (put_frame ?a ?d2 (host N ?a cb' nb))"
    unfolding linked_def using e(3,4) h2 h3 acc by (simp add: add.commute)
  have poll: "node_poll (np_next (nd_processor na)) (nd_processor (answered_by ?b ?h ?v (host N ?b ca' ?na1))) = Some (Inr ?v)"
    using answer_polled [OF assms(16,17)] n1(5) by simp
  show ?thesis
    by (intro exI conjI) (rule n1(1), rule sent, rule rcv, rule reply, rule e(2) [OF h1], rule poll, rule link)
qed

theorem payment_round_witness:
  "\<exists>f na1 d1 nb' d2 na' ca' cb' txs. off_chain_pay (sample_node_lib sample_transfer) sample_wallet_env [2] 5 (sample_node [1]) = (Inr f, na1) \<and>
    nd_sent na1 = [([2], d1)] \<and> handle_network_msg (sample_node_lib sample_transfer) (\<lambda>_. sample_wallet_env) [1] d1 (sample_node [2]) = (Inr (), nb') \<and>
    nd_sent nb' = [([1], d2)] \<and> handle_network_msg (sample_node_lib sample_transfer) (\<lambda>_. sample_wallet_env) [2] d2 na1 = (Inr (), na') \<and>
    node_poll f (nd_processor na') = Some (Inr 1) \<and>
    linked (sample_node_lib sample_transfer) concat flat_rep (=) txs ca' cb' na' nb' \<and> length txs = 1"
proof -
  let ?N = "sample_node_lib sample_transfer" and ?L = "sample_libra False" and ?E = sample_wallet_env and ?a = "sample_node [1]" and ?b = "sample_node [2]"
  let ?out = "pt_output (sample_pending [] Created)" and ?p = "rq_proposal sample_transfer"
  define ca cb where "ca = sample_channel [1]" and "cb = sample_channel [2]"
  have "fst (handle_execute ?L sample_env (channel_script ?L ''transfer'') [ArgAddress [2], ArgU64 5] (sample_channel [1])) =
      Inr (?p, sample_sigs [1], ?out)"
    "generate_txn_sigs ?L (ch_stm (sample_channel [2])) (channel_txn ?p) ?out = Inr (sample_sigs [2])"
    "\<not> is_travel_txn ?out" "length (out_write_set ?out) = 1"
    "map_of (out_write_set ?out) \<lparr>ap_address = channel_address (ch_stm (sample_channel [1])),
       ap_path = mirror_resource_path ?L (channel_address (ch_stm (sample_channel [1])))\<rparr> = Some (WriteValue [1])"
    "read_mirror ?L [1] = Some 1" by code_simp+
  then have x: "fst (handle_execute ?L (we_env ?E 1) (channel_script ?L ''transfer'') [ArgAddress (node_account ?b), ArgU64 5] ca) =
      Inr (?p, sample_sigs [1], ?out)"
    and g: "generate_txn_sigs ?L (ch_stm cb) (channel_txn ?p) ?out = Inr (sample_sigs [2])"
    and out: "\<not> is_travel_txn ?out" "length (out_write_set ?out) < 2 ^ 64" "counts_on ?L (ch_stm ca) ?out (of_nat (length []) + 1)"
    by (simp_all add: ca_def cb_def counts_on_def sample_wallet_env_def)
  obtain ca1 where ca1: "handle_execute ?L (we_env ?E 1) (channel_script ?L ''transfer'') [ArgAddress (node_account ?b), ArgU64 5] ca =
      (Inr (?p, sample_sigs [1], ?out), ca1)" using x by (metis prod.collapse)
  have req: "faithful ?N (NodeRequest \<lparr>rq_proposal = ?p, rq_sigs = sample_sigs [1], rq_travel = is_travel_txn ?out\<rparr>)"
    using sample_faithful(1) [OF sample_request_valid] out(1) by (simp add: sample_request_def)
  have resp: "faithful ?N (NodeResponse \<lparr>rs_proposal = ?p, rs_sigs = s'\<rparr>)"
    if "generate_txn_sigs (nl_libra ?N) (ch_stm cb) (channel_txn ?p) ?out = Inr s'" for s'
    using sample_faithful(2) [OF sample_request_valid] that g by (simp add: sample_response_def)
  have start: "futures_inv (nd_processor ?a)" "map_of (np_tx_map (nd_processor ?a)) h = None" "nd_sent ?a = []" "nd_sent ?b = []" "nd_auto_approve ?b" for h
    using futures_new by (simp_all add: sample_node_def node_new_def node_processor_new_def)
  have hist: "same_history (we_env ?E 1) (we_env ?E 1)" by (simp add: same_history_def)
  have link: "linked ?N concat flat_rep (=) [] ca cb ?a ?b" unfolding ca_def cb_def by (rule sample_linked)
  have lib: "accumulator_ok (nl_ledger ?N) concat flat_rep (=)" "signer_invisible (nl_libra ?N)"
    using flat_ledger_ok sample_signer by simp_all
  obtain f na1 d1 nb' d2 na' sigs ca' cb' where
    r: "off_chain_pay ?N ?E (node_account ?b) 5 ?a = (Inr f, na1)" "nd_sent na1 = nd_sent ?a @ [(node_account ?b, d1)]"
    "handle_network_msg ?N (\<lambda>_. ?E) (node_account ?a) d1 ?b = (Inr (), nb')" "nd_sent nb' = nd_sent ?b @ [(node_account ?a, d2)]"
    "handle_network_msg ?N (\<lambda>_. ?E) (node_account ?b) d2 na1 = (Inr (), na')"
    "node_poll f (nd_processor na') = Some (Inr (of_nat (length ([] :: transaction_to_commit list)) + 1))"
    "linked ?N concat flat_rep (=) ([] @ [round_txn ?p ?out sigs]) ca' cb' na' nb'"
    using payment_round [where Eb = "\<lambda>_. ?E" and Fa = "\<lambda>_. ?E" and txs = "[]", OF lib(1) link lib(2) hist sample_disks sample_disks sample_disks start(5)
      ca1 [folded sample_lib_simps(1) [of sample_transfer]] out(1,2) _ out(3) [folded sample_lib_simps(1) [of sample_transfer]] req resp start(1,2)] by auto
  show ?thesis
    by (intro exI conjI) (rule r(1) [simplified], use r(2) start in simp, rule r(3) [simplified], use r(4) start in simp,
      rule r(5) [simplified], use r(6) in simp, rule r(7), simp)
qed

text \<open>C9. A claimed hop claims. A node paid the next hop of a hashed payment and keeps the hop the payment
  came from under the hash. When the next hop claims with the preimage, the node answers, both ledgers
  of that channel have the claim, and the second frame the node sends is its own claim of the same
  preimage to the previous hop. So the preimage travels back along the path, one hop at a time.\<close>

theorem claim_passed_back:
  assumes "accumulator_ok (nl_ledger N) rooth acc_rep mem_rep" "linked N rooth acc_rep mem_rep txs ca cb na nb"
    and "signer_invisible (nl_libra N)" "same_history Ea (we_env (Eb 0) 1)"
    and "disk_ok Ea" "\<And>i. disks_ok (Eb i)" "nd_auto_approve nb"
    and "handle_execute (nl_libra N) Ea (channel_script (nl_libra N) ''receive_payment'') [ArgByteArray preimage] ca =
      (Inr (proposal, s, out), ca1)"
    and "\<not> is_travel_txn out" "length (out_write_set out) < 2 ^ 64" "length txs < 2 ^ 64 - 1"
      "counts_on (nl_libra N) (ch_stm ca) out (of_nat (length txs) + 1)"
    and "faithful N (NodeRequest \<lparr>rq_proposal = proposal, rq_sigs = s, rq_travel = is_travel_txn out\<rparr>)"
      "\<And>s'. generate_txn_sigs (nl_libra N) (ch_stm cb) (channel_txn proposal) out = Inr s' \<Longrightarrow>
        faithful N (NodeResponse \<lparr>rs_proposal = proposal, rs_sigs = s'\<rparr>)"
    and "hash_ok (nl_wire N) preimage" "get_previous_hop (nl_invoice N) preimage (nd_invoices nb) = Some previous"
    and "hosts N previous cp nb" "channel_address (ch_stm cp) \<noteq> channel_address (ch_stm cb)"
    and "handle_execute (nl_libra N) (we_env (Eb 3) 1) (channel_script (nl_libra N) ''receive_payment'') [ArgByteArray preimage] cp =
      (Inr (q, t, o'), cp1)"
  shows "\<exists>nb' d sigs ca' cb'.
    handle_network_msg N Eb (node_account na)
      (frame N (NodeRequest \<lparr>rq_proposal = proposal, rq_sigs = s, rq_travel = is_travel_txn out\<rparr>)) nb = (Inr (), nb') \<and>
    nd_sent nb' = nd_sent nb @ [(node_account na, d),
      (previous, frame N (NodeRequest \<lparr>rq_proposal = q, rq_sigs = t, rq_travel = is_travel_txn o'\<rparr>))] \<and>
    synced (nl_ledger N) (nl_libra N) rooth acc_rep mem_rep (txs @ [round_txn proposal out sigs]) ca' cb'"
proof -
  let ?L = "nl_libra N" and ?a = "node_account na" and ?X = "nl_wallet N"
  let ?r = "\<lparr>rq_proposal = proposal, rq_sigs = s, rq_travel = is_travel_txn out\<rparr>"
  have op: "\<not> op_is_open (channel_script ?L ''receive_payment'')" by (simp add: channel_script_def)
  have hb: "hosts N ?a cb nb" and none: "ch_pending ca = None" using assms(2) by (simp_all add: linked_def synced_def)
  obtain s' sigs ca' cb' where e: "handle_channel_transaction_request N Eb ?a ?r nb = settle_htlc N (Eb 3) ?a (channel_txn proposal)
        (put_frame ?a (frame N (NodeResponse \<lparr>rs_proposal = proposal, rs_sigs = s'\<rparr>)) (host N ?a cb' nb))"
    "synced (nl_ledger N) ?L rooth acc_rep mem_rep (txs @ [round_txn proposal out sigs]) ca' cb'"
    by (rule exchange [where Eb = Eb and Fa = Eb, OF assms(1-6,6-8) op assms(9-12,14)], assumption) (rule that)
  let ?n = "put_frame ?a (frame N (NodeResponse \<lparr>rs_proposal = proposal, rs_sigs = s'\<rparr>)) (host N ?a cb' nb)"
  have "channel_with ?X previous (nd_wallet nb) \<noteq> channel_with ?X ?a (nd_wallet nb)"
    using assms(17,18) hb by (simp add: hosts_def)
  then have h: "hosts N previous cp ?n"
    using assms(17) by (simp add: hosts_def serves_def set_channel_def)
  have "is_htlc_receive ?L (ct_operator (channel_txn proposal))"
    "parse_htlc_preimage (nl_wire N) (ct_args (channel_txn proposal)) = Inr preimage"
    using execute_fields(3,4) [OF assms(8) none] assms(15)
    by (simp_all add: is_htlc_receive_def parse_htlc_preimage_def to_hash_def)
  then obtain n' where n': "settle_htlc N (Eb 3) ?a (channel_txn proposal) ?n = (Inr (), n')"
    "nd_sent n' = nd_sent ?n @ [(previous, frame N (NodeRequest \<lparr>rq_proposal = q, rq_sigs = t, rq_travel = is_travel_txn o'\<rparr>))]"
    using settle_passes_back [OF _ _ _ h assms(19)] assms(16) by auto
  have "handle_network_msg N Eb ?a (frame N (NodeRequest ?r)) nb = (Inr (), n')"
    unfolding request_frame [OF assms(13)] by (rule unwrapped_Inr) (simp only: e(1) n'(1))
  with n'(2) e(2) show ?thesis by auto
qed

theorem claim_passed_back_witness:
  "\<exists>n' d1 d2. handle_network_msg (sample_node_lib sample_claim) (\<lambda>_. sample_wallet_env) [1]
      (frame (sample_node_lib sample_claim) (NodeRequest sample_claim)) hop_node = (Inr (), n') \<and> nd_sent n' = [([1], d1), ([3], d2)]"
proof -
  let ?N = "sample_node_lib sample_claim" and ?L = "sample_libra False" and ?E = sample_wallet_env and ?a = "sample_node [1]" and ?b = hop_node
  let ?out = "pt_output (sample_pending [] Created)" and ?p = "rq_proposal sample_claim" and ?op = "channel_script (sample_libra False) ''receive_payment''"
  define ca cb cp where "ca = sample_channel [1]" and "cb = sample_channel [2]" and "cp = previous_channel"
  have "fst (handle_execute ?L sample_env ?op [ArgByteArray [7]] (sample_channel [1])) = Inr (?p, sample_sigs [1], ?out)"
    "generate_txn_sigs ?L (ch_stm (sample_channel [2])) (channel_txn ?p) ?out = Inr (sample_sigs [2])"
    "\<not> isl (fst (handle_execute ?L sample_env ?op [ArgByteArray [7]] previous_channel))"
    "\<not> is_travel_txn ?out" "length (out_write_set ?out) = 1"
    "map_of (out_write_set ?out) \<lparr>ap_address = channel_address (ch_stm (sample_channel [1])),
       ap_path = mirror_resource_path ?L (channel_address (ch_stm (sample_channel [1])))\<rparr> = Some (WriteValue [1])"
    "read_mirror ?L [1] = Some 1" by code_simp+
  then have x: "fst (handle_execute (nl_libra ?N) sample_env (channel_script (nl_libra ?N) ''receive_payment'') [ArgByteArray [7]] ca) = Inr (?p, sample_sigs [1], ?out)"
    and g: "generate_txn_sigs ?L (ch_stm cb) (channel_txn ?p) ?out = Inr (sample_sigs [2])"
    and y: "\<not> isl (fst (handle_execute (nl_libra ?N) (we_env ?E 1) (channel_script (nl_libra ?N) ''receive_payment'') [ArgByteArray [7]] cp))"
    and out: "\<not> is_travel_txn ?out" "length (out_write_set ?out) < 2 ^ 64" "counts_on (nl_libra ?N) (ch_stm ca) ?out (of_nat (length []) + 1)"
    by (simp_all add: ca_def cb_def cp_def counts_on_def sample_wallet_env_def)
  obtain ca1 where ca1: "handle_execute (nl_libra ?N) sample_env (channel_script (nl_libra ?N) ''receive_payment'') [ArgByteArray [7]] ca =
      (Inr (?p, sample_sigs [1], ?out), ca1)" using x by (metis prod.collapse)
  obtain q t o' cp1 where cp1: "handle_execute (nl_libra ?N) (we_env ?E 1) (channel_script (nl_libra ?N) ''receive_payment'') [ArgByteArray [7]] cp =
      (Inr (q, t, o'), cp1)" using y by (metis isl_def sum.exhaust prod.collapse)
  have req: "faithful ?N (NodeRequest \<lparr>rq_proposal = ?p, rq_sigs = sample_sigs [1], rq_travel = is_travel_txn ?out\<rparr>)"
    using sample_faithful(1) [OF sample_request_valid] out(1) by (simp add: sample_request_def)
  have resp: "faithful ?N (NodeResponse \<lparr>rs_proposal = ?p, rs_sigs = s'\<rparr>)"
    if "generate_txn_sigs (nl_libra ?N) (ch_stm cb) (channel_txn ?p) ?out = Inr s'" for s'
    using sample_faithful(2) [OF sample_request_valid] that g by (simp add: sample_response_def)
  have start: "nd_sent ?b = []" "nd_auto_approve ?b" "get_previous_hop (nl_invoice ?N) [7] (nd_invoices ?b) = Some [3]" "hash_ok (nl_wire ?N) [7]"
    by (simp_all add: hop_node_def sample_node_def node_new_def get_previous_hop_add short_wire_def)
  have hist: "same_history sample_env (we_env ?E 1)" by (simp add: same_history_def sample_wallet_env_def)
  have link: "linked ?N concat flat_rep (=) [] ca cb ?a ?b" "hosts ?N [3] cp ?b" "channel_address (ch_stm cp) \<noteq> channel_address (ch_stm cb)"
    using hop_node_linked sample_ends(5) by (simp_all add: ca_def cb_def cp_def)
  have lib: "accumulator_ok (nl_ledger ?N) concat flat_rep (=)" "signer_invisible (nl_libra ?N)"
    using flat_ledger_ok sample_signer by simp_all
  have "\<exists>nb' d sigs ca' cb'. handle_network_msg ?N (\<lambda>_. ?E) (node_account ?a)
      (frame ?N (NodeRequest \<lparr>rq_proposal = ?p, rq_sigs = sample_sigs [1], rq_travel = is_travel_txn ?out\<rparr>)) ?b = (Inr (), nb') \<and>
    nd_sent nb' = nd_sent ?b @ [(node_account ?a, d), ([3], frame ?N (NodeRequest \<lparr>rq_proposal = q, rq_sigs = t, rq_travel = is_travel_txn o'\<rparr>))] \<and>
    synced (nl_ledger ?N) (nl_libra ?N) concat flat_rep (=) ([] @ [round_txn ?p ?out sigs]) ca' cb'"
    by (rule claim_passed_back [where Eb = "\<lambda>_. ?E", OF lib(1) link(1) lib(2) hist sample_disk sample_disks start(2) ca1 out(1,2) _ out(3) req
        resp start(4,3) link(2,3) cp1]) simp_all
  moreover have "\<lparr>rq_proposal = ?p, rq_sigs = sample_sigs [1], rq_travel = is_travel_txn ?out\<rparr> = sample_claim"
    using out(1) by (simp add: sample_request_def)
  ultimately show ?thesis using start(1) by auto
qed

text \<open>C18. A hop pays on what it was not paid: when the request inside a frame of a payment over several
  hops does not pass the checks of the wallet, or waits for the approval of the user, the node still
  pays the next hop from its own channel. The frames it sends are the refusal, if there is one, and the
  payment to the next hop.\<close>

theorem forwards_unverified:
  assumes "faithful N (NodeMultiHop m)" "mh_hops m = hop # rest"
    and "is_htlc_transfer (nl_libra N) (ct_operator (channel_txn (rq_proposal (mh_request m))))"
      "parse_htlc_payment (nl_wire N) (ct_args (channel_txn (rq_proposal (mh_request m)))) = Inr payment"
    and "verify_txn (nl_wallet N) (nl_ledger N) (nl_libra N) (E 0) peer (mh_request m) (nd_wallet n) = (v, w1)"
      "v = Inl (Bail reason) \<or> v = Inr None \<and> \<not> nd_auto_approve n" "nd_net_open n"
    and "send_payment (nl_wallet N) (nl_ledger N) (nl_libra N) (E 4) (nh_remote_addr hop) (nh_amount hop) (hash_lock payment)
      (htlc_timeout payment) w1 = (Inr request, w2)"
  shows "\<exists>n'. handle_network_msg N E peer (frame N (NodeMultiHop m)) n = (Inr (), n') \<and>
    nd_sent n' = nd_sent n @
      (case v of Inl e \<Rightarrow> [(peer, frame N (error_message_of e (request_id (nl_libra N) (mh_request m))))] | Inr _ \<Rightarrow> []) @
      [(nh_remote_addr hop, frame N (NodeMultiHop \<lparr>mh_request = request, mh_hops = rest\<rparr>))]"
proof -
  let ?txn = "channel_txn (rq_proposal (mh_request m))"
  have fwd: "\<exists>n'. forward_payment N (E 4) peer ?txn hop rest n1 = (Inr (), n') \<and>
      nd_sent n' = nd_sent n1 @ [(nh_remote_addr hop, frame N (NodeMultiHop \<lparr>mh_request = request, mh_hops = rest\<rparr>))]"
    if "nd_wallet n1 = w1" "nd_net_open n1" for n1
    using assms(3,4,8) that
      forget_multi_hop [of "n1\<lparr>nd_wallet := w2\<rparr>" N "nh_remote_addr hop" "\<lparr>mh_request = request, mh_hops = rest\<rparr>"]
    by (auto simp: forward_payment_def act_bind_def act_lift_def act_update_def on_wallet_def)
  have ver: "on_wallet (verify_txn (nl_wallet N) (nl_ledger N) (nl_libra N) (E 0) peer (mh_request m)) n = (v, n\<lparr>nd_wallet := w1\<rparr>)"
    using assms(5) by (simp add: on_wallet_def)
  show ?thesis
  proof (cases v)
    case (Inl e)
    let ?d = "frame N (error_message_of e (request_id (nl_libra N) (mh_request m)))"
    have "handle_channel_transaction_request N E peer (mh_request m) n = (Inr (), put_frame peer ?d (n\<lparr>nd_wallet := w1\<rparr>))"
      using Inl assms(6,7) ver by (simp add: handle_channel_transaction_request_def Let_def send_open unwrapped_def)
    with fwd [of "put_frame peer ?d (n\<lparr>nd_wallet := w1\<rparr>)"] assms(2,7) Inl show ?thesis
      unfolding multi_hop_frame [OF assms(1)] by (auto simp: act_bind_def unwrapped_def)
  next
    case (Inr r)
    then have "handle_channel_transaction_request N E peer (mh_request m) n = (Inr (), n\<lparr>nd_wallet := w1\<rparr>)"
      using assms(6) ver by (simp add: handle_channel_transaction_request_def Let_def)
    with fwd [of "n\<lparr>nd_wallet := w1\<rparr>"] assms(2,7) Inr show ?thesis
      unfolding multi_hop_frame [OF assms(1)] by (auto simp: act_bind_def unwrapped_def)
  qed
qed

theorem forwards_unverified_witness:
  "\<exists>n' d1 d2. handle_network_msg (sample_node_lib sample_transfer) (\<lambda>_. sample_wallet_env) [3]
      (frame (sample_node_lib sample_transfer) (NodeMultiHop sample_multi_hop)) (sample_node [2]) = (Inr (), n') \<and> nd_sent n' = [([3], d1), ([1], d2)]"
proof -
  let ?N = "sample_node_lib sample_transfer" and ?E = sample_wallet_env and ?n = "sample_node [2]" and ?hop = "\<lparr>nh_remote_addr = [1], nh_amount = 1000\<rparr>"
  let ?X = sample_wallet_lib and ?pay = "\<lparr>hash_lock = [7], htlc_amount = 5, htlc_timeout = 9\<rparr>"
  have "fst (verify_txn ?X flat_ledger (sample_libra False) ?E [3] (mh_request sample_multi_hop) (nd_wallet ?n)) =
      Inl (Bail ''peer id and txn proposer mismatch'')"
    "\<not> isl (fst (send_payment ?X flat_ledger (sample_libra False) ?E [1] 1000 [7] 9
      (snd (verify_txn ?X flat_ledger (sample_libra False) ?E [3] (mh_request sample_multi_hop) (nd_wallet ?n)))))"
    "parse_htlc_payment short_wire (ct_args (channel_txn (rq_proposal (mh_request sample_multi_hop)))) = Inr ?pay"
    "is_htlc_transfer (sample_libra False) (ct_operator (channel_txn (rq_proposal (mh_request sample_multi_hop))))"
    "mh_hops sample_multi_hop = [?hop]" "nd_net_open ?n" by code_simp+
  note facts = this
  define w1 where "w1 = snd (verify_txn ?X flat_ledger (sample_libra False) ?E [3] (mh_request sample_multi_hop) (nd_wallet ?n))"
  have ver: "verify_txn (nl_wallet ?N) (nl_ledger ?N) (nl_libra ?N) ?E [3] (mh_request sample_multi_hop) (nd_wallet ?n) =
      (Inl (Bail ''peer id and txn proposer mismatch''), w1)" using facts(1) by (simp add: w1_def prod_eq_iff)
  obtain request w2 where pay: "send_payment (nl_wallet ?N) (nl_ledger ?N) (nl_libra ?N) ?E (nh_remote_addr ?hop) (nh_amount ?hop) (hash_lock ?pay)
      (htlc_timeout ?pay) w1 = (Inr request, w2)"
    using facts(2) unfolding w1_def [symmetric]
    by (cases "send_payment ?X flat_ledger (sample_libra False) ?E [1] 1000 [7] 9 w1"; cases "fst (send_payment ?X flat_ledger (sample_libra False) ?E [1] 1000 [7] 9 w1)")
       simp_all
  have sent: "nd_sent ?n = []" by (simp add: sample_node_def node_new_def)
  from forwards_unverified [where E = "\<lambda>_. ?E" and rest = "[]", OF sample_faithful(3) [OF sample_request_valid] facts(5) _ _ ver disjI1 [OF refl] facts(6) pay] facts(3,4)
  obtain n' d1 d2 where "handle_network_msg ?N (\<lambda>_. ?E) [3] (frame ?N (NodeMultiHop sample_multi_hop)) ?n = (Inr (), n')"
    "nd_sent n' = nd_sent ?n @ [([3], d1), ([1], d2)]" by auto
  with sent show ?thesis by auto
qed

end
