(* ===== verification/Node_Recovery.thy ===== *)
theory Node_Recovery
  imports Node_Payments
begin

text \<open>
  The start of a node. Pending requests are sent again before the loop that would take their answers
  runs, so a node that has one for a connected peer does not start.
\<close>

lemma pending_request_keeps: "snd (get_pending_txn_request X peer w) = w"
proof -
  have get: "snd (wallet_send (wallet_get_channel a) w) = w" for a
    by (auto simp: wallet_send_def wallet_get_channel_def split: option.split)
  have send: "snd (channel_send a handle_get_pending w) = w" for a
    by (auto simp: channel_send_def handle_get_pending_def put_channel_def update_same split: option.split)
  have "snd (wallet_get_pending_txn X peer w) = w"
    using get send by (auto simp: wallet_get_pending_txn_def act_bind_def case_prod_beta split: sum.split)
  then show ?thesis
    by (cases "wallet_get_pending_txn X peer w") (auto simp: get_pending_txn_request_def act_bind_def act_lift_def split: sum.split)
qed

lemma on_wallet_pending: "on_wallet (get_pending_txn_request X peer) n = (fst (get_pending_txn_request X peer (nd_wallet n)), n)"
  using pending_request_keeps [of X peer "nd_wallet n"]
  by (cases "get_pending_txn_request X peer (nd_wallet n)") (simp add: on_wallet_def)

text \<open>The future of a request that was just sent has no answer, and gets none from its timer.\<close>

lemma await_fails:
  assumes "futures_inv p" "(f, p') = node_add_future h p"
  shows "node_poll f p' \<noteq> Some (Inr v)" "node_poll f (node_remove_future h p') = Some (Inl \<lparr>error_code = TIMEOUT, sg_message = ''future time out''\<rparr>)"
    "node_poll f p' = None \<or> node_poll f p' = Some (Inl \<lparr>error_code = TIMEOUT, sg_message = ''future time out''\<rparr>)"
proof -
  have f: "f = np_next p" "np_inbox p' = np_inbox p" using assms(2) by (simp_all add: node_add_future_def Let_def)
  have inv: "futures_inv p'" using futures_add [OF assms(1), of h] assms(2) by (metis snd_conv)
  have "np_next p \<notin> answered_futures p" using assms(1) by (auto simp: futures_inv_def)
  then have none: "map_of (np_inbox p') f = None" using f by (simp add: map_of_eq_None_iff)
  then show "node_poll f p' \<noteq> Some (Inr v)"
    "node_poll f p' = None \<or> node_poll f p' = Some (Inl \<lparr>error_code = TIMEOUT, sg_message = ''future time out''\<rparr>)"
    by (simp_all add: node_poll_def)
  have "f \<notin> snd ` set (AList.delete h (np_tx_map p'))"
  proof (cases "map_of (np_tx_map p) h")
    case None
    then have "map_of (np_tx_map p') h = Some f" using assms(2) by (simp add: node_add_future_def Let_def map_of_update)
    then show ?thesis using inv by (simp add: delete_value futures_inv_def)
  next
    case (Some g)
    then have "np_tx_map p' = np_tx_map p" using assms(2) by (simp add: node_add_future_def Let_def)
    moreover have "f \<notin> waiting_futures p" using assms(1) f(1) by (auto simp: futures_inv_def)
    ultimately show ?thesis using delete_values(1) [of h "np_tx_map p"] by auto
  qed
  with none show "node_poll f (node_remove_future h p') = Some (Inl \<lparr>error_code = TIMEOUT, sg_message = ''future time out''\<rparr>)"
    by (simp add: node_poll_def node_remove_future_def)
qed

text \<open>A peer that the recovery passes over.\<close>

definition passed_over :: "'m node_lib \<Rightarrow> (account_address \<Rightarrow> bool) \<Rightarrow> 'm wallet \<Rightarrow> account_address \<Rightarrow> bool" where
  "passed_over N online w peer =
     (case fst (get_pending_txn_request (nl_wallet N) peer w) of
        Inr (Some _) \<Rightarrow> \<not> online peer
      | Inr None \<Rightarrow> True
      | Inl (Panic _) \<Rightarrow> False
      | Inl _ \<Rightarrow> True)"

definition never_starts :: "'m node_state \<Rightarrow> unit awaited \<Rightarrow> bool" where
  "never_starts n r \<longleftrightarrow> (\<exists>e. r = Some (Inl e)) \<or> nd_timeout n = 0 \<and> r = None"

lemma init_passes: "passed_over N online (nd_wallet n) peer \<Longrightarrow> init_channels N online (peer # peers) n = init_channels N online peers n"
  by (auto simp: passed_over_def on_wallet_pending split: sum.splits chan_error.splits option.splits)

lemma init_stops:
  assumes "futures_inv (nd_processor n)" "nd_net_open n" "\<not> passed_over N online (nd_wallet n) peer"
  shows "never_starts n (fst (init_channels N online (peer # peers) n))"
proof (cases "fst (get_pending_txn_request (nl_wallet N) peer (nd_wallet n))")
  case (Inl e)
  with assms(3) show ?thesis by (cases e) (auto simp: passed_over_def on_wallet_pending never_starts_def)
next
  case (Inr r)
  with assms(3) obtain request where r: "r = Some request" "online peer" by (auto simp: passed_over_def split: option.splits)
  let ?h = "request_id (nl_libra N) request" and ?n = "put_frame peer (frame N (NodeRequest request)) n"
  obtain f p where p: "(f, p) = node_add_future ?h (nd_processor n)" by (metis surj_pair)
  have sent: "send_channel_request N peer request n = (Inr f, future_timeout ?h (?n\<lparr>nd_processor := p\<rparr>))"
    using assms(2) by (simp add: send_channel_request_def act_bind_def send_open await_answer_def flip: p)
  have t: "nd_processor (future_timeout ?h (?n\<lparr>nd_processor := p\<rparr>)) = p" "nd_timeout (future_timeout ?h (?n\<lparr>nd_processor := p\<rparr>)) = nd_timeout n"
    by (simp_all add: future_timeout_def put_frame_def)
  show ?thesis
    using await_fails [OF assms(1) p] Inr r sent t
    by (auto simp: on_wallet_pending await_timer_def never_starts_def Let_def split: option.splits)
qed

lemma init_outcome:
  assumes "futures_inv (nd_processor n)" "nd_net_open n"
  shows "if list_all (passed_over N online (nd_wallet n)) peers then init_channels N online peers n = (Some (Inr ()), n)
    else never_starts n (fst (init_channels N online peers n))"
proof (induction peers)
  case (Cons peer peers)
  show ?case
  proof (cases "passed_over N online (nd_wallet n) peer")
    case True
    from init_passes [OF this] True Cons show ?thesis by (simp del: init_channels.simps)
  next
    case False
    with init_stops [OF assms this, of peers] show ?thesis by (simp del: init_channels.simps)
  qed
qed simp

section \<open>Properties\<close>

text \<open>C19. A node starts exactly when there is nothing to recover: no peer of its channels is connected and
  has a request under negotiation. Otherwise the request is sent again and its answer awaited before
  any loop runs that could take it: with a timeout the start ends in a panic, without one it waits for
  ever.\<close>

theorem recovery_blocks_start:
  assumes "futures_inv (nd_processor n)" "nd_net_open n" "\<not> wl_stopping (nd_wallet n)"
    and "fst (handle_get_all_channels (nd_wallet n)) = Inr peers"
  shows "(fst (start_server N online n) = Some (Inr ()) \<longleftrightarrow> (\<forall>peer \<in> set peers. passed_over N online (nd_wallet n) peer)) \<and>
    (fst (start_server N online n) = Some (Inr ()) \<or> fst (start_server N online n) = Some (Inl (Panic ''init node error'')) \<or>
     nd_timeout n = 0 \<and> fst (start_server N online n) = None)"
proof -
  have "handle_get_all_channels (nd_wallet n) = (Inr peers, nd_wallet n)"
    using assms(4) by (auto simp: handle_get_all_channels_def Let_def split: if_splits)
  then have "on_wallet (wallet_send handle_get_all_channels) n = (Inr peers, n)"
    using assms(3) by (simp add: on_wallet_def wallet_send_def)
  then have "node_init N online n = init_channels N online peers n" by (simp add: node_init_def)
  then show ?thesis
    using init_outcome [OF assms(1,2), of N online peers]
    by (cases "init_channels N online peers n")
       (auto simp: start_server_def never_starts_def list_all_iff split: if_splits option.split sum.split)
qed

definition sample_waiting_node :: "u64 \<Rightarrow> hash_value list node_state" where
  "sample_waiting_node timeout = node_new ((wallet_new [1] [1] [1] [] [])\<lparr>wl_enabled := True,
     wl_channels := [([9], sample_run [1] [MsgExecute OpOpen []])]\<rparr>) True timeout"

theorem recovery_blocks_start_witness:
  "fst (start_server (sample_node_lib sample_transfer) (\<lambda>_. True) (sample_waiting_node 10)) = Some (Inl (Panic ''init node error'')) \<and>
   fst (start_server (sample_node_lib sample_transfer) (\<lambda>_. False) (sample_waiting_node 10)) = Some (Inr ()) \<and>
   fst (start_server (sample_node_lib sample_transfer) (\<lambda>_. True) (sample_waiting_node 0)) \<noteq> Some (Inr ())"
proof -
  let ?N = "sample_node_lib sample_transfer"
  define w0 where "w0 = nd_wallet (sample_waiting_node 10)"
  have w: "nd_wallet (sample_waiting_node t) = w0" "futures_inv (nd_processor (sample_waiting_node t))" "nd_net_open (sample_waiting_node t)"
    "nd_timeout (sample_waiting_node t) = t" "\<not> wl_stopping w0" for t
    using futures_new by (simp_all add: sample_waiting_node_def node_new_def wallet_new_def w0_def)
  have "fst (handle_get_all_channels (nd_wallet (sample_waiting_node 10))) = Inr [[2]]"
    "(case fst (get_pending_txn_request sample_wallet_lib [2] (nd_wallet (sample_waiting_node 10))) of Inr (Some _) \<Rightarrow> True | _ \<Rightarrow> False)"
    by code_simp+
  then have all: "fst (handle_get_all_channels w0) = Inr [[2]]" and p: "passed_over ?N (\<lambda>_. b) w0 [2] = (\<not> b)" for b
    by (simp_all add: passed_over_def w0_def split: sum.splits option.splits)
  have r: "(fst (start_server ?N (\<lambda>_. b) (sample_waiting_node t)) = Some (Inr ()) \<longleftrightarrow> \<not> b) \<and>
    (fst (start_server ?N (\<lambda>_. b) (sample_waiting_node t)) = Some (Inr ()) \<or>
     fst (start_server ?N (\<lambda>_. b) (sample_waiting_node t)) = Some (Inl (Panic ''init node error'')) \<or>
     t = 0 \<and> fst (start_server ?N (\<lambda>_. b) (sample_waiting_node t)) = None)" for t b
    using recovery_blocks_start [of "sample_waiting_node t" "[[2]]" ?N "\<lambda>_. b"] w all p by (cases b; simp; blast)
  show ?thesis using r [of True 10] r [of False 10] r [of True 0] by (simp; blast)
qed

end
