(* ===== verification/Data_Stream.thy ===== *)
theory Data_Stream
  imports Channel_Types
begin

text \<open>
  Streams of the chain (\<open>sgwallet/src/data_stream.rs\<close>) and the queries they are made of
  (\<open>chain_watcher/txn_stream.rs\<close>, \<open>channel/channel_event_stream.rs\<close>, \<open>channel_event_watcher.rs\<close>). A stream keeps a
  page of numbered items; when the page is used up it asks for the next one.
\<close>

section \<open>The stream\<close>

datatype 'a query_result = QueryPending | QueryReady "chan_error + (u64 \<times> 'a) list"

text \<open>What one poll meets: whether the delay is over, the answers of the query, and whether the backoff
  gives another delay after so many since its last reset.\<close>

record 'a poll_env =
  pe_delay_over :: bool
  pe_query :: "u64 \<Rightarrow> u64 \<Rightarrow> 'a query_result"
  pe_backoff :: "nat \<Rightarrow> bool"

record 'a data_stream =
  start_number :: u64
  stream_limit :: u64
  stream_delay :: bool
  stream_backoff :: nat
  stream_cache :: "(u64 \<times> 'a) list"

datatype 'a stream_poll = StreamPending | StreamItem "chan_error + 'a"

definition data_stream_new :: "u64 \<Rightarrow> u64 \<Rightarrow> 'a data_stream" where
  "data_stream_new start limit =
     \<lparr>start_number = start, stream_limit = limit, stream_delay = False, stream_backoff = 0, stream_cache = []\<rparr>"

definition try_backoff :: "'a poll_env \<Rightarrow> 'a data_stream \<Rightarrow> 'a stream_poll \<times> 'a data_stream" where
  "try_backoff E s =
     (if pe_backoff E (stream_backoff s)
      then (StreamPending, s\<lparr>stream_delay := True, stream_backoff := Suc (stream_backoff s)\<rparr>)
      else (StreamItem (Inl (Bail ''backoff timout'')), s\<lparr>stream_backoff := Suc (stream_backoff s)\<rparr>))"

text \<open>The item with the start number leaves the page, and the start number goes up. \<open>None\<close>: it is not in
  the page.\<close>

definition take_cached :: "'a data_stream \<Rightarrow> ('a \<times> 'a data_stream) option" where
  "take_cached s =
     map_option (\<lambda>v. (v, s\<lparr>start_number := start_number s + 1, stream_cache := AList.delete (start_number s) (stream_cache s)\<rparr>))
       (map_of (stream_cache s) (start_number s))"

definition stream_poll_next :: "'a poll_env \<Rightarrow> 'a data_stream \<Rightarrow> (chan_error + 'a stream_poll) \<times> 'a data_stream" where
  "stream_poll_next E s =
     (case take_cached s of
        Some (v, s) \<Rightarrow> (Inr (StreamItem (Inr v)), s)
      | None \<Rightarrow>
          if stream_delay s \<and> \<not> pe_delay_over E then (Inr StreamPending, s)
          else (case pe_query E (start_number s) (stream_limit s) of
                  QueryPending \<Rightarrow> (Inr StreamPending, s)
                | QueryReady (Inl (Panic m)) \<Rightarrow> (Inl (Panic m), s)
                | QueryReady (Inl _) \<Rightarrow> map_prod Inr id (try_backoff E s)
                | QueryReady (Inr page) \<Rightarrow>
                    (let s = s\<lparr>stream_backoff := 0\<rparr>
                     in if page = [] then map_prod Inr id (try_backoff E s)
                        else (case take_cached (s\<lparr>stream_cache := page\<rparr>) of
                                Some (v, s) \<Rightarrow> (Inr (StreamItem (Inr v)), s)
                              | None \<Rightarrow> (Inl (Panic ''unreachable''), s\<lparr>stream_cache := page\<rparr>)))))"

text \<open>The items that a consumer sees in a sequence of polls. A panic ends the task of the consumer.\<close>

fun stream_run :: "'a poll_env list \<Rightarrow> 'a data_stream \<Rightarrow> (chan_error + (chan_error + 'a) list) \<times> 'a data_stream" where
  "stream_run [] s = (Inr [], s)"
| "stream_run (E # Es) s =
     (case stream_poll_next E s of
        (Inl e, s) \<Rightarrow> (Inl e, s)
      | (Inr StreamPending, s) \<Rightarrow> stream_run Es s
      | (Inr (StreamItem x), s) \<Rightarrow> (let (r, s) = stream_run Es s in (try_bind r (\<lambda>xs. Inr (x # xs)), s)))"

section \<open>Queries\<close>

text \<open>Numbered items, from a number on.\<close>

fun keyed :: "u64 \<Rightarrow> 'a list \<Rightarrow> (u64 \<times> 'a) list" where
  "keyed n [] = []"
| "keyed n (x # xs) = (n, x) # keyed (n + 1) xs"

record ('t, 'i, 'e) txn_with_info =
  tw_txn :: 't
  tw_info :: 'i
  tw_version :: u64
  tw_events :: "'e list"
  tw_block_height :: u64

text \<open>The requests of the chain client: transactions from a version on, with the version of the first one,
  their infos and the events; the account of the association as the chain has it, for a client that
  knows the given version; and the height written there.\<close>

record ('t, 'i, 'e) txn_service =
  get_transactions :: "u64 \<Rightarrow> u64 \<Rightarrow> chan_error + (u64 option \<times> 't list \<times> 'i list \<times> 'e list list option)"
  association_state :: "u64 \<Rightarrow> chan_error + bytes option"
  read_block_height :: "bytes \<Rightarrow> chan_error + u64 option"

definition get_block_hight :: "('t, 'i, 'e) txn_service \<Rightarrow> u64 \<Rightarrow> chan_error + u64" where
  "get_block_hight C known =
     try_bind (association_state C known) (\<lambda>blob.
     try_bind (ok_or blob (Bail ''association account not exists!'')) (\<lambda>b.
     try_bind (read_block_height C b) (\<lambda>h. ok_or h (Bail ''block meta resource should exists''))))"

fun collect_txns ::
  "('t, 'i, 'e) txn_service \<Rightarrow> u64 \<Rightarrow> (('t \<times> 'i) \<times> 'e list) list \<Rightarrow> (u64 \<times> ('t, 'i, 'e) txn_with_info) list \<Rightarrow>
     chan_error + (u64 \<times> ('t, 'i, 'e) txn_with_info) list" where
  "collect_txns C v [] c = Inr c"
| "collect_txns C v (((t, i), es) # rest) c =
     try_bind (get_block_hight C v) (\<lambda>h.
       collect_txns C (v + 1) rest
         (bt_insert v \<lparr>tw_txn = t, tw_info = i, tw_version = v, tw_events = es, tw_block_height = h\<rparr> c))"

definition txn_query ::
  "('t, 'i, 'e) txn_service \<Rightarrow> u64 \<Rightarrow> u64 \<Rightarrow> chan_error + (u64 \<times> ('t, 'i, 'e) txn_with_info) list" where
  "txn_query C version limit =
     try_bind (get_transactions C version limit) (\<lambda>(first, txns, infos, events).
       (case first of
          None \<Rightarrow> Inr []
        | Some v \<Rightarrow>
            (case events of
               None \<Rightarrow> Inl (Panic ''unwrap on None'')
             | Some es \<Rightarrow> collect_txns C v (zip (zip txns infos) es) [])))"

text \<open>Events come with their sequence numbers.\<close>

definition event_query ::
  "(u64 \<Rightarrow> u64 \<Rightarrow> chan_error + 'e list) \<Rightarrow> ('e \<Rightarrow> u64) \<Rightarrow> u64 \<Rightarrow> u64 \<Rightarrow> chan_error + (u64 \<times> 'e) list" where
  "event_query get_events seq version limit =
     try_bind (get_events version limit) (\<lambda>es. Inr (bt_of_list (map (\<lambda>e. (seq e, e)) es)))"

section \<open>The items come in order\<close>

text \<open>The chain only grows; \<open>full\<close> is what it has in the end. An honest answer is a part of it, from the
  number that was asked for. The items of an answer may carry more than the chain fixes; \<open>f\<close> is what
  it fixes.\<close>

definition honest :: "('a \<Rightarrow> 'b) \<Rightarrow> 'b list \<Rightarrow> 'a poll_env \<Rightarrow> bool" where
  "honest f full E \<longleftrightarrow> (\<forall>n l page. unat n \<le> length full \<longrightarrow> pe_query E n l = QueryReady (Inr page) \<longrightarrow>
     (\<exists>xs k. page = keyed n xs \<and> map f xs = take k (drop (unat n) full))) \<and>
     (\<forall>n l m. pe_query E n l \<noteq> QueryReady (Inl (Panic m)))"

lemma honest_page:
  "honest f full E \<Longrightarrow> unat n \<le> length full \<Longrightarrow> pe_query E n l = QueryReady (Inr page) \<Longrightarrow>
     \<exists>xs k. page = keyed n xs \<and> map f xs = take k (drop (unat n) full)"
  by (simp add: honest_def)

lemma honest_error: "honest f full E \<Longrightarrow> pe_query E n l = QueryReady (Inl e) \<Longrightarrow> e \<noteq> Panic m"
  by (auto simp: honest_def)

definition stream_ok :: "('a \<Rightarrow> 'b) \<Rightarrow> 'b list \<Rightarrow> 'a data_stream \<Rightarrow> bool" where
  "stream_ok f full s \<longleftrightarrow> unat (start_number s) \<le> length full \<and>
     (\<exists>xs k. stream_cache s = keyed (start_number s) xs \<and> map f xs = take k (drop (unat (start_number s)) full))"

lemma unat_Suc_word: "unat n < 2 ^ 64 - 1 \<Longrightarrow> unat (n + 1 :: u64) = Suc (unat n)"
  by (simp add: unat_word_ariths)

lemma keyed_keys: "unat n + length xs < 2 ^ 64 \<Longrightarrow> m \<in> fst ` set (keyed n xs) \<Longrightarrow> unat n \<le> unat m \<and> unat m < unat n + length xs"
proof (induction n xs rule: keyed.induct)
  case (2 n x xs)
  have "unat (n + 1) = Suc (unat n)" by (rule unat_Suc_word) (use "2.prems" in simp)
  with 2 show ?case by (cases "m = n") auto
qed simp

lemma keyed_wf: "unat n + length xs < 2 ^ 64 \<Longrightarrow> bt_wf (keyed n xs)"
proof (induction n xs rule: keyed.induct)
  case (2 n x xs)
  have s: "unat (n + 1) = Suc (unat n)" by (rule unat_Suc_word) (use "2.prems" in simp)
  have "n < k" if "k \<in> fst ` set (keyed (n + 1) xs)" for k
    using keyed_keys [OF _ that] "2.prems" s by (simp add: word_less_nat_alt)
  with 2 s show ?case by simp
qed simp

lemma take_keyed:
  assumes "unat n + length xs < 2 ^ 64"
  shows "map_of (keyed n xs) n = (case xs of [] \<Rightarrow> None | x # _ \<Rightarrow> Some x)" "AList.delete n (keyed n xs) = keyed (n + 1) (tl xs)"
proof -
  show "map_of (keyed n xs) n = (case xs of [] \<Rightarrow> None | x # _ \<Rightarrow> Some x)" by (cases xs) simp_all
  show "AList.delete n (keyed n xs) = keyed (n + 1) (tl xs)"
  proof (cases xs)
    case (Cons x ys)
    then have "unat (n + 1) = Suc (unat n)" using assms by (intro unat_Suc_word) simp
    then have "n \<notin> fst ` set (keyed (n + 1) ys)" using keyed_keys [of "n + 1" ys n] assms Cons by auto
    with Cons show ?thesis by (force simp: AList.delete_eq filter_id_conv)
  qed simp
qed

text \<open>With a page from the start number on, the next item of the chain is taken, or the page is empty.\<close>

lemma take_page:
  assumes "length full < 2 ^ 64" "unat (start_number s) \<le> length full"
    and "stream_cache s = keyed (start_number s) xs" "map f xs = take k (drop (unat (start_number s)) full)"
  shows "(take_cached s = None \<and> stream_cache s = []) \<or>
    (\<exists>v s'. take_cached s = Some (v, s') \<and> f v = full ! unat (start_number s) \<and> unat (start_number s) < length full \<and>
       start_number s' = start_number s + 1 \<and> unat (start_number s') = Suc (unat (start_number s)) \<and> stream_ok f full s')"
proof (cases xs)
  case Nil
  then show ?thesis using assms(3) by (simp add: take_cached_def)
next
  case (Cons x ys)
  let ?n = "start_number s" and ?page = "take k (drop (unat (start_number s)) full)"
  have "length xs = length ?page" using assms(4) by (metis length_map)
  then have len: "unat ?n + length xs < 2 ^ 64" using assms(1,2) by simp
  have "?page \<noteq> []" using Cons by (simp flip: assms(4))
  then have n: "unat ?n < length full" "0 < k" by simp_all
  have "hd ?page = full ! unat ?n" using n by (simp add: hd_drop_conv_nth)
  then have x: "f x = full ! unat ?n" unfolding assms(4) [symmetric] Cons by simp
  have suc: "unat (?n + 1) = Suc (unat ?n)" using n assms(1) by (intro unat_Suc_word) simp
  have "tl ?page = take (k - 1) (drop (Suc (unat ?n)) full)" by (simp add: tl_take tl_drop drop_Suc)
  then have "map f ys = take (k - 1) (drop (Suc (unat ?n)) full)" unfolding assms(4) [symmetric] Cons by simp
  then have "stream_ok f full (s\<lparr>start_number := ?n + 1, stream_cache := keyed (?n + 1) ys\<rparr>)"
    using n(1) suc by (auto simp: stream_ok_def)
  then show ?thesis
    using take_keyed [OF len] Cons n x suc assms(3) by (simp add: take_cached_def)
qed

lemma poll_in_order:
  assumes "length full < 2 ^ 64" "honest f full E" "stream_ok f full s"
  shows "\<exists>p s'. stream_poll_next E s = (Inr p, s') \<and> stream_ok f full s' \<and>
    (case p of
       StreamItem (Inr v) \<Rightarrow> unat (start_number s) < length full \<and> f v = full ! unat (start_number s) \<and>
         unat (start_number s') = Suc (unat (start_number s))
     | _ \<Rightarrow> start_number s' = start_number s)"
proof -
  have ok: "unat (start_number s) \<le> length full" using assms(3) by (simp add: stream_ok_def)
  obtain xs k where k: "stream_cache s = keyed (start_number s) xs" "map f xs = take k (drop (unat (start_number s)) full)"
    using assms(3) by (auto simp: stream_ok_def)
  have bo: "\<exists>p s'. map_prod Inr id (try_backoff E t) = (Inr p, s') \<and> stream_ok f full s' \<and>
      (case p of
         StreamItem (Inr v) \<Rightarrow> unat (start_number s) < length full \<and> f v = full ! unat (start_number s) \<and>
           unat (start_number s') = Suc (unat (start_number s))
       | _ \<Rightarrow> start_number s' = start_number s)"
    if "stream_ok f full t" "start_number t = start_number s" for t using that by (simp add: try_backoff_def stream_ok_def)
  consider (cached) v s' where "take_cached s = Some (v, s')" "f v = full ! unat (start_number s)" "unat (start_number s) < length full"
      "unat (start_number s') = Suc (unat (start_number s))" "stream_ok f full s'"
    | (empty) "take_cached s = None" "stream_cache s = []"
    using take_page [OF assms(1) ok k] by auto
  then show ?thesis
  proof cases
    case cached
    then show ?thesis by (simp add: stream_poll_next_def)
  next
    case empty
    show ?thesis
    proof (cases "stream_delay s \<and> \<not> pe_delay_over E")
      case True
      with empty assms(3) show ?thesis by (simp add: stream_poll_next_def)
    next
      case ask: False
      show ?thesis
      proof (cases "pe_query E (start_number s) (stream_limit s)")
        case QueryPending
        with empty ask assms(3) show ?thesis by (auto simp: stream_poll_next_def)
      next
        case (QueryReady r)
        show ?thesis
        proof (cases r)
          case (Inl e)
          then have q: "pe_query E (start_number s) (stream_limit s) = QueryReady (Inl e)" using QueryReady by simp
          then have "stream_poll_next E s = map_prod Inr id (try_backoff E s)"
            using honest_error [OF assms(2) q] empty ask by (cases e) (auto simp: stream_poll_next_def)
          with bo [OF assms(3) refl] show ?thesis by simp
        next
          case (Inr page)
          let ?t = "s\<lparr>stream_backoff := 0\<rparr>"
          obtain ys j where page: "page = keyed (start_number s) ys" "map f ys = take j (drop (unat (start_number s)) full)"
            using honest_page [OF assms(2) ok, of "stream_limit s" page] QueryReady Inr by auto
          have t: "stream_ok f full ?t" "start_number ?t = start_number s" using assms(3) by (simp_all add: stream_ok_def)
          show ?thesis
          proof (cases "page = []")
            case True
            with empty ask QueryReady Inr assms(3) bo [OF t] show ?thesis by (simp add: stream_poll_next_def Let_def)
          next
            case False
            with take_page [of full "?t\<lparr>stream_cache := page\<rparr>" ys f j] assms(1) ok page
            show ?thesis using empty ask QueryReady Inr by (auto simp: stream_poll_next_def Let_def)
          qed
        qed
      qed
    qed
  qed
qed

definition oks :: "('e + 'a) list \<Rightarrow> 'a list" where
  "oks xs = concat (map (\<lambda>x. case x of Inl _ \<Rightarrow> [] | Inr v \<Rightarrow> [v]) xs)"

lemma oks_simps [simp]: "oks [] = []" "oks (Inl e # xs) = oks xs" "oks (Inr v # xs) = v # oks xs"
  by (simp_all add: oks_def)

lemma run_in_order:
  assumes "length full < 2 ^ 64" "\<forall>E \<in> set Es. honest f full E" "stream_ok f full s"
  shows "\<exists>xs s'. stream_run Es s = (Inr xs, s') \<and> stream_ok f full s' \<and> unat (start_number s') = unat (start_number s) + length (oks xs) \<and>
    map f (oks xs) = take (length (oks xs)) (drop (unat (start_number s)) full)"
  using assms(2,3)
proof (induction Es arbitrary: s)
  case Nil
  then show ?case by simp
next
  case (Cons E Es)
  obtain p s1 where p: "stream_poll_next E s = (Inr p, s1)" "stream_ok f full s1"
    "case p of
       StreamItem (Inr v) \<Rightarrow> unat (start_number s) < length full \<and> f v = full ! unat (start_number s) \<and>
         unat (start_number s1) = Suc (unat (start_number s))
     | _ \<Rightarrow> start_number s1 = start_number s"
    using poll_in_order [OF assms(1) _ Cons.prems(2), of E] Cons.prems(1) by auto
  obtain xs s2 where r: "stream_run Es s1 = (Inr xs, s2)" "stream_ok f full s2" "unat (start_number s2) = unat (start_number s1) + length (oks xs)"
    "map f (oks xs) = take (length (oks xs)) (drop (unat (start_number s1)) full)"
    using Cons.IH [OF _ p(2)] Cons.prems(1) by auto
  show ?case
  proof (cases p)
    case StreamPending
    with p r show ?thesis by simp
  next
    case (StreamItem x)
    show ?thesis
    proof (cases x)
      case (Inl e)
      with StreamItem p r show ?thesis by simp
    next
      case (Inr v)
      with StreamItem p r have n: "unat (start_number s) < length full" "f v = full ! unat (start_number s)"
        "map f (oks xs) = take (length (oks xs)) (drop (Suc (unat (start_number s))) full)" "unat (start_number s2) = Suc (unat (start_number s) + length (oks xs))"
        by simp_all
      have "f v # map f (oks xs) = take (Suc (length (oks xs))) (drop (unat (start_number s)) full)"
        using n by (metis Cons_nth_drop_Suc take_Suc_Cons)
      then have "map f (oks (x # xs)) = take (length (oks (x # xs))) (drop (unat (start_number s)) full)"
        unfolding Inr oks_simps length_Cons list.map .
      moreover have "stream_run (E # Es) s = (Inr (x # xs), s2)" using StreamItem p(1) r(1) by simp
      moreover have "unat (start_number s2) = unat (start_number s) + length (oks (x # xs))" using n(4) Inr by simp
      ultimately show ?thesis using r(2) by blast
    qed
  qed
qed

lemma stream_ok_new: "unat start \<le> length full \<Longrightarrow> stream_ok f full (data_stream_new start limit)"
  by (simp add: stream_ok_def data_stream_new_def, intro exI [of _ "[]"]) (auto intro: exI [of _ 0])

text \<open>When the backoff has run out and the query fails, a poll gives an error at once and leaves the stream
  as it is but for the count: the next poll does the same. Nothing delays it.\<close>

lemma failing_stream_spins:
  assumes "stream_cache s = []" "stream_delay s \<longrightarrow> pe_delay_over E" "pe_query E (start_number s) (stream_limit s) = QueryReady (Inl (Bail e))"
    and "\<not> pe_backoff E (stream_backoff s)"
  shows "stream_poll_next E s = (Inr (StreamItem (Inl (Bail ''backoff timout''))), s\<lparr>stream_backoff := Suc (stream_backoff s)\<rparr>)"
  using assms by (simp add: stream_poll_next_def take_cached_def try_backoff_def)

section \<open>The transactions of the chain\<close>

definition no_panic :: "('a \<Rightarrow> chan_error + 'b) \<Rightarrow> bool" where
  "no_panic f \<longleftrightarrow> (\<forall>x m. f x \<noteq> Inl (Panic m))"

lemma no_panicD: "no_panic f \<Longrightarrow> f x \<noteq> Inl (Panic m)"
  by (simp add: no_panic_def)

lemma try_bind_no_panic: "x \<noteq> Inl (Panic m) \<Longrightarrow> (\<And>y. x = Inr y \<Longrightarrow> f y \<noteq> Inl (Panic m)) \<Longrightarrow> try_bind x f \<noteq> Inl (Panic m)"
  by (cases x) simp_all

text \<open>The service answers with the transactions from the version on, as many as there are up to some
  number, and the version of the first one unless there is none.\<close>

definition service_ok :: "('t \<times> 'i \<times> 'e list) list \<Rightarrow> ('t, 'i, 'e) txn_service \<Rightarrow> bool" where
  "service_ok full C \<longleftrightarrow> no_panic (\<lambda>(n, l). get_transactions C n l) \<and> no_panic (association_state C) \<and> no_panic (read_block_height C) \<and>
     (\<forall>n l first ts infos es. get_transactions C n l = Inr (first, ts, infos, es) \<longrightarrow>
        (\<exists>k. (first, ts, infos, es) = (let xs = take k (drop (unat n) full)
           in (if xs = [] then None else Some n, map fst xs, map (fst \<circ> snd) xs, Some (map (snd \<circ> snd) xs)))))"

text \<open>What the chain fixes of an item: all but the height.\<close>

definition on_chain :: "('t, 'i, 'e) txn_with_info \<Rightarrow> u64 \<times> 't \<times> 'i \<times> 'e list" where
  "on_chain x = (tw_version x, tw_txn x, tw_info x, tw_events x)"

lemma collect_keyed:
  assumes "unat n + length xs < 2 ^ 64" "\<And>k. k \<in> fst ` set c \<Longrightarrow> k < n"
    and "collect_txns C n (zip (zip (map fst xs) (map (fst \<circ> snd) xs)) (map (snd \<circ> snd) xs)) c = Inr page"
  shows "\<exists>ys. page = c @ keyed n ys \<and> map on_chain ys = keyed n xs"
  using assms
proof (induction xs arbitrary: n c)
  case (Cons x xs)
  obtain t i es where x: "x = (t, i, es)" by (cases x) auto
  obtain h where h: "get_block_hight C n = Inr h" using Cons.prems(3) x by (auto simp: try_bind_Inr_iff)
  let ?y = "\<lparr>tw_txn = t, tw_info = i, tw_version = n, tw_events = es, tw_block_height = h\<rparr>"
  have s: "unat (n + 1) = Suc (unat n)" by (rule unat_Suc_word) (use Cons.prems(1) in simp)
  then have "n < n + 1" by (simp add: word_less_nat_alt)
  then have "k < n + 1" if "k \<in> fst ` set (c @ [(n, ?y)])" for k using Cons.prems(2) that by fastforce
  moreover have "collect_txns C (n + 1) (zip (zip (map fst xs) (map (fst \<circ> snd) xs)) (map (snd \<circ> snd) xs)) (c @ [(n, ?y)]) = Inr page"
    using Cons.prems(2,3) h x by (simp add: bt_insert_last o_def)
  ultimately obtain ys where ys: "page = (c @ [(n, ?y)]) @ keyed (n + 1) ys" "map on_chain ys = keyed (n + 1) xs"
    using Cons.IH [of "n + 1" "c @ [(n, ?y)]"] Cons.prems(1) s by (auto simp: o_def)
  moreover have "on_chain ?y = (n, x)" using x by (simp add: on_chain_def)
  ultimately show ?case by (intro exI [of _ "?y # ys"]) simp
qed simp

lemma keyed_simps: "length (keyed n xs) = length xs" "take k (keyed n xs) = keyed n (take k xs)"
  "drop k (keyed n xs) = keyed (n + of_nat k) (drop k xs)"
proof -
  show "length (keyed n xs) = length xs" by (induction n xs rule: keyed.induct) simp_all
  show "take k (keyed n xs) = keyed n (take k xs)" by (induction n xs arbitrary: k rule: keyed.induct) (auto simp: take_Cons split: nat.split)
  show "drop k (keyed n xs) = keyed (n + of_nat k) (drop k xs)"
    by (induction n xs arbitrary: k rule: keyed.induct) (auto simp: drop_Cons add.assoc split: nat.split)
qed

lemma txn_query_honest:
  assumes "service_ok full C" "length full < 2 ^ 64" "unat n \<le> length full" "txn_query C n l = Inr page"
  shows "\<exists>ys k. page = keyed n ys \<and> map on_chain ys = take k (drop (unat n) (keyed 0 full))"
proof -
  obtain first ts infos es where g: "get_transactions C n l = Inr (first, ts, infos, es)"
    using assms(4) by (auto simp: txn_query_def try_bind_Inr_iff)
  with assms(1) obtain k where k: "(first, ts, infos, es) = (let xs = take k (drop (unat n) full)
      in (if xs = [] then None else Some n, map fst xs, map (fst \<circ> snd) xs, Some (map (snd \<circ> snd) xs)))"
    unfolding service_ok_def by blast
  let ?xs = "take k (drop (unat n) full)"
  have "\<exists>ys. page = keyed n ys \<and> map on_chain ys = keyed n ?xs"
  proof (cases "?xs = []")
    case True
    then have "page = []" using k g assms(4) by (simp add: txn_query_def Let_def del: take_eq_Nil)
    then show ?thesis unfolding True by (intro exI [of _ "[]"]) simp
  next
    case False
    then have "collect_txns C n (zip (zip (map fst ?xs) (map (fst \<circ> snd) ?xs)) (map (snd \<circ> snd) ?xs)) [] = Inr page"
      using k g assms(4) by (simp add: txn_query_def Let_def del: take_eq_Nil)
    from collect_keyed [OF _ _ this] assms(2,3) show ?thesis by simp
  qed
  then show ?thesis by (auto simp: keyed_simps)
qed

lemma block_hight_no_panic:
  assumes "no_panic (association_state C)" "no_panic (read_block_height C)"
  shows "get_block_hight C v \<noteq> Inl (Panic m)"
  using no_panicD [OF assms(1), of v] no_panicD [OF assms(2)]
  by (auto simp: get_block_hight_def try_bind_Inl_iff ok_or_def split: option.splits)

lemma collect_no_panic:
  assumes "no_panic (association_state C)" "no_panic (read_block_height C)"
  shows "collect_txns C n xs c \<noteq> Inl (Panic m)"
proof (induction xs arbitrary: n c)
  case (Cons x xs)
  obtain t i es where "x = ((t, i), es)" by (metis prod.exhaust)
  with Cons.IH block_hight_no_panic [OF assms] show ?case by (simp add: try_bind_Inl_iff)
qed simp

lemma txn_query_no_panic:
  assumes "service_ok full C"
  shows "txn_query C n l \<noteq> Inl (Panic m)"
  unfolding txn_query_def
proof (rule try_bind_no_panic)
  show "get_transactions C n l \<noteq> Inl (Panic m)" using assms by (simp add: service_ok_def no_panic_def)
  fix y
  assume y: "get_transactions C n l = Inr y"
  obtain first ts infos es where [simp]: "y = (first, ts, infos, es)" by (cases y) auto
  have "es \<noteq> None" using assms y unfolding service_ok_def by (fastforce simp: Let_def)
  then obtain evs where [simp]: "es = Some evs" by auto
  show "(case y of (first, txns, infos, events) \<Rightarrow> (case first of None \<Rightarrow> Inr [] | Some v \<Rightarrow>
      (case events of None \<Rightarrow> Inl (Panic ''unwrap on None'') | Some es \<Rightarrow> collect_txns C v (zip (zip txns infos) es) []))) \<noteq> Inl (Panic m)"
    using assms collect_no_panic [of C] by (auto simp: service_ok_def split: option.split)
qed

end
