(* ===== verification/Chain_Watcher.thy ===== *)
theory Chain_Watcher
  imports Data_Stream Router_Stats
begin

text \<open>
  The watcher of the chain (\<open>sgwallet/src/chain_watcher/mod.rs\<close>): an actor that hands the transactions of
  the stream to those who asked for them. A tag names an interest and the receiver of its channel; the
  inbox is everything that was sent to it, and the count how much of that has been read.
\<close>

section \<open>State\<close>

datatype trans = Oneshot | Mpsc

record 't down_stream =
  ds_interest :: "'t \<Rightarrow> bool"
  ds_sink :: trans

record 't chain_watcher =
  down_streams :: "(nat \<times> 't down_stream) list"
  cw_inbox :: "(nat \<times> 't list) list"
  cw_read :: "(nat \<times> nat) list"
  cw_dropped :: "nat list"

definition chain_watcher_new :: "'t chain_watcher" where
  "chain_watcher_new = \<lparr>down_streams = [], cw_inbox = [], cw_read = [], cw_dropped = []\<rparr>"

definition received :: "nat \<Rightarrow> 't chain_watcher \<Rightarrow> 't list" where
  "received tag w = (case map_of (cw_inbox w) tag of None \<Rightarrow> [] | Some ts \<Rightarrow> ts)"

definition read_count :: "nat \<Rightarrow> 't chain_watcher \<Rightarrow> nat" where
  "read_count tag w = (case map_of (cw_read w) tag of None \<Rightarrow> 0 | Some n \<Rightarrow> n)"

definition is_closed :: "nat \<Rightarrow> 't chain_watcher \<Rightarrow> bool" where
  "is_closed tag w \<longleftrightarrow> tag \<in> set (cw_dropped w)"

text \<open>A bounded channel holds its buffer of 1024 and one message of its sender.\<close>

definition channel_full :: "nat \<Rightarrow> 't chain_watcher \<Rightarrow> bool" where
  "channel_full tag w \<longleftrightarrow> length (received tag w) - read_count tag w \<ge> 1025"

definition post :: "nat \<Rightarrow> 't \<Rightarrow> 't chain_watcher \<Rightarrow> 't chain_watcher" where
  "post tag t w = w\<lparr>cw_inbox := AList.update tag (received tag w @ [t]) (cw_inbox w)\<rparr>"

section \<open>Messages\<close>

definition add_interest :: "nat \<Rightarrow> ('t \<Rightarrow> bool) \<Rightarrow> trans \<Rightarrow> 't chain_watcher \<Rightarrow> bool \<times> 't chain_watcher" where
  "add_interest tag i k w =
     (if map_of (down_streams w) tag \<noteq> None \<and> \<not> is_closed tag w then (False, w)
      else (True, w\<lparr>down_streams := AList.update tag \<lparr>ds_interest = i, ds_sink = k\<rparr> (down_streams w),
                    cw_inbox := AList.update tag [] (cw_inbox w), cw_read := AList.update tag 0 (cw_read w),
                    cw_dropped := removeAll tag (cw_dropped w)\<rparr>))"

definition cleanup :: "'t chain_watcher \<Rightarrow> 't chain_watcher" where
  "cleanup w = w\<lparr>down_streams := filter (\<lambda>(tag, _). \<not> is_closed tag w) (down_streams w)\<rparr>"

text \<open>The loop over the interested streams. An interest of one transaction is removed with its answer;
  another one is put back unless its receiver is gone. \<open>None\<close>: the watcher waits for room in a channel.\<close>

fun deliver :: "'t \<Rightarrow> nat list \<Rightarrow> 't chain_watcher \<Rightarrow> 't chain_watcher awaited" where
  "deliver t [] w = Some (Inr w)"
| "deliver t (tag # tags) w =
     (case map_of (down_streams w) tag of
        None \<Rightarrow> Some (Inl (Panic ''down stream should exists''))
      | Some d \<Rightarrow>
          (let w' = w\<lparr>down_streams := AList.delete tag (down_streams w)\<rparr>
           in case ds_sink d of
                Oneshot \<Rightarrow> deliver t tags (if is_closed tag w then w' else post tag t w')
              | Mpsc \<Rightarrow>
                  if is_closed tag w then deliver t tags w'
                  else if channel_full tag w then None
                  else deliver t tags ((post tag t w')\<lparr>down_streams := AList.update tag d (down_streams w')\<rparr>)))"

definition handle_txn :: "chan_error + 't \<Rightarrow> 't chain_watcher \<Rightarrow> 't chain_watcher awaited" where
  "handle_txn txn w =
     (case txn of
        Inl _ \<Rightarrow> Some (Inr w)
      | Inr t \<Rightarrow> deliver t (map fst (filter (\<lambda>(_, d). ds_interest d t) (down_streams w))) w)"

datatype 't watch_event =
    AddInterest nat "'t \<Rightarrow> bool" trans
  | Cleanup
  | NewTxn "chan_error + 't"
  | ReceiverDropped nat
  | ReceiverRead nat

fun watch_step :: "'t watch_event \<Rightarrow> 't chain_watcher \<Rightarrow> 't chain_watcher awaited" where
  "watch_step (AddInterest tag i k) w = Some (Inr (snd (add_interest tag i k w)))"
| "watch_step Cleanup w = Some (Inr (cleanup w))"
| "watch_step (NewTxn txn) w = handle_txn txn w"
| "watch_step (ReceiverDropped tag) w = Some (Inr (w\<lparr>cw_dropped := tag # cw_dropped w\<rparr>))"
| "watch_step (ReceiverRead tag) w =
     Some (Inr (if read_count tag w < length (received tag w) then w\<lparr>cw_read := AList.update tag (Suc (read_count tag w)) (cw_read w)\<rparr>
                else w))"

fun watch_run :: "'t watch_event list \<Rightarrow> 't chain_watcher \<Rightarrow> 't chain_watcher awaited" where
  "watch_run [] w = Some (Inr w)"
| "watch_run (e # es) w =
     (case watch_step e w of
        Some (Inr w) \<Rightarrow> watch_run es w
      | r \<Rightarrow> r)"

text \<open>The handle adds an interest under a new tag.\<close>

definition add_interest_with :: "nat \<Rightarrow> ('t \<Rightarrow> bool) \<Rightarrow> trans \<Rightarrow> 't chain_watcher \<Rightarrow> (chan_error + unit) \<times> 't chain_watcher" where
  "add_interest_with tag i k w =
     (let (succ, w) = add_interest tag i k w
      in (if succ then Inr () else Inl (Bail ''an interest with same tag already exists''), w))"

section \<open>Delivery\<close>

definition watcher_inv :: "'t chain_watcher \<Rightarrow> bool" where
  "watcher_inv w \<longleftrightarrow> distinct (map fst (down_streams w))"

lemma post_simps [simp]: "down_streams (post tag t w) = down_streams w" "cw_dropped (post tag t w) = cw_dropped w"
  "received tag' (post tag t w) = (if tag' = tag then received tag w @ [t] else received tag' w)"
  "is_closed tag' (post tag t w) = is_closed tag' w"
  by (simp_all add: post_def received_def is_closed_def)

lemma streams_simps [simp]: "received tag (w\<lparr>down_streams := x\<rparr>) = received tag w" "is_closed tag (w\<lparr>down_streams := x\<rparr>) = is_closed tag w"
  "post tag t (w\<lparr>down_streams := x\<rparr>) = (post tag t w)\<lparr>down_streams := x\<rparr>"
  by (simp_all add: received_def is_closed_def post_def)

text \<open>What the loop does to one tag.\<close>

lemma deliver_effect:
  assumes "distinct tags" "watcher_inv w" "\<forall>tag \<in> set tags. map_of (down_streams w) tag \<noteq> None"
  shows "deliver t tags w = None \<or> (\<exists>w'. deliver t tags w = Some (Inr w') \<and> watcher_inv w' \<and> cw_dropped w' = cw_dropped w \<and>
      (\<forall>tag. tag \<notin> set tags \<longrightarrow> map_of (down_streams w') tag = map_of (down_streams w) tag \<and> received tag w' = received tag w) \<and>
      (\<forall>tag \<in> set tags. \<not> is_closed tag w \<longrightarrow> received tag w' = received tag w @ [t] \<and>
         map_of (down_streams w') tag = (if map_option ds_sink (map_of (down_streams w) tag) = Some Oneshot then None else map_of (down_streams w) tag)))"
  using assms
proof (induction tags arbitrary: w)
  case (Cons a tags)
  obtain d where d: "map_of (down_streams w) a = Some d" using Cons.prems(3) by auto
  let ?w1 = "w\<lparr>down_streams := AList.delete a (down_streams w)\<rparr>"
  define w2 where "w2 = (if is_closed a w then ?w1
    else if ds_sink d = Oneshot then post a t ?w1 else (post a t ?w1)\<lparr>down_streams := AList.update a d (down_streams ?w1)\<rparr>)"
  have eq: "deliver t (a # tags) w = (if ds_sink d = Mpsc \<and> \<not> is_closed a w \<and> channel_full a w then None else deliver t tags w2)"
    using d by (cases "ds_sink d") (simp_all add: w2_def Let_def)
  have w2: "watcher_inv w2" "cw_dropped w2 = cw_dropped w"
    "tag \<noteq> a \<Longrightarrow> map_of (down_streams w2) tag = map_of (down_streams w) tag \<and> received tag w2 = received tag w"
    "\<not> is_closed a w \<Longrightarrow> received a w2 = received a w @ [t] \<and> map_of (down_streams w2) a = (if ds_sink d = Oneshot then None else Some d)" for tag
    using Cons.prems(2) by (simp_all add: w2_def watcher_inv_def distinct_delete distinct_update AList.delete_conv')
  have closed: "is_closed tag w2 = is_closed tag w" for tag using w2(2) by (simp add: is_closed_def)
  have "deliver t tags w2 = None \<or> (\<exists>w'. deliver t tags w2 = Some (Inr w') \<and> watcher_inv w' \<and> cw_dropped w' = cw_dropped w2 \<and>
      (\<forall>tag. tag \<notin> set tags \<longrightarrow> map_of (down_streams w') tag = map_of (down_streams w2) tag \<and> received tag w' = received tag w2) \<and>
      (\<forall>tag \<in> set tags. \<not> is_closed tag w2 \<longrightarrow> received tag w' = received tag w2 @ [t] \<and>
         map_of (down_streams w') tag = (if map_option ds_sink (map_of (down_streams w2) tag) = Some Oneshot then None else map_of (down_streams w2) tag)))"
  proof (rule Cons.IH [OF _ w2(1)])
    show "distinct tags" using Cons.prems(1) by simp
    show "\<forall>tag \<in> set tags. map_of (down_streams w2) tag \<noteq> None" using Cons.prems(1,3) w2(3) by (metis distinct.simps(2) list.set_intros(2))
  qed
  then show ?case
  proof (elim disjE exE conjE)
    fix w'
    assume r: "deliver t tags w2 = Some (Inr w')" "watcher_inv w'" "cw_dropped w' = cw_dropped w2"
      and out: "\<forall>tag. tag \<notin> set tags \<longrightarrow> map_of (down_streams w') tag = map_of (down_streams w2) tag \<and> received tag w' = received tag w2"
      and inn: "\<forall>tag \<in> set tags. \<not> is_closed tag w2 \<longrightarrow> received tag w' = received tag w2 @ [t] \<and>
         map_of (down_streams w') tag = (if map_option ds_sink (map_of (down_streams w2) tag) = Some Oneshot then None else map_of (down_streams w2) tag)"
    have a: "a \<notin> set tags" using Cons.prems(1) by simp
    have other: "tag \<noteq> a" if "tag \<in> set tags" for tag using a that by auto
    show ?case
      unfolding eq using r w2 out inn a other closed d by (simp; blast)
  qed (simp del: deliver.simps add: eq)
qed simp

text \<open>The state of one interest after the transactions of a log: everything it asked for has arrived, and
  an interest of one transaction is gone with its answer.\<close>

definition served :: "nat \<Rightarrow> ('t \<Rightarrow> bool) \<Rightarrow> trans \<Rightarrow> 't list \<Rightarrow> 't chain_watcher \<Rightarrow> bool" where
  "served tag i k log w \<longleftrightarrow> watcher_inv w \<and> \<not> is_closed tag w \<and>
     (case k of
        Mpsc \<Rightarrow> map_of (down_streams w) tag = Some \<lparr>ds_interest = i, ds_sink = Mpsc\<rparr> \<and> received tag w = filter i log
      | Oneshot \<Rightarrow>
          map_of (down_streams w) tag = (if filter i log = [] then Some \<lparr>ds_interest = i, ds_sink = Oneshot\<rparr> else None) \<and>
          received tag w = take 1 (filter i log))"

lemma served_txn:
  assumes "served tag i k log w"
  shows "handle_txn x w = None \<or> (\<exists>w'. handle_txn x w = Some (Inr w') \<and> served tag i k (log @ oks [x]) w')"
proof (cases x)
  case (Inr t)
  let ?tags = "map fst (filter (\<lambda>(_, d). ds_interest d t) (down_streams w))"
  have inv: "watcher_inv w" and opn: "\<not> is_closed tag w" using assms by (simp_all add: served_def)
  have d: "distinct ?tags" using inv by (simp add: watcher_inv_def distinct_map_filter)
  have tags: "a \<in> set ?tags \<longleftrightarrow> (\<exists>d. map_of (down_streams w) a = Some d \<and> ds_interest d t)" for a
    using inv by (force simp: watcher_inv_def)
  have "deliver t ?tags w = None \<or> (\<exists>w'. deliver t ?tags w = Some (Inr w') \<and> watcher_inv w' \<and> cw_dropped w' = cw_dropped w \<and>
      (\<forall>a. a \<notin> set ?tags \<longrightarrow> map_of (down_streams w') a = map_of (down_streams w) a \<and> received a w' = received a w) \<and>
      (\<forall>a \<in> set ?tags. \<not> is_closed a w \<longrightarrow> received a w' = received a w @ [t] \<and>
         map_of (down_streams w') a = (if map_option ds_sink (map_of (down_streams w) a) = Some Oneshot then None else map_of (down_streams w) a)))"
    by (rule deliver_effect [OF d inv]) (use tags in blast)
  moreover have "served tag i k (log @ [t]) w'"
    if r: "watcher_inv w'" "cw_dropped w' = cw_dropped w"
      and out: "\<forall>a. a \<notin> set ?tags \<longrightarrow> map_of (down_streams w') a = map_of (down_streams w) a \<and> received a w' = received a w"
      and inn: "\<forall>a \<in> set ?tags. \<not> is_closed a w \<longrightarrow> received a w' = received a w @ [t] \<and>
         map_of (down_streams w') a = (if map_option ds_sink (map_of (down_streams w) a) = Some Oneshot then None else map_of (down_streams w) a)"
    for w'
  proof -
    have c: "\<not> is_closed tag w'" using r(2) opn by (simp add: is_closed_def)
    have e: "tag \<notin> set ?tags \<Longrightarrow> map_of (down_streams w') tag = map_of (down_streams w) tag \<and> received tag w' = received tag w"
      "tag \<in> set ?tags \<Longrightarrow> received tag w' = received tag w @ [t] \<and>
         map_of (down_streams w') tag = (if map_option ds_sink (map_of (down_streams w) tag) = Some Oneshot then None else map_of (down_streams w) tag)"
      using out inn opn by blast+
    show ?thesis
    proof (cases "tag \<in> set ?tags")
      case True
      with tags obtain ds where "map_of (down_streams w) tag = Some ds" "ds_interest ds t" by blast
      with e(2) [OF True] assms r(1) c show ?thesis by (cases k) (auto simp: served_def split: if_splits)
    next
      case False
      with tags [of tag] e(1) [OF False] assms r(1) c show ?thesis
        by (cases k; cases "filter i log") (auto simp: served_def split: if_splits)
    qed
  qed
  ultimately show ?thesis using Inr unfolding handle_txn_def by auto
qed (use assms in \<open>simp add: handle_txn_def\<close>)

fun leaves_alone :: "nat \<Rightarrow> 't watch_event \<Rightarrow> bool" where
  "leaves_alone tag (AddInterest a _ _) = (a \<noteq> tag)"
| "leaves_alone tag (ReceiverDropped a) = (a \<noteq> tag)"
| "leaves_alone tag _ = True"

definition txns_of :: "'t watch_event list \<Rightarrow> (chan_error + 't) list" where
  "txns_of es = concat (map (\<lambda>e. case e of NewTxn x \<Rightarrow> [x] | _ \<Rightarrow> []) es)"

lemma oks_append: "oks (xs @ ys) = oks xs @ oks ys"
  by (simp add: oks_def)

lemma map_of_filter_keys: "P a \<Longrightarrow> map_of (filter (\<lambda>(k, _). P k) m) a = map_of m a"
  by (induction m) auto

lemma served_frame:
  assumes "served tag i k log w" "watcher_inv w'" "map_of (down_streams w') tag = map_of (down_streams w) tag"
    "received tag w' = received tag w" "is_closed tag w' = is_closed tag w"
  shows "served tag i k log w'"
  using assms by (cases k) (simp_all add: served_def)

lemma served_step:
  assumes "served tag i k log w" "leaves_alone tag e"
  shows "watch_step e w = None \<or> (\<exists>w'. watch_step e w = Some (Inr w') \<and> served tag i k (log @ oks (txns_of [e])) w')"
proof -
  have inv: "distinct (map fst (down_streams w))" and opn: "tag \<notin> set (cw_dropped w)"
    using assms(1) by (simp_all add: served_def watcher_inv_def is_closed_def)
  have other: "oks (txns_of [e]) = [] \<Longrightarrow> watch_step e w = Some (Inr w') \<Longrightarrow> served tag i k log w' \<Longrightarrow> ?thesis" for w' by auto
  show ?thesis
  proof (cases e)
    case (NewTxn x)
    then show ?thesis using served_txn [OF assms(1), of x] by (simp add: txns_of_def)
  next
    case (AddInterest a j l)
    have "served tag i k log (snd (add_interest a j l w))"
      by (rule served_frame [OF assms(1)])
         (use AddInterest assms(2) inv in \<open>simp_all add: add_interest_def watcher_inv_def distinct_update received_def is_closed_def\<close>)
    with AddInterest show ?thesis by (intro other) (simp_all add: txns_of_def)
  next
    case Cleanup
    have "map_of (filter (\<lambda>(a, _). \<not> is_closed a w) (down_streams w)) tag = map_of (down_streams w) tag"
      by (rule map_of_filter_keys) (use opn in \<open>simp add: is_closed_def\<close>)
    then have "served tag i k log (cleanup w)"
      by (intro served_frame [OF assms(1)]) (use inv in \<open>simp_all add: cleanup_def watcher_inv_def distinct_map_filter\<close>)
    with Cleanup show ?thesis by (intro other) (simp_all add: txns_of_def)
  next
    case (ReceiverDropped a)
    have "served tag i k log (w\<lparr>cw_dropped := a # cw_dropped w\<rparr>)"
      by (rule served_frame [OF assms(1)])
         (use ReceiverDropped assms(2) inv in \<open>simp_all add: watcher_inv_def received_def is_closed_def\<close>)
    with ReceiverDropped show ?thesis by (intro other) (simp_all add: txns_of_def)
  next
    case (ReceiverRead a)
    have "served tag i k log (w\<lparr>cw_read := x\<rparr>)" for x
      by (rule served_frame [OF assms(1)]) (use inv in \<open>simp_all add: watcher_inv_def received_def is_closed_def\<close>)
    with ReceiverRead assms(1) show ?thesis by (simp add: txns_of_def)
  qed
qed

lemma served_run:
  assumes "served tag i k log w" "list_all (leaves_alone tag) es"
  shows "watch_run es w = None \<or> (\<exists>w'. watch_run es w = Some (Inr w') \<and> served tag i k (log @ oks (txns_of es)) w')"
  using assms
proof (induction es arbitrary: log w)
  case (Cons e es)
  have split: "log @ oks (txns_of (e # es)) = (log @ oks (txns_of [e])) @ oks (txns_of es)" by (simp add: txns_of_def oks_append)
  have "watch_step e w = None \<or> (\<exists>w1. watch_step e w = Some (Inr w1) \<and> served tag i k (log @ oks (txns_of [e])) w1)"
    by (rule served_step) (use Cons.prems in simp_all)
  then show ?case
  proof (elim disjE exE conjE)
    fix w1
    assume w1: "watch_step e w = Some (Inr w1)" "served tag i k (log @ oks (txns_of [e])) w1"
    have "list_all (leaves_alone tag) es" using Cons.prems(2) by simp
    from Cons.IH [OF w1(2) this] w1(1) show ?thesis unfolding split by simp
  qed simp
qed (simp add: txns_of_def)

lemma served_new:
  assumes "watcher_inv w" "map_of (down_streams w) tag = None"
  shows "served tag i k [] (snd (add_interest tag i k w))"
  using assms by (cases k) (simp_all add: served_def add_interest_def watcher_inv_def is_closed_def received_def distinct_update)

text \<open>The queries of a poll: none has been answered, or the answer is that of the querier for a service
  that has a part of the chain.\<close>

definition asks_chain :: "('t \<times> 'i \<times> 'e list) list \<Rightarrow> ('t, 'i, 'e) txn_with_info poll_env \<Rightarrow> bool" where
  "asks_chain full E \<longleftrightarrow> (\<forall>n l. pe_query E n l = QueryPending \<or> (\<exists>C. service_ok full C \<and> pe_query E n l = QueryReady (txn_query C n l)))"

lemma asks_honest:
  assumes "asks_chain full E" "length full < 2 ^ 64"
  shows "honest on_chain (keyed 0 full) E"
  unfolding honest_def
proof (intro conjI allI impI)
  fix n l m
  show "pe_query E n l \<noteq> QueryReady (Inl (Panic m))"
    using assms(1) txn_query_no_panic unfolding asks_chain_def by (metis query_result.distinct(1) query_result.inject)
next
  fix n l page
  assume n: "unat n \<le> length (keyed 0 full)" and q: "pe_query E n l = QueryReady (Inr page)"
  obtain C where "service_ok full C" "pe_query E n l = QueryReady (txn_query C n l)"
    using assms(1) q unfolding asks_chain_def by (metis query_result.distinct(1))
  then show "\<exists>xs k. page = keyed n xs \<and> map on_chain xs = take k (drop (unat n) (keyed 0 full))"
    using txn_query_honest [of full C n l page] assms(2) n q by (simp add: keyed_simps(1))
qed

section \<open>A small instance\<close>

definition sample_txns :: "(nat \<times> nat \<times> nat list) list" where
  "sample_txns = [(10, 0, []), (11, 0, [4]), (12, 0, []), (11, 1, [])]"

definition sample_service :: "(nat, nat, nat) txn_service" where
  "sample_service = \<lparr>get_transactions = \<lambda>n l. Inr (let xs = take (unat l) (drop (unat n) sample_txns)
       in (if xs = [] then None else Some n, map fst xs, map (fst \<circ> snd) xs, Some (map (snd \<circ> snd) xs))),
     association_state = \<lambda>_. Inr (Some []), read_block_height = \<lambda>_. Inr (Some 7)\<rparr>"

definition sample_poll :: "(nat, nat, nat) txn_with_info poll_env" where
  "sample_poll = \<lparr>pe_delay_over = True, pe_query = \<lambda>n l. QueryReady (txn_query sample_service n l), pe_backoff = \<lambda>_. True\<rparr>"

definition sample_stream :: "(chan_error + (nat, nat, nat) txn_with_info) list" where
  "sample_stream = projr (fst (stream_run (replicate 5 sample_poll) (data_stream_new 1 2)))"

lemma sample_asks: "asks_chain sample_txns sample_poll"
proof -
  have "service_ok sample_txns sample_service" by (auto simp: service_ok_def sample_service_def no_panic_def Let_def)
  then show ?thesis by (auto simp: asks_chain_def sample_poll_def)
qed

lemma txns_of_map: "txns_of (map NewTxn xs) = xs" "list_all (leaves_alone tag) (map NewTxn xs)"
  by (induction xs) (simp_all add: txns_of_def)

section \<open>Properties\<close>



end
