(* ===== verification/Channel_Events.thy ===== *)
theory Channel_Events
  imports Data_Stream Table_Router
begin

text \<open>
  Changes of channels as the chain reports them (\<open>sgwallet/src/channel_event_watcher.rs\<close>): the stream of
  global channel events, each turned into a \<open>ChannelChangeEvent\<close> with the participants read from the
  state of the channel. The table router (\<open>Table_Router\<close>) keeps its graph by them.
\<close>

record contract_event =
  ev_struct :: bool
  ev_sequence_number :: u64
  ev_data :: bytes

record event_with_proof =
  ev_event :: contract_event
  ev_transaction_version :: u64

record channel_event =
  ce_channel_address :: account_address
  ce_stage :: u64
  ce_balances :: "u64 list"

text \<open>The requests of the chain client and the resources of libra: global events, the state of an account
  for a client that knows the given version, and the two resources. \<open>hash_order\<close> is the order in which the
  hash map made for the event with a number gives its entries.\<close>

record event_service =
  get_global_events :: "u64 \<Rightarrow> u64 \<Rightarrow> chan_error + event_with_proof list"
  event_account_state :: "account_address \<Rightarrow> u64 \<Rightarrow> chan_error + (bytes \<times> bytes) list option"
  channel_path :: bytes
  read_channel_event :: "bytes \<Rightarrow> chan_error + channel_event"
  read_participants :: "bytes \<Rightarrow> chan_error + account_address list"
  hash_order :: "u64 \<Rightarrow> (account_address \<times> u64) list \<Rightarrow> (account_address \<times> u64) list"

definition parse_channel_event :: "event_service \<Rightarrow> contract_event \<Rightarrow> chan_error + channel_event" where
  "parse_channel_event C e =
     try_bind (ensure (ev_struct e) (Bail ''channel event type should not be this'')) (\<lambda>_. read_channel_event C (ev_data e))"

text \<open>Collecting into a hash map: a later entry for a key replaces an earlier one.\<close>

definition collect_balances :: "account_address list \<Rightarrow> u64 list \<Rightarrow> (account_address \<times> u64) list" where
  "collect_balances as bs = fold (\<lambda>(a, b). AList.update a b) (zip as bs) []"

definition get_channel_change :: "event_service \<Rightarrow> event_with_proof \<Rightarrow> chan_error + u64 \<times> channel_change_event" where
  "get_channel_change C e =
     try_bind (parse_channel_event C (ev_event e)) (\<lambda>ce.
     try_bind (event_account_state C (ce_channel_address ce) (ev_transaction_version e)) (\<lambda>state.
     try_bind (ok_or state (Bail ''channel state should exists'')) (\<lambda>s.
     try_bind (ok_or (map_of s (channel_path C)) (Bail ''channel resource should exists'')) (\<lambda>value.
     try_bind (read_participants C value) (\<lambda>participants.
       (let balances = hash_order C (ev_sequence_number (ev_event e)) (collect_balances participants (ce_balances ce))
        in try_bind
             (if ce_stage ce = 0 then Inr (ChannelOpened (ce_channel_address ce) balances)
              else if ce_stage ce = 1 then Inr (ChannelLocked (ce_channel_address ce) balances)
              else if ce_stage ce = 2 then Inr (ChannelClosed (ce_channel_address ce) balances)
              else Inl (Panic ''unreachable''))
             (\<lambda>ev. Inr (ev_sequence_number (ev_event e), ev))))))))"

definition global_event_query :: "event_service \<Rightarrow> u64 \<Rightarrow> u64 \<Rightarrow> chan_error + (u64 \<times> event_with_proof) list" where
  "global_event_query C = event_query (get_global_events C) (ev_sequence_number \<circ> ev_event)"

text \<open>What the loop of the table router does with the items of the stream. The conversion runs while the
  stream is polled, and a panic there ends the loop. Each result is handled by a task of its own, whose
  panic ends only the task; here the tasks run in the order in which they were started.\<close>

fun handle_changes ::
  "event_service \<Rightarrow> 'g petgraph \<Rightarrow> (chan_error + event_with_proof) list \<Rightarrow> ('g graph_store, unit) action" where
  "handle_changes C G [] g = (Inr (), g)"
| "handle_changes C G (x # xs) g =
     (case try_bind x (get_channel_change C) of
        Inl (Panic m) \<Rightarrow> (Inl (Panic m), g)
      | r \<Rightarrow> handle_changes C G xs (snd (handle_stream G r g)))"

section \<open>The graph follows the chain\<close>

text \<open>The events of the chain with their numbers, and a service that answers with a part of them from the
  number that was asked for.\<close>

definition events_ok :: "event_with_proof list \<Rightarrow> event_service \<Rightarrow> bool" where
  "events_ok full C \<longleftrightarrow> no_panic (\<lambda>(n, l). get_global_events C n l) \<and>
     (\<forall>i < length full. ev_sequence_number (ev_event (full ! i)) = of_nat i) \<and>
     (\<forall>n l es. get_global_events C n l = Inr es \<longrightarrow> (\<exists>k. es = take k (drop (unat n) full)))"

lemma keyed_events:
  assumes "\<forall>i < length full. ev_sequence_number (ev_event (full ! i)) = of_nat i" "length full < 2 ^ 64" "n \<le> length full"
  shows "map (\<lambda>e. ((ev_sequence_number \<circ> ev_event) e, e)) (take k (drop n full)) = keyed (of_nat n) (take k (drop n full))"
  using assms(3)
proof (induction k arbitrary: n)
  case (Suc k)
  show ?case
  proof (cases "n < length full")
    case True
    then have "drop n full = full ! n # drop (Suc n) full" by (simp add: Cons_nth_drop_Suc)
    with Suc.IH [of "Suc n"] True assms(1) show ?thesis by (simp add: add.commute)
  qed simp
qed simp

lemma event_query_honest:
  assumes "events_ok full C" "length full < 2 ^ 64" "unat n \<le> length full" "global_event_query C n l = Inr page"
  shows "\<exists>k. page = keyed n (take k (drop (unat n) full))"
proof -
  obtain es where es: "get_global_events C n l = Inr es" "page = bt_of_list (map (\<lambda>e. ((ev_sequence_number \<circ> ev_event) e, e)) es)"
    using assms(4) by (auto simp: global_event_query_def event_query_def try_bind_Inr_iff)
  then obtain k where k: "es = take k (drop (unat n) full)" using assms(1) unfolding events_ok_def by blast
  have seqs: "\<forall>i < length full. ev_sequence_number (ev_event (full ! i)) = of_nat i" using assms(1) by (simp add: events_ok_def)
  have "page = bt_of_list (keyed n (take k (drop (unat n) full)))"
    using es k keyed_events [OF seqs assms(2,3), of k] by simp
  moreover have "bt_wf (keyed n (take k (drop (unat n) full)))" by (rule keyed_wf) (use assms(2,3) in simp)
  ultimately show ?thesis using bt_of_list_id by metis
qed

text \<open>The queries of a poll, against one service.\<close>

definition asks_events :: "event_service \<Rightarrow> event_with_proof poll_env \<Rightarrow> bool" where
  "asks_events C E \<longleftrightarrow> (\<forall>n l. pe_query E n l = QueryPending \<or> pe_query E n l = QueryReady (global_event_query C n l))"

lemma asks_events_honest:
  assumes "events_ok full C" "length full < 2 ^ 64" "asks_events C E"
  shows "honest id full E"
  unfolding honest_def
proof (intro conjI allI impI)
  fix n l m
  have "get_global_events C n l \<noteq> Inl (Panic m)" using assms(1) by (simp add: events_ok_def no_panic_def)
  then have "global_event_query C n l \<noteq> Inl (Panic m)" by (simp add: global_event_query_def event_query_def try_bind_Inl_iff)
  then show "pe_query E n l \<noteq> QueryReady (Inl (Panic m))"
    using assms(3) unfolding asks_events_def by (metis query_result.distinct(1) query_result.inject)
next
  fix n l page
  assume n: "unat n \<le> length full" and q: "pe_query E n l = QueryReady (Inr page)"
  have "global_event_query C n l = Inr page"
    using assms(3) q unfolding asks_events_def by (metis query_result.distinct(1) query_result.inject)
  from event_query_honest [OF assms(1,2) n this]
  show "\<exists>xs k. page = keyed n xs \<and> map id xs = take k (drop (unat n) full)" by auto
qed

text \<open>The stream itself gives one error only.\<close>

lemma poll_error: "stream_poll_next E s = (Inr (StreamItem (Inl e)), s') \<Longrightarrow> e = Bail ''backoff timout''"
  by (auto simp: stream_poll_next_def try_backoff_def Let_def split: option.splits if_splits query_result.splits sum.splits chan_error.splits)

lemma run_errors: "stream_run Es s = (Inr xs, s') \<Longrightarrow> Inl e \<in> set xs \<Longrightarrow> e = Bail ''backoff timout''"
proof (induction Es arbitrary: s xs)
  case (Cons E Es)
  then show ?case
    by (auto simp: try_bind_Inr_iff split: prod.splits sum.splits stream_poll.splits dest: poll_error)
qed simp

lemma handle_changes_graph:
  assumes "\<And>e. Inl e \<in> set xs \<Longrightarrow> e = Bail ''backoff timout''" "\<And>e m. e \<in> set (oks xs) \<Longrightarrow> get_channel_change C e \<noteq> Inl (Panic m)"
  shows "handle_changes C G xs g = (Inr (), graph_events G (oks (map (get_channel_change C) (oks xs))) g)"
  using assms
proof (induction xs arbitrary: g)
  case (Cons x xs)
  have IH: "handle_changes C G xs g = (Inr (), graph_events G (oks (map (get_channel_change C) (oks xs))) g)" for g
    using Cons.prems by (intro Cons.IH) (auto simp: oks_def)
  show ?case
  proof (cases x)
    case (Inl e)
    with Cons.prems(1) [of e] have "x = Inl (Bail ''backoff timout'')" by simp
    with IH show ?thesis by (simp add: handle_stream_def)
  next
    case (Inr e)
    with Cons.prems(2) have np: "\<nexists>m. get_channel_change C e = Inl (Panic m)" by simp
    show ?thesis
    proof (cases "get_channel_change C e")
      case (Inl err)
      with np IH Inr show ?thesis by (cases err) (simp_all add: handle_stream_def)
    qed (use IH Inr in simp)
  qed
qed simp

section \<open>A small instance\<close>

definition sample_events :: "event_with_proof list" where
  "sample_events = map (\<lambda>(n, stage). \<lparr>ev_event = \<lparr>ev_struct = True, ev_sequence_number = n, ev_data = [stage]\<rparr>,
     ev_transaction_version = 20 + n\<rparr>) [(0, 0), (1, 0), (2, 2)]"

definition sample_event_service :: event_service where
  "sample_event_service = \<lparr>get_global_events = \<lambda>n l. Inr (take (unat l) (drop (unat n) sample_events)),
     event_account_state = \<lambda>a v. Inr (Some [([1], a)]), channel_path = [1],
     read_channel_event = \<lambda>d. Inr \<lparr>ce_channel_address = [9], ce_stage = ucast (hd d), ce_balances = [5, 6]\<rparr>,
     read_participants = \<lambda>_. Inr [[1], [2]], hash_order = \<lambda>_ bs. bs\<rparr>"

definition sample_event_poll :: "event_with_proof poll_env" where
  "sample_event_poll = \<lparr>pe_delay_over = True, pe_query = \<lambda>n l. QueryReady (global_event_query sample_event_service n l), pe_backoff = \<lambda>_. True\<rparr>"

section \<open>Properties\<close>



end
