(* ===== verification/Network_Service.thy ===== *)
theory Network_Service
  imports Wire_Messages State_Actions
begin

text \<open>
  The network service of a node (\<open>sgnetwork/src/net.rs\<close>, \<open>message.rs\<close>, \<open>helper.rs\<close>): between the frames of the node
  and the custom protocol. A message carries a number when its sender wants to know that it arrived;
  the receiver sends the number back. The codec, the service of libp2p and its peer ids are the record
  \<open>net_lib\<close>; what is handed to libp2p is a list of frames with their targets.
\<close>

section \<open>Messages\<close>

record payload_msg =
  pm_id :: u128
  pm_data :: bytes

datatype ack_message = ACK u128 | Payload payload_msg

record network_message =
  nm_peer_id :: account_address
  nm_data :: bytes

record net_lib =
  net_wire :: wire_lib
  encode_message :: "ack_message \<Rightarrow> bytes"
  decode_message :: "bytes \<Rightarrow> ack_message option"
  peer_id_from_bytes :: "bytes \<Rightarrow> bool"

definition from_bytes :: "net_lib \<Rightarrow> bytes \<Rightarrow> chan_error + ack_message" where
  "from_bytes C b = ok_or (decode_message C b) (Bail ''message'')"

text \<open>The number of a message is the time in nanoseconds.\<close>

definition new_payload :: "u128 \<Rightarrow> bytes \<Rightarrow> ack_message \<times> u128" where
  "new_payload now d = (Payload \<lparr>pm_id = now, pm_data = d\<rparr>, now)"

definition new_message :: "bytes \<Rightarrow> ack_message" where
  "new_message d = Payload \<lparr>pm_id = 0, pm_data = d\<rparr>"

fun as_payload :: "ack_message \<Rightarrow> bytes option" where
  "as_payload (Payload p) = Some (pm_data p)"
| "as_payload (ACK _) = None"

section \<open>Addresses and peer ids\<close>

text \<open>A peer id is its bytes; the first two are cut off, which panics when there are fewer.\<close>

definition convert_peer_id_to_account_address :: "net_lib \<Rightarrow> bytes \<Rightarrow> chan_error + account_address" where
  "convert_peer_id_to_account_address C p =
     try_bind (ensure (2 \<le> length p) (Panic ''slice index starts at 2'')) (\<lambda>_. to_address (net_wire C) (drop 2 p))"

definition convert_account_address_to_peer_id :: "net_lib \<Rightarrow> account_address \<Rightarrow> chan_error + bytes" where
  "convert_account_address_to_peer_id C a =
     (let p = 22 # 32 # a in try_bind (ensure (peer_id_from_bytes C p) (Bail ''peer id'')) (\<lambda>_. Inr p))"

text \<open>The text after the last slash of a boot node is an address; it is replaced by the peer id.
  \<open>parse\<close> and \<open>show_peer\<close> are libra's and libp2p's.\<close>

fun split_last :: "char \<Rightarrow> string \<Rightarrow> (string \<times> string) option" where
  "split_last c [] = None"
| "split_last c (x # xs) =
     (case split_last c xs of
        Some (a, b) \<Rightarrow> Some (x # a, b)
      | None \<Rightarrow> if x = c then Some ([], xs) else None)"

definition convert_boot_nodes ::
  "net_lib \<Rightarrow> (string \<Rightarrow> account_address option) \<Rightarrow> (bytes \<Rightarrow> string) \<Rightarrow> string list \<Rightarrow> chan_error + string list" where
  "convert_boot_nodes C parse show_peer boot_nodes =
     try_map (\<lambda>x.
       try_bind (ok_or (split_last CHR ''/'' x) (Panic ''Failed to parse boot nodes'')) (\<lambda>(addr, account).
       try_bind (ok_or (parse account) (Panic ''Failed to parse account address'')) (\<lambda>a.
       (case convert_account_address_to_peer_id C a of
          Inl _ \<Rightarrow> Inl (Panic ''Failed to parse account address'')
        | Inr p \<Rightarrow> Inr (addr @ ''/'' @ show_peer p))))) boot_nodes"

section \<open>The service\<close>

text \<open>Open numbers with the callers that wait for them, callers that were told, callers whose sender was
  dropped, frames for libp2p, and messages for the node.\<close>

record network_service =
  net_acks :: "(u128 \<times> nat) list"
  net_acked :: "nat list"
  net_canceled :: "nat list"
  net_out :: "(bytes \<times> bytes) list"
  net_in :: "network_message list"

datatype service_event =
    CustomMessage bytes bytes
  | OpenedCustomProtocol bytes u8 string
  | ClosedCustomProtocol bytes string
  | Clogged bytes "bytes list"

definition network_service_new :: network_service where
  "network_service_new = \<lparr>net_acks = [], net_acked = [], net_canceled = [], net_out = [], net_in = []\<rparr>"

definition unwrap_result :: "chan_error + 'a \<Rightarrow> chan_error + 'a" where
  "unwrap_result r = (case r of Inl (Panic m) \<Rightarrow> Inl (Panic m) | Inl _ \<Rightarrow> Inl (Panic ''unwrap on Err'') | Inr x \<Rightarrow> Inr x)"

definition send_custom_message :: "bytes \<Rightarrow> bytes \<Rightarrow> network_service \<Rightarrow> network_service" where
  "send_custom_message p b s = s\<lparr>net_out := net_out s @ [(p, b)]\<rparr>"

text \<open>One event of libp2p; a panic ends the network thread.\<close>

fun handle_service_event :: "net_lib \<Rightarrow> service_event \<Rightarrow> (network_service, unit) action" where
  "handle_service_event C (CustomMessage p b) =
     act_bind (act_lift (unwrap_result (from_bytes C b))) (\<lambda>m.
       (case m of
          Payload pl \<Rightarrow>
            act_bind (act_lift (unwrap_result (convert_peer_id_to_account_address C p))) (\<lambda>address.
            act_bind (act_update (\<lambda>s. s\<lparr>net_in := net_in s @ [\<lparr>nm_peer_id = address, nm_data = pm_data pl\<rparr>]\<rparr>)) (\<lambda>_.
              if pm_id pl \<noteq> 0 then act_update (send_custom_message p (encode_message C (ACK (pm_id pl))))
              else act_lift (Inr ())))
        | ACK i \<Rightarrow>
            act_update (\<lambda>s. case map_of (net_acks s) i of
                Some t \<Rightarrow> s\<lparr>net_acks := AList.delete i (net_acks s), net_acked := t # net_acked s\<rparr>
              | None \<Rightarrow> s)))"
| "handle_service_event C (OpenedCustomProtocol p _ _) =
     act_bind (act_lift (unwrap_result (convert_peer_id_to_account_address C p))) (\<lambda>_. act_lift (Inr ()))"
| "handle_service_event C (ClosedCustomProtocol p _) = act_lift (Inr ())"
| "handle_service_event C (Clogged p _) = act_lift (Inr ())"

text \<open>A message of the node, without a number. Whether the peer is open only decides about a line in the
  log.\<close>

definition forward_node_message :: "net_lib \<Rightarrow> network_message \<Rightarrow> (network_service, unit) action" where
  "forward_node_message C m =
     act_bind (act_lift (unwrap_result (convert_account_address_to_peer_id C (nm_peer_id m)))) (\<lambda>p.
       act_update (send_custom_message p (encode_message C (new_message (nm_data m)))))"

text \<open>A message with a number, in two steps as the locks are taken: the frame is sent, and then the caller
  is listed. The caller of a number that was listed before loses its sender.\<close>

definition post_message :: "net_lib \<Rightarrow> u128 \<Rightarrow> account_address \<Rightarrow> bytes \<Rightarrow> (network_service, unit) action" where
  "post_message C now a d =
     act_bind (act_lift (case convert_account_address_to_peer_id C a of
         Inl _ \<Rightarrow> Inl (Panic ''Invalid account address'')
       | Inr p \<Rightarrow> Inr p)) (\<lambda>p.
       act_update (send_custom_message p (encode_message C (fst (new_payload now d)))))"

definition list_caller :: "u128 \<Rightarrow> nat \<Rightarrow> network_service \<Rightarrow> network_service" where
  "list_caller i t s =
     s\<lparr>net_acks := AList.update i t (net_acks s),
       net_canceled := (case map_of (net_acks s) i of Some t' \<Rightarrow> t' # net_canceled s | None \<Rightarrow> net_canceled s)\<rparr>"

definition send_with_ack :: "net_lib \<Rightarrow> u128 \<Rightarrow> nat \<Rightarrow> account_address \<Rightarrow> bytes \<Rightarrow> (network_service, unit) action" where
  "send_with_ack C now t a d = act_bind (post_message C now a d) (\<lambda>_. act_update (list_caller now t))"

section \<open>Delivery\<close>

text \<open>What the code relies on: the codec is inverse to itself, and an address of libra gives a peer id.\<close>

definition codec_ok :: "net_lib \<Rightarrow> bool" where
  "codec_ok C \<longleftrightarrow> (\<forall>m. decode_message C (encode_message C m) = Some m) \<and>
     (\<forall>a. address_ok (net_wire C) a \<longrightarrow> peer_id_from_bytes C (22 # 32 # a))"

lemma peer_id_roundtrip:
  assumes "codec_ok C" "address_ok (net_wire C) a"
  shows "convert_account_address_to_peer_id C a = Inr (22 # 32 # a)"
    "convert_peer_id_to_account_address C (22 # 32 # a) = Inr a"
  using assms
  by (simp_all add: codec_ok_def convert_account_address_to_peer_id_def convert_peer_id_to_account_address_def to_address_def ensure_def)

lemma from_bytes_encode: "codec_ok C \<Longrightarrow> from_bytes C (encode_message C m) = Inr m"
  by (simp add: codec_ok_def from_bytes_def ok_or_def)

text \<open>A frame of the network that is not a message ends the thread.\<close>

lemma garbage_ends_network: "decode_message C b = None \<Longrightarrow> fst (handle_service_event C (CustomMessage p b) s) = Inl (Panic ''unwrap on Err'')"
  by (simp add: act_bind_def act_lift_def from_bytes_def ok_or_def unwrap_result_def)

text \<open>An answer that comes before the caller is listed is lost: the caller is listed afterwards, and no
  other answer will come.\<close>

lemma early_ack_lost:
  assumes "codec_ok C" "map_of (net_acks s) i = None" "t \<notin> set (net_acked s)"
  shows "let s' = list_caller i t (snd (handle_service_event C (CustomMessage p (encode_message C (ACK i))) s))
    in map_of (net_acks s') i = Some t \<and> t \<notin> set (net_acked s')"
  using assms by (simp add: act_bind_def act_lift_def act_update_def from_bytes_encode unwrap_result_def list_caller_def)

section \<open>Runs\<close>

text \<open>The steps of a service, as the two futures and the callers take them.\<close>

datatype net_op =
    OnEvent service_event
  | OnForward network_message
  | OnPost u128 account_address bytes
  | OnList u128 nat

fun net_step :: "net_lib \<Rightarrow> net_op \<Rightarrow> (network_service, unit) action" where
  "net_step C (OnEvent e) = handle_service_event C e"
| "net_step C (OnForward m) = forward_node_message C m"
| "net_step C (OnPost now a d) = post_message C now a d"
| "net_step C (OnList i t) = act_update (list_caller i t)"

fun net_run :: "net_lib \<Rightarrow> net_op list \<Rightarrow> (network_service, unit) action" where
  "net_run C [] = act_lift (Inr ())"
| "net_run C (op # ops) = act_bind (net_step C op) (\<lambda>_. net_run C ops)"

text \<open>Steps that neither answer a number nor give it to another caller.\<close>

fun spares :: "net_lib \<Rightarrow> u128 \<Rightarrow> net_op \<Rightarrow> bool" where
  "spares C i (OnEvent (CustomMessage p b)) = (decode_message C b \<noteq> Some (ACK i))"
| "spares C i (OnList j t) = (j \<noteq> i)"
| "spares C i _ = True"

lemma step_spares: "spares C i op \<Longrightarrow> map_of (net_acks (snd (net_step C op s))) i = map_of (net_acks s) i"
  by (cases "(C, i, op)" rule: spares.cases)
     (auto simp: act_bind_def act_lift_def act_update_def list_caller_def post_message_def forward_node_message_def send_custom_message_def
        from_bytes_def ok_or_def unwrap_result_def AList.delete_conv' update_conv'
        split: sum.splits option.splits ack_message.splits chan_error.splits if_splits)

lemma run_spares: "\<forall>op \<in> set ops. spares C i op \<Longrightarrow> map_of (net_acks (snd (net_run C ops s))) i = map_of (net_acks s) i"
proof (induction ops arbitrary: s)
  case (Cons op ops)
  then have op: "map_of (net_acks (snd (net_step C op s))) i = map_of (net_acks s) i" by (simp add: step_spares)
  show ?case
  proof (cases "net_step C op s")
    case (Pair r s')
    with op Cons show ?thesis by (cases r) (simp_all add: act_bind_def)
  qed
qed (simp add: act_lift_def)

section \<open>A small instance\<close>

fun sample_encode :: "ack_message \<Rightarrow> bytes" where
  "sample_encode (ACK i) = 0 # le_bytes 16 (unat i)"
| "sample_encode (Payload p) = 1 # le_bytes 16 (unat (pm_id p)) @ pm_data p"

fun sample_decode :: "bytes \<Rightarrow> ack_message option" where
  "sample_decode [] = None"
| "sample_decode (b # bs) =
     (if length bs < 16 then None
      else let i = of_nat (le_value (take 16 bs))
           in if b = 0 then Some (ACK i) else if b = 1 then Some (Payload \<lparr>pm_id = i, pm_data = drop 16 bs\<rparr>) else None)"

definition sample_net :: net_lib where
  "sample_net = \<lparr>net_wire = \<lparr>address_ok = \<lambda>b. length b = 32, public_key_ok = \<lambda>_. True, signature_ok = \<lambda>_. True, hash_ok = \<lambda>_. True,
       argument_into = \<lambda>_. [], argument_from = \<lambda>_. Inl (Bail [])\<rparr>,
     encode_message = sample_encode, decode_message = sample_decode, peer_id_from_bytes = \<lambda>b. length b = 34\<rparr>"

lemma sample_net_ok: "codec_ok sample_net"
proof -
  have "sample_decode (sample_encode m) = Some m" for m
    using le_bytes_word [where n = 16 and 'a = 128] by (cases m) (simp_all add: Let_def)
  then show ?thesis by (simp add: codec_ok_def sample_net_def)
qed

section \<open>Properties\<close>

text \<open>C15. A message that asks for it is acknowledged. The frame that the sender hands to libp2p gives the
  receiver the data under the address of the sender, and makes it answer; when the answer comes,
  whatever the sender has done in the meantime, the caller is told and its number is free again, unless
  the number was answered or given to another caller in between.\<close>

theorem message_acknowledged:
  assumes "codec_ok C" "address_ok (net_wire C) a" "address_ok (net_wire C) b" "now \<noteq> 0"
    and "\<forall>op \<in> set ops. spares C now op"
  shows "\<exists>s1 r1 f g. send_with_ack C now t b d s = (Inr (), s1) \<and> net_out s1 = net_out s @ [(22 # 32 # b, f)] \<and>
    handle_service_event C (CustomMessage (22 # 32 # a) f) r = (Inr (), r1) \<and>
    net_in r1 = net_in r @ [\<lparr>nm_peer_id = a, nm_data = d\<rparr>] \<and> net_out r1 = net_out r @ [(22 # 32 # a, g)] \<and>
    (\<forall>s2. net_run C ops s1 = (Inr (), s2) \<longrightarrow>
      (\<exists>s3. handle_service_event C (CustomMessage (22 # 32 # b) g) s2 = (Inr (), s3) \<and>
        net_acked s3 = t # net_acked s2 \<and> map_of (net_acks s3) now = None \<and> net_in s3 = net_in s2 \<and> net_out s3 = net_out s2))"
proof -
  let ?f = "encode_message C (Payload \<lparr>pm_id = now, pm_data = d\<rparr>)" and ?g = "encode_message C (ACK now)"
  let ?s1 = "list_caller now t (send_custom_message (22 # 32 # b) ?f s)"
  have send: "send_with_ack C now t b d s = (Inr (), ?s1)" "net_out ?s1 = net_out s @ [(22 # 32 # b, ?f)]"
    using peer_id_roundtrip(1) [OF assms(1,3)]
    by (simp_all add: send_with_ack_def post_message_def act_bind_def act_lift_def act_update_def new_payload_def list_caller_def send_custom_message_def)
  let ?r1 = "send_custom_message (22 # 32 # a) ?g (r\<lparr>net_in := net_in r @ [\<lparr>nm_peer_id = a, nm_data = d\<rparr>]\<rparr>)"
  have recv: "handle_service_event C (CustomMessage (22 # 32 # a) ?f) r = (Inr (), ?r1)"
    "net_in ?r1 = net_in r @ [\<lparr>nm_peer_id = a, nm_data = d\<rparr>]" "net_out ?r1 = net_out r @ [(22 # 32 # a, ?g)]"
    using assms(4) peer_id_roundtrip(2) [OF assms(1,2)]
    by (simp_all add: act_bind_def act_lift_def act_update_def from_bytes_encode [OF assms(1)] unwrap_result_def send_custom_message_def)
  have told: "\<exists>s3. handle_service_event C (CustomMessage (22 # 32 # b) ?g) s2 = (Inr (), s3) \<and>
      net_acked s3 = t # net_acked s2 \<and> map_of (net_acks s3) now = None \<and> net_in s3 = net_in s2 \<and> net_out s3 = net_out s2"
    if "net_run C ops ?s1 = (Inr (), s2)" for s2
  proof -
    have "map_of (net_acks s2) now = Some t" using run_spares [OF assms(5), of ?s1] that by (simp add: list_caller_def update_conv')
    then show ?thesis
      by (simp add: act_bind_def act_lift_def act_update_def from_bytes_encode [OF assms(1)] unwrap_result_def AList.delete_conv')
  qed
  show ?thesis using send recv told by blast
qed

theorem message_acknowledged_witness:
  "\<exists>s1 r1 f g s2 s3. send_with_ack sample_net 7 1 (replicate 32 2) [5, 6] network_service_new = (Inr (), s1) \<and>
     net_out s1 = [(22 # 32 # replicate 32 2, f)] \<and>
     handle_service_event sample_net (CustomMessage (22 # 32 # replicate 32 1) f) network_service_new = (Inr (), r1) \<and>
     net_in r1 = [\<lparr>nm_peer_id = replicate 32 1, nm_data = [5, 6]\<rparr>] \<and>
     net_run sample_net [OnList 8 3] s1 = (Inr (), s2) \<and>
     handle_service_event sample_net (CustomMessage (22 # 32 # replicate 32 2) g) s2 = (Inr (), s3) \<and> net_acked s3 = 1 # net_acked s2"
proof -
  have addr: "address_ok (net_wire sample_net) (replicate 32 x)" for x by (simp add: sample_net_def)
  have ops: "\<forall>op \<in> set [OnList 8 3]. spares sample_net 7 op" by simp
  have new: "net_out network_service_new = []" "net_in network_service_new = []" by (simp_all add: network_service_new_def)
  have run: "net_run sample_net [OnList 8 3] s = (Inr (), list_caller 8 3 s)" for s
    by (simp add: act_bind_def act_lift_def act_update_def)
  show ?thesis
    using message_acknowledged [OF sample_net_ok addr [of 1] addr [of 2] _ ops, where t = 1 and d = "[5, 6]" and s = network_service_new and r = network_service_new]
    unfolding new append_Nil run by force
qed

end
