(* ===== verification/Spec2Isabelle.thy ===== *)
theory Spec2Isabelle
  imports Stargate_Prelude Peers_State Peerset_Manager Peerset_Correct Proto_Substream
    Proto_Handler Custom_Proto Custom_Proto_Events Btree_Map Channel_Types Channel_Stm Channel_Store
    Ledger_Correct Stm_Correct State_Actions Channel_Actor Channel_Correct Channel_Restart Channel_Rounds
    Byte_Codec Wire_Messages Wire_Correct Router_Stats Ant_Router Table_Router Wallet_Actor Wallet_Handle
    Invoices Node_Futures Node_Inner Node_Commands Node_Links Node_Payments Node_Recovery
    Data_Stream Chain_Watcher Channel_Events Network_Service
begin

text \<open>
  A verification development of Stargate, a payment channel network on top of a chain of the libra kind.

  \<^bold>\<open>The program.\<close> A node owns a wallet, which owns one channel actor per peer. The two ends of a channel
  agree on transactions off the chain by exchanging signed proposals, or let a transaction travel to the
  chain. Nodes talk through a network service on top of libp2p; a peer set manager decides which peers to
  connect. Payments over several nodes need a path, found by one of two routers, and are secured by hash
  locks. Watchers follow the chain for the transactions and events that concern a wallet or a router.

  \<^bold>\<open>Conventions.\<close> Fallible code returns a sum with the error on the left; \<open>Panic\<close>, \<open>unreachable!\<close>, \<open>unwrap\<close> and
  \<open>expect\<close> are errors of their own. \<open>('s, 'a) action\<close> (\<open>State_Actions\<close>) is code that may fail and keeps what it has
  changed. \<open>'a awaited\<close> (\<open>Router_Stats\<close>) adds the case that an answer never comes. Hash maps are association
  lists in iteration order, ordered maps sorted lists (\<open>Btree_Map\<close>), integers are words of their width where
  they may wrap. Code outside the repository is an argument: libra's executor, keys, hashes and
  accumulators, libp2p, rocksdb, petgraph, the protobuf and parity codecs, clocks and random numbers.
  What is assumed about an argument is a named predicate (\<open>accumulator_ok\<close>, \<open>wire_ok\<close>, \<open>codec_ok\<close>, \<open>petgraph_ok\<close>,
  \<open>service_ok\<close> and others), and each property that needs one is applied to a concrete instance that has it.
  A helper that stands for a few lines of a function is mapped with the function.

  \<^bold>\<open>The theories.\<close>

  \<^item> \<open>Stargate_Prelude\<close>, \<open>Btree_Map\<close>, \<open>Byte_Codec\<close>, \<open>State_Actions\<close>: shared vocabulary, the locale of an invariant of
    reachable states, ordered maps, integers as bytes, stateful actions and their rules.
  \<^item> \<open>Peers_State\<close>, \<open>Peerset_Manager\<close>, \<open>Peerset_Correct\<close> (\<open>network-libp2p/peerset\<close>): the peer set. Slot counters are
    right and nothing panics in reachable states, free slots are filled, the messages report every
    change, bans expire.
  \<^item> \<open>Proto_Substream\<close>, \<open>Proto_Handler\<close>, \<open>Custom_Proto\<close>, \<open>Custom_Proto_Events\<close> (\<open>network-libp2p/src/custom_proto\<close>): the
    custom protocol from a substream to the behaviour. Packets keep their order, polling returns, open and
    closed events alternate, handlers follow the state of their peer, bans are kept; and a reachable state
    in which an incoming peer is never answered.
  \<^item> \<open>Channel_Types\<close>, \<open>Channel_Stm\<close>, \<open>Stm_Correct\<close> (\<open>sgtypes\<close>, \<open>sgwallet/src/channel/channel_stm.rs\<close>): the data of a
    channel and its state machine, which executes, signs and verifies. Caching is invisible, the gas limit
    covers the use, and a signature of a stranger blocks agreement.
  \<^item> \<open>Channel_Store\<close>, \<open>Ledger_Correct\<close> (\<open>sgstorage\<close>, \<open>sgwallet/src/tx_applier.rs\<close>): the local ledger refines a list that is
    only appended to; reading gives what was written, and opening a database rebuilds the ledger.
  \<^item> \<open>Channel_Actor\<close>, \<open>Channel_Correct\<close>, \<open>Channel_Restart\<close>, \<open>Channel_Rounds\<close> (\<open>sgwallet/src/channel\<close>): the channel actor with
    every message handler. Only what all participants have signed is applied off the chain, pending
    transactions are verified and on disk, agreement is final, a restart rebuilds the channel, and a round
    between two parties in step leaves both in step with the transaction in both ledgers.
  \<^item> \<open>Wire_Messages\<close>, \<open>Wire_Correct\<close> (\<open>sgtypes/src/message.rs\<close> and others): frames between nodes. Each is read back as
    what it was; malformed ones end in the panics shown.
  \<^item> \<open>Router_Stats\<close>, \<open>Ant_Router\<close>, \<open>Table_Router\<close> (\<open>router\<close>): payment statistics and the two routers. Paths are put in
    order and the one of least pressure is taken; three faults are proved (a lock taken twice, an edge that
    stays, a router that ends at its start).
  \<^item> \<open>Wallet_Actor\<close>, \<open>Wallet_Handle\<close> (\<open>sgwallet/src/wallet.rs\<close>): the wallet and the operations of its handle.
  \<^item> \<open>Invoices\<close>, \<open>Node_Futures\<close>, \<open>Node_Inner\<close>, \<open>Node_Commands\<close> (\<open>node/node_internal\<close>): invoices, pending answers, the
    handlers of messages and the commands of the user. Invoices are read back; a future is settled once.
  \<^item> \<open>Node_Links\<close>, \<open>Node_Payments\<close>, \<open>Node_Recovery\<close>: two nodes with a channel. A payment goes from the command to its
    answer, a claim is passed on to the previous node, a hop forwards a payment it has not verified, and
    a node with an open request does not start.
  \<^item> \<open>Data_Stream\<close>, \<open>Chain_Watcher\<close>, \<open>Channel_Events\<close> (\<open>sgwallet/src/data_stream.rs\<close>, \<open>chain_watcher\<close>,
    \<open>channel_event_watcher.rs\<close>): streams of the chain and who reads them. Interests get exactly their transactions,
    and the graph of the table router follows the channel events.
  \<^item> \<open>Network_Service\<close> (\<open>sgnetwork\<close>): messages with and without acknowledgement. An acknowledged message has arrived
    under the address of its sender.

  \<^bold>\<open>Loops.\<close> Loops over data are recursion on it; the loops of the peer set and of the ant router have
  measures. The loop that drains a closing substream may run for ever on a socket that always has more and
  is a \<open>partial_function\<close>; that polling returns is proved for sockets whose stream keeps reporting its end. Loops of actors and
  services are runs over lists of events, and properties hold for every list. There is no fuel.

  \<^bold>\<open>Not modelled.\<close> Threads, timers and the actor runtime are reduced to the order of events: a message is
  handled as a whole, but for the two steps of \<open>send_message\<close> of the network service. Tasks started for the
  events of the table router run in the order in which they were started. Debug assertions and the log
  are left out. Not modelled are the glue around libp2p (discovery, transport, the combined behaviour), the
  client and the node of the chain (remote calls; what they answer is an argument), the byte layout of
  database keys (schemadb and lcs), the gRPC interface with its generated messages, the faucet, the script
  compiler, configuration and the command line. The actor for chain state (\<open>chain_state_access\<close>) is dead code.
  In the ant router the tasks around the search, and in \<open>sgtypes\<close> the wrappers of libra's resources and
  proofs, are left out.
\<close>

end
